theory Spec2Isabelle
  imports Complex_Main
begin

section \<open>Strings and regular expressions of the host language\<close>

text \<open>
  A string is a list of code units; the model keeps the code units 0..255, on which
  \<open>trim\<close>, \<open>toLowerCase\<close> and the character classes below agree with the host language.
  \<open>\s\<close> and \<open>trim\<close> use the same white-space set.
\<close>

definition isSpace :: "char \<Rightarrow> bool" where
  "isSpace c = (c \<in> set [CHR 0x09, CHR 0x0A, CHR 0x0B, CHR 0x0C, CHR 0x0D, CHR '' '', CHR 0xA0])"

definition isDigit :: "char \<Rightarrow> bool" where
  "isDigit c = (c \<in> set ''0123456789'')"

definition isLineTerminator :: "char \<Rightarrow> bool" where
  "isLineTerminator c = (c \<in> set [CHR 0x0A, CHR 0x0D])"

text \<open>
  \<open>toLowerCase\<close> on these code units: the letters A to Z, and the capital letters of the
  upper half (0xC0 to 0xDE without the multiplication sign 0xD7), move up by 0x20.
\<close>

definition toLowerChar :: "char \<Rightarrow> char" where
  "toLowerChar c =
     (let n = (of_char c :: nat) in
      if (65 \<le> n \<and> n \<le> 90) \<or> (192 \<le> n \<and> n \<le> 222 \<and> n \<noteq> 215)
      then char_of (n + 32) else c)"

definition toLowerCase :: "string \<Rightarrow> string" where
  "toLowerCase s = map toLowerChar s"

text \<open>A word character of \<open>\b\<close>: a digit, a letter A to Z or a to z, or the underscore.\<close>

definition isWordChar :: "char \<Rightarrow> bool" where
  "isWordChar c =
     (let n = (of_char c :: nat) in
      (48 \<le> n \<and> n \<le> 57) \<or> (65 \<le> n \<and> n \<le> 90) \<or> n = 95 \<or> (97 \<le> n \<and> n \<le> 122))"

definition trim :: "string \<Rightarrow> string" where
  "trim s = rev (dropWhile isSpace (rev (dropWhile isSpace s)))"

text \<open>
  Regular expressions are matched by backtracking, as the host engine does: alternatives
  are tried left to right, a quantifier is greedy and gives characters back one iteration at
  a time, and an iteration that consumes nothing is not repeated. The matcher is written
  with a continuation, so the first success in that order is the match.
\<close>

datatype rx =
    Eps
  | Cls "char \<Rightarrow> bool"
  | Seq rx rx
  | Alt rx rx
  | Star rx
  | Cap rx
  | Bol
  | Eol
  | WordB

record mstate =
  prev :: "char option"
  rest :: string
  cap :: "string option"

primrec star_loop ::
  "((mstate \<Rightarrow> 'r option) \<Rightarrow> mstate \<Rightarrow> 'r option) \<Rightarrow> nat \<Rightarrow>
   (mstate \<Rightarrow> 'r option) \<Rightarrow> mstate \<Rightarrow> 'r option" where
  "star_loop f 0 k st = k st"
| "star_loop f (Suc n) k st =
     (case f (\<lambda>st'. if length (rest st') < length (rest st) then star_loop f n k st' else None) st of
        Some r \<Rightarrow> Some r
      | None \<Rightarrow> k st)"

fun bt :: "rx \<Rightarrow> (mstate \<Rightarrow> 'r option) \<Rightarrow> mstate \<Rightarrow> 'r option" where
  "bt Eps k st = k st"
| "bt (Cls P) k st =
     (case rest st of
        [] \<Rightarrow> None
      | c # cs \<Rightarrow> if P c then k (st\<lparr>prev := Some c, rest := cs\<rparr>) else None)"
| "bt (Seq a b) k st = bt a (\<lambda>st'. bt b k st') st"
| "bt (Alt a b) k st = (case bt a k st of Some r \<Rightarrow> Some r | None \<Rightarrow> bt b k st)"
| "bt (Star a) k st = star_loop (\<lambda>k' st'. bt a k' st') (length (rest st)) k st"
| "bt (Cap a) k st =
     bt a (\<lambda>st'. k (st'\<lparr>cap := Some (take (length (rest st) - length (rest st')) (rest st))\<rparr>)) st"
| "bt Bol k st = (if prev st = None then k st else None)"
| "bt Eol k st = (if rest st = [] then k st else None)"
| "bt WordB k st =
     (if (case prev st of None \<Rightarrow> False | Some c \<Rightarrow> isWordChar c)
         \<noteq> (case rest st of [] \<Rightarrow> False | c # _ \<Rightarrow> isWordChar c)
      then k st else None)"

definition seqs :: "rx list \<Rightarrow> rx" where
  "seqs rs = foldr Seq rs Eps"

definition alts :: "rx list \<Rightarrow> rx" where
  "alts rs = foldr Alt (butlast rs) (last rs)"

definition Plus :: "rx \<Rightarrow> rx" where
  "Plus r = Seq r (Star r)"

definition Opt :: "rx \<Rightarrow> rx" where
  "Opt r = Alt r Eps"

text \<open>A literal of a pattern without the \<open>i\<close> flag, and of a pattern with it.\<close>

definition lit :: "string \<Rightarrow> rx" where
  "lit s = seqs (map (\<lambda>c. Cls (\<lambda>x. x = c)) s)"

definition liti :: "string \<Rightarrow> rx" where
  "liti s = seqs (map (\<lambda>c. Cls (\<lambda>x. toLowerChar x = toLowerChar c)) s)"

definition oneOf :: "string \<Rightarrow> rx" where
  "oneOf cs = Cls (\<lambda>x. x \<in> set cs)"

definition noneOf :: "string \<Rightarrow> rx" where
  "noneOf cs = Cls (\<lambda>x. x \<notin> set cs)"

text \<open>
  \<open>exec r p s\<close> tries the pattern at the start of \<open>s\<close>, where \<open>p\<close> is the character before
  it (\<open>None\<close> at the start of the string); it returns the length of the match and the text
  of the capture group.
\<close>

definition exec :: "rx \<Rightarrow> char option \<Rightarrow> string \<Rightarrow> (nat \<times> string option) option" where
  "exec r p s =
     bt r (\<lambda>st. Some (length s - length (rest st), cap st)) \<lparr>prev = p, rest = s, cap = None\<rparr>"

text \<open>\<open>RegExp.prototype.test\<close> without the \<open>g\<close> flag: a match at any start index.\<close>

fun test_go :: "rx \<Rightarrow> char option \<Rightarrow> string \<Rightarrow> bool" where
  "test_go r p [] = (exec r p [] \<noteq> None)"
| "test_go r p (c # cs) = (if exec r p (c # cs) \<noteq> None then True else test_go r (Some c) cs)"

definition rx_test :: "rx \<Rightarrow> string \<Rightarrow> bool" where
  "rx_test r s = test_go r None s"

text \<open>
  \<open>String.prototype.replace\<close> with a pattern that has the \<open>g\<close> flag: every match from left
  to right, the scan resuming after each match (one character further after an empty one).
  The replacement is a function of the capture group.
\<close>

fun replaceAll_go ::
  "rx \<Rightarrow> (string option \<Rightarrow> string) \<Rightarrow> nat \<Rightarrow> char option \<Rightarrow> string \<Rightarrow> string" where
  "replaceAll_go r f skip p [] =
     (case exec r p [] of Some (n, g) \<Rightarrow> f g | None \<Rightarrow> [])"
| "replaceAll_go r f (Suc n) p (c # cs) = replaceAll_go r f n (Some c) cs"
| "replaceAll_go r f 0 p (c # cs) =
     (case exec r p (c # cs) of
        Some (len, g) \<Rightarrow>
          f g @ (if len = 0 then c # replaceAll_go r f 0 (Some c) cs
                 else replaceAll_go r f (len - 1) (Some c) cs)
      | None \<Rightarrow> c # replaceAll_go r f 0 (Some c) cs)"

definition replaceAll :: "rx \<Rightarrow> (string option \<Rightarrow> string) \<Rightarrow> string \<Rightarrow> string" where
  "replaceAll r f s = replaceAll_go r f 0 None s"

text \<open>The same with a pattern without the \<open>g\<close> flag: the first match only.\<close>

fun replaceFirst_go :: "rx \<Rightarrow> string \<Rightarrow> char option \<Rightarrow> string \<Rightarrow> string" where
  "replaceFirst_go r t p [] = (case exec r p [] of Some (n, g) \<Rightarrow> t | None \<Rightarrow> [])"
| "replaceFirst_go r t p (c # cs) =
     (case exec r p (c # cs) of
        Some (len, g) \<Rightarrow> t @ drop len (c # cs)
      | None \<Rightarrow> c # replaceFirst_go r t (Some c) cs)"

definition replaceFirst :: "rx \<Rightarrow> string \<Rightarrow> string \<Rightarrow> string" where
  "replaceFirst r t s = replaceFirst_go r t None s"

text \<open>\<open>s.split(sep)\<close> for a one-character separator: the first and the last piece.\<close>

definition splitFirst :: "char \<Rightarrow> string \<Rightarrow> string" where
  "splitFirst sep s = takeWhile (\<lambda>c. c \<noteq> sep) s"

definition splitLast :: "char \<Rightarrow> string \<Rightarrow> string" where
  "splitLast sep s = rev (takeWhile (\<lambda>c. c \<noteq> sep) (rev s))"

definition WHITESPACE_RUN :: rx where
  "WHITESPACE_RUN = Plus (Cls isSpace)"

section \<open>Deriving a title from message text\<close>

text \<open>
  The patterns of the title module, each written as the source writes it. All of them but
  the mention pattern, the punctuation patterns and the patterns of \<open>pickAttachmentName\<close>
  carry the \<open>i\<close> flag.
\<close>

definition SLASH_COMMAND_RE :: rx where
  "SLASH_COMMAND_RE =
     seqs [Bol, liti ''/'',
           Plus (Cls (\<lambda>c. toLowerChar c \<in> set ''abcdefghijklmnopqrstuvwxyz0123456789_'')),
           alts [Cls isSpace, Eol]]"

definition LOW_SIGNAL_RE :: rx where
  "LOW_SIGNAL_RE =
     seqs [Bol,
           alts [liti ''hi'', liti ''hello'', liti ''hey'', liti ''yo'', liti ''ok'',
                 liti ''okay'', liti ''test'', liti ''ping''],
           Eol]"

definition STICKER_PLACEHOLDER_RE :: rx where
  "STICKER_PLACEHOLDER_RE =
     seqs [Bol, liti ''[Sticker'',
           Opt (seqs [liti '' '', Plus (noneOf '']'')]),
           liti '']'',
           Opt (seqs [Plus (Cls isSpace), Star (Cls (\<lambda>c. \<not> isLineTerminator c))]),
           Eol]"

definition ATTACHMENT_PLACEHOLDER_TOKEN_RE :: rx where
  "ATTACHMENT_PLACEHOLDER_TOKEN_RE =
     seqs [liti ''<media:'', Plus (noneOf ''>''), liti ''>'',
           Opt (seqs [Star (Cls isSpace), liti ''('', Star (noneOf '')''), liti '')''])]"

definition SLACK_ATTACHMENT_PLACEHOLDER_TOKEN_RE :: rx where
  "SLACK_ATTACHMENT_PLACEHOLDER_TOKEN_RE =
     seqs [liti ''['',
           alts [liti ''Slack file'', liti ''Forwarded image'', liti ''attached''],
           Opt (seqs [liti '':'', Star (Cls isSpace), Plus (noneOf '']'')]),
           liti '']'']"

definition ATTACHMENT_SECTION_TOKEN_RE :: rx where
  "ATTACHMENT_SECTION_TOKEN_RE =
     seqs [liti ''['',
           alts [liti ''Image'', liti ''Audio'', liti ''Video''],
           Opt (seqs [Plus (Cls isSpace), Plus (Cls isDigit), liti ''/'', Plus (Cls isDigit)]),
           liti '']'']"

definition ATTACHMENT_SECTION_LABEL_RE :: rx where
  "ATTACHMENT_SECTION_LABEL_RE =
     seqs [WordB, alts [liti ''User text'', liti ''Description'', liti ''Transcript''], liti '':'']"

definition FILE_OPEN_TAG_RE :: rx where
  "FILE_OPEN_TAG_RE =
     seqs [liti ''<file'', WordB, Star (noneOf ''>''), WordB, liti ''name='', lit [CHR 0x22],
           Cap (Plus (noneOf [CHR 0x22])), lit [CHR 0x22], Star (noneOf ''>''), liti ''>'']"

definition FILE_CLOSE_TAG_RE :: rx where
  "FILE_CLOSE_TAG_RE = liti ''</file>''"

definition ATTACHMENT_NOTE_HEADER_RE :: rx where
  "ATTACHMENT_NOTE_HEADER_RE =
     seqs [liti ''['', alts [liti ''media'', liti ''attachment''], liti '' attached:'',
           Star (Cls isSpace), Plus (Cls isDigit), Plus (Cls isSpace), liti ''files]'']"

definition ATTACHMENT_NOTE_ENTRY_RE :: rx where
  "ATTACHMENT_NOTE_ENTRY_RE =
     seqs [liti ''['', alts [liti ''media'', liti ''attachment''], liti '' attached'',
           Opt (seqs [liti '' '', Plus (Cls isDigit), liti ''/'', Plus (Cls isDigit)]),
           liti '':'', Star (Cls isSpace),
           Cap (Plus (noneOf '']|'')),
           Opt (seqs [Star (Cls isSpace), liti ''('', Plus (noneOf '')''), liti '')'']),
           Opt (seqs [Star (Cls isSpace), liti ''|'', Plus (noneOf '']'')]),
           liti '']'']"

definition SLACK_ATTACHMENT_NAME_TOKEN_RE :: rx where
  "SLACK_ATTACHMENT_NAME_TOKEN_RE =
     seqs [liti ''['',
           alts [liti ''Slack file'', liti ''Forwarded image'', liti ''attached''],
           liti '':'', Star (Cls isSpace), Cap (Plus (noneOf '']'')), liti '']'']"

definition DEFAULT_THREAD_PLACEHOLDERS :: "string list" where
  "DEFAULT_THREAD_PLACEHOLDERS =
     [''new conversation'', ''new thread'', ''new chat'', ''untitled'', ''general'', ''no title'']"

definition MENTION_RE :: rx where
  "MENTION_RE = seqs [lit ''<@'', Plus (noneOf ''>''), lit ''>'']"

definition MESSAGE_ID_RE :: rx where
  "MESSAGE_ID_RE =
     seqs [liti ''['', Star (noneOf '']''), liti ''message id:'', Star (noneOf '']''), liti '']'']"

definition SLACK_THREAD_PREFIX_RE :: rx where
  "SLACK_THREAD_PREFIX_RE = seqs [Bol, liti ''slack thread'', Plus (Cls isSpace)]"

definition LEADING_PUNCTUATION_RE :: rx where
  "LEADING_PUNCTUATION_RE = seqs [Bol, Plus (Cls (\<lambda>c. isSpace c \<or> c \<in> set ''-:;,.!?''))]"

definition TRAILING_PUNCTUATION_RE :: rx where
  "TRAILING_PUNCTUATION_RE = seqs [Plus (oneOf '';:,.!?''), Eol]"

definition quoteChars :: string where
  "quoteChars = [CHR 0x27, CHR 0x22, CHR 0x60]"

definition SURROUNDING_QUOTES_RE :: rx where
  "SURROUNDING_QUOTES_RE =
     Alt (seqs [Bol, Plus (oneOf quoteChars)]) (seqs [Plus (oneOf quoteChars), Eol])"

definition TRAILING_PAREN_RE :: rx where
  "TRAILING_PAREN_RE =
     seqs [Plus (Cls isSpace), lit ''('', Plus (noneOf '')''), lit '')'', Star (Cls isSpace), Eol]"

definition stripTrailingPunctuation :: "string \<Rightarrow> string" where
  "stripTrailingPunctuation v = trim (replaceFirst TRAILING_PUNCTUATION_RE [] v)"

definition pickAttachmentName :: "string \<Rightarrow> string option" where
  "pickAttachmentName v =
     (let trimmed = trim v in
      if trimmed = [] then None
      else
        let head = replaceAll TRAILING_PAREN_RE (\<lambda>_. []) (trim (splitFirst (CHR ''|'') trimmed));
            normalizedPath = replaceAll (lit [CHR 0x5C]) (\<lambda>_. ''/'') head;
            lastPart = trim (splitLast (CHR ''/'') normalizedPath);
            name = (if lastPart = [] then head else lastPart);
            withoutQuotes = trim (replaceAll SURROUNDING_QUOTES_RE (\<lambda>_. []) name);
            candidate = stripTrailingPunctuation withoutQuotes
        in if candidate = [] then None else Some candidate)"

definition decodeXmlEntities :: "string \<Rightarrow> string" where
  "decodeXmlEntities v =
     replaceAll (lit ''&amp;'') (\<lambda>_. ''&'')
       (replaceAll (lit ''&apos;'') (\<lambda>_. [CHR 0x27])
         (replaceAll (lit ''&quot;'') (\<lambda>_. [CHR 0x22])
           (replaceAll (lit ''&gt;'') (\<lambda>_. ''>'')
             (replaceAll (lit ''&lt;'') (\<lambda>_. ''<'') v))))"

definition padName :: "string option \<Rightarrow> string" where
  "padName candidate =
     (case candidate of
        None \<Rightarrow> '' ''
      | Some c \<Rightarrow> if c = [] then '' '' else '' '' @ c @ '' '')"

definition fileTagName :: "string option \<Rightarrow> string" where
  "fileTagName g =
     (let decoded = decodeXmlEntities (case g of None \<Rightarrow> [] | Some n \<Rightarrow> n) in
      padName (case pickAttachmentName decoded of
                 None \<Rightarrow> Some (trim decoded)
               | Some c \<Rightarrow> Some c))"

definition attachmentName :: "string option \<Rightarrow> string" where
  "attachmentName g = padName (pickAttachmentName (case g of None \<Rightarrow> [] | Some n \<Rightarrow> n))"

definition normalizeAttachmentTokens :: "string \<Rightarrow> string" where
  "normalizeAttachmentTokens v =
     (let trimmed = trim v in
      if trimmed = [] then []
      else if rx_test STICKER_PLACEHOLDER_RE trimmed then []
      else
        trim
         (replaceAll WHITESPACE_RUN (\<lambda>_. '' '')
          (replaceAll SLACK_ATTACHMENT_PLACEHOLDER_TOKEN_RE (\<lambda>_. '' '')
           (replaceAll ATTACHMENT_PLACEHOLDER_TOKEN_RE (\<lambda>_. '' '')
            (replaceAll SLACK_ATTACHMENT_NAME_TOKEN_RE attachmentName
             (replaceAll ATTACHMENT_NOTE_ENTRY_RE attachmentName
              (replaceAll ATTACHMENT_NOTE_HEADER_RE (\<lambda>_. '' '')
               (replaceAll ATTACHMENT_SECTION_LABEL_RE (\<lambda>_. '' '')
                (replaceAll ATTACHMENT_SECTION_TOKEN_RE (\<lambda>_. '' '')
                 (replaceAll FILE_CLOSE_TAG_RE (\<lambda>_. '' '')
                  (replaceAll FILE_OPEN_TAG_RE fileTagName trimmed)))))))))))"

text \<open>The second listing of the title module strips the two placeholder patterns only.\<close>

definition stripMediaPlaceholderTokens :: "string \<Rightarrow> string" where
  "stripMediaPlaceholderTokens v =
     (let trimmed = trim v in
      if trimmed = [] then []
      else if rx_test STICKER_PLACEHOLDER_RE trimmed then []
      else
        trim
         (replaceAll WHITESPACE_RUN (\<lambda>_. '' '')
          (replaceAll SLACK_ATTACHMENT_PLACEHOLDER_TOKEN_RE (\<lambda>_. '' '')
           (replaceAll ATTACHMENT_PLACEHOLDER_TOKEN_RE (\<lambda>_. '' '') trimmed))))"

text \<open>
  The body of the loop of \<open>deriveConversationTitle\<close> over one source, in two parts;
  \<open>None\<close> is \<open>continue\<close>. The first part cleans the source up to the second removal of
  trailing punctuation. The second part rejects an empty title and a control command, cuts
  the title to \<open>maxChars\<close>, and rejects a title shorter than three characters. The function
  \<open>isControlCommandMessage\<close> belongs to another module and is a parameter, as is the
  function that removes the attachment tokens, in which the two listings differ.
\<close>

definition candidateFromSource :: "(string \<Rightarrow> string) \<Rightarrow> string option \<Rightarrow> string option" where
  "candidateFromSource stripTokens source =
     (case source of
        None \<Rightarrow> None
      | Some src \<Rightarrow>
          if trim src = [] then None
          else
            let title0 =
                  trim (replaceAll WHITESPACE_RUN (\<lambda>_. '' '')
                         (replaceAll MESSAGE_ID_RE (\<lambda>_. '' '')
                           (replaceAll MENTION_RE (\<lambda>_. '' '') src)))
            in if title0 = [] then None
               else if rx_test SLASH_COMMAND_RE title0 then None
               else
                 let title1 = replaceFirst SLACK_THREAD_PREFIX_RE [] title0;
                     title2 = trim (replaceFirst LEADING_PUNCTUATION_RE [] title1)
                 in if title2 = [] \<or> rx_test LOW_SIGNAL_RE title2 then None
                    else Some (stripTrailingPunctuation (stripTokens title2)))"

definition titleFromSource ::
  "(string \<Rightarrow> string) \<Rightarrow> (string \<Rightarrow> bool) \<Rightarrow> nat \<Rightarrow> string option \<Rightarrow> string option" where
  "titleFromSource stripTokens isControlCommandMessage maxChars source =
     (case candidateFromSource stripTokens source of
        None \<Rightarrow> None
      | Some title4 \<Rightarrow>
          if title4 = [] \<or> isControlCommandMessage title4 then None
          else
            let title5 = (if length title4 > maxChars
                          then trim (take maxChars title4) else title4);
                title6 = stripTrailingPunctuation title5
            in if length title6 < 3 then None else Some title6)"

definition deriveWith ::
  "(string \<Rightarrow> string) \<Rightarrow> (string \<Rightarrow> bool) \<Rightarrow> string option \<Rightarrow> string option \<Rightarrow> int \<Rightarrow>
   string option" where
  "deriveWith stripTokens isControlCommandMessage primaryText fallbackText maxChars =
     (let m = nat (max 1 maxChars) in
      case titleFromSource stripTokens isControlCommandMessage m primaryText of
        Some t \<Rightarrow> Some t
      | None \<Rightarrow> titleFromSource stripTokens isControlCommandMessage m fallbackText)"

definition deriveConversationTitle ::
  "(string \<Rightarrow> bool) \<Rightarrow> string option \<Rightarrow> string option \<Rightarrow> int \<Rightarrow> string option" where
  "deriveConversationTitle = deriveWith normalizeAttachmentTokens"

definition deriveConversationTitle2 ::
  "(string \<Rightarrow> bool) \<Rightarrow> string option \<Rightarrow> string option \<Rightarrow> int \<Rightarrow> string option" where
  "deriveConversationTitle2 = deriveWith stripMediaPlaceholderTokens"

definition isDefaultThreadPlaceholder :: "string option \<Rightarrow> bool" where
  "isDefaultThreadPlaceholder v =
     (case v of
        None \<Rightarrow> True
      | Some s \<Rightarrow> if s = [] then True else toLowerCase (trim s) \<in> set DEFAULT_THREAD_PLACEHOLDERS)"

section \<open>The title-application engine\<close>

datatype ThreadTitleErrorClass = Permission | RateLimit | NotFound | Unknown

datatype ThreadTitleStatus = Pending | Applied | Disabled | RetryAfter

text \<open>
  Clock readings are epoch milliseconds: integers. The delay that a provider's
  \<open>retryAfterMs\<close> returns is any number of the host, and so is the retry time computed from
  it: a finite number, one of the two infinities, or \<open>NaN\<close>. A finite number is kept as the
  rational it is; the host rounds a sum to the nearest number it has, which is left out.
  \<open>Math.max\<close>, \<open>+\<close> and \<open>>\<close> on these numbers are the host's: \<open>NaN\<close> is contagious in the
  first two and makes every comparison false, and the sum of the two infinities is \<open>NaN\<close>.
\<close>

datatype number = Finite rat | PosInfinity | NegInfinity | NaN

fun numMax :: "number \<Rightarrow> number \<Rightarrow> number" where
  "numMax NaN y = NaN"
| "numMax x NaN = NaN"
| "numMax PosInfinity y = PosInfinity"
| "numMax x PosInfinity = PosInfinity"
| "numMax NegInfinity y = y"
| "numMax x NegInfinity = x"
| "numMax (Finite a) (Finite b) = Finite (max a b)"

fun numAdd :: "number \<Rightarrow> number \<Rightarrow> number" where
  "numAdd NaN y = NaN"
| "numAdd x NaN = NaN"
| "numAdd PosInfinity NegInfinity = NaN"
| "numAdd NegInfinity PosInfinity = NaN"
| "numAdd PosInfinity y = PosInfinity"
| "numAdd x PosInfinity = PosInfinity"
| "numAdd NegInfinity y = NegInfinity"
| "numAdd x NegInfinity = NegInfinity"
| "numAdd (Finite a) (Finite b) = Finite (a + b)"

fun numGreater :: "number \<Rightarrow> number \<Rightarrow> bool" where
  "numGreater NaN y = False"
| "numGreater x NaN = False"
| "numGreater x PosInfinity = False"
| "numGreater PosInfinity y = True"
| "numGreater NegInfinity y = False"
| "numGreater x NegInfinity = True"
| "numGreater (Finite a) (Finite b) = (a > b)"

text \<open>
  The state of a thread. The engine below and the rename manager each have a state type of
  their own with the same members; \<open>'n\<close> is the type of the retry time, a \<open>number\<close> in the
  engine, where it comes from the provider's delay.
\<close>

record 'n ThreadTitleStateOf =
  threadKey :: string
  status :: ThreadTitleStatus
  attempts :: "int option"
  lastAttemptAt :: "int option"
  appliedAt :: "int option"
  appliedTitle :: "string option"
  lastProposedTitle :: "string option"
  retryAfter :: "'n option"
  lastErrorClass :: "ThreadTitleErrorClass option"

type_synonym ThreadTitleState = "number ThreadTitleStateOf"

text \<open>
  A thread id is a string or a number, and the source reads it through \<open>String(threadId)\<close>
  only: the identity on a string, the host's notation on a number. A number that the source
  only prints is kept as the text the host prints for it (\<open>42\<close>, \<open>1.5\<close>, \<open>1e+21\<close>, \<open>NaN\<close>), so
  that every number has its own notation.
\<close>

type_synonym numberText = string

datatype ThreadIdValue = IdString string | IdNumber numberText

record ThreadTitleTarget =
  channel :: string
  accountId :: "string option"
  conversationId :: "string option"
  threadId :: "ThreadIdValue option"
  toField :: "string option"

text \<open>
  A provider: a promise that rejects is the error it rejects with. \<open>setTitle\<close> returns
  \<open>None\<close> when it resolves; \<open>getCurrentTitle\<close> returns \<open>Inl\<close> when it rejects. The
  optional members are \<open>None\<close> when the provider does not define them.
\<close>

record 'e ThreadTitleProvider =
  providerChannel :: string
  resolveThreadKey :: "(ThreadTitleTarget \<Rightarrow> string option) option"
  getCurrentTitle :: "(ThreadTitleTarget \<Rightarrow> 'e + string option) option"
  setTitle :: "ThreadTitleTarget \<Rightarrow> string \<Rightarrow> 'e option"
  classifyError :: "('e \<Rightarrow> ThreadTitleErrorClass) option"
  retryAfterMs :: "('e \<Rightarrow> ThreadTitleErrorClass \<Rightarrow> number option) option"

datatype ThreadTitleOutcome = OutcomeApplied | OutcomeSkipped | OutcomeFailed

record ThreadTitleResult =
  outcome :: ThreadTitleOutcome
  reason :: string
  title :: "string option"
  resultThreadKey :: "string option"
  errorClass :: "ThreadTitleErrorClass option"

text \<open>The calls made on the provider during one run, in order.\<close>

datatype ProviderCall =
    CallGetCurrentTitle ThreadTitleTarget
  | CallSetTitle ThreadTitleTarget string

fun isSetTitleCall :: "ProviderCall \<Rightarrow> bool" where
  "isSetTitleCall (CallSetTitle _ _) = True"
| "isSetTitleCall (CallGetCurrentTitle _) = False"

definition setTitleCalls :: "ProviderCall list \<Rightarrow> nat" where
  "setTitleCalls calls = length (filter isSetTitleCall calls)"

definition DEFAULT_MAX_ENTRIES :: int where
  "DEFAULT_MAX_ENTRIES = 5000"

text \<open>\<open>String(threadId)\<close>.\<close>

definition threadIdToString :: "ThreadIdValue \<Rightarrow> string" where
  "threadIdToString v = (case v of IdString s \<Rightarrow> s | IdNumber notation \<Rightarrow> notation)"

definition resolveDefaultThreadKey :: "ThreadTitleTarget \<Rightarrow> string option" where
  "resolveDefaultThreadKey target =
     (let ch = toLowerCase (trim (channel target));
          conv = (case conversationId target of
                    Some c \<Rightarrow> trim c
                  | None \<Rightarrow> (case toField target of Some t \<Rightarrow> trim t | None \<Rightarrow> []));
          tid = (case threadId target of Some v \<Rightarrow> trim (threadIdToString v) | None \<Rightarrow> [])
      in if ch = [] \<or> conv = [] \<or> tid = [] then None
         else Some (ch @ '':'' @ conv @ '':'' @ tid))"

text \<open>
  The in-memory store: the entries of the map in insertion order, oldest first, and the
  bound of \<open>createInMemoryThreadTitleStateStore\<close>. \<open>set\<close> deletes the key, appends it, and
  then drops oldest entries while there are more than \<open>maxEntries\<close> (stopping at an empty
  oldest key, as the source does).
\<close>

record ThreadTitleStateStore =
  stateMap :: "(string \<times> ThreadTitleState) list"
  maxEntries :: int

definition createInMemoryThreadTitleStateStore :: "int \<Rightarrow> ThreadTitleStateStore" where
  "createInMemoryThreadTitleStateStore m = \<lparr>stateMap = [], maxEntries = m\<rparr>"

fun evictOldest :: "int \<Rightarrow> (string \<times> ThreadTitleState) list \<Rightarrow> (string \<times> ThreadTitleState) list" where
  "evictOldest m [] = []"
| "evictOldest m (e # es) =
     (if int (length (e # es)) > m
      then (if fst e = [] then e # es else evictOldest m es)
      else e # es)"

definition storeGet :: "ThreadTitleStateStore \<Rightarrow> string \<Rightarrow> ThreadTitleState option" where
  "storeGet store k = map_of (stateMap store) k"

definition storeSet ::
  "ThreadTitleStateStore \<Rightarrow> string \<Rightarrow> ThreadTitleState \<Rightarrow> ThreadTitleStateStore" where
  "storeSet store k s =
     store\<lparr>stateMap :=
       evictOldest (maxEntries store) (filter (\<lambda>e. fst e \<noteq> k) (stateMap store) @ [(k, s)])\<rparr>"

definition setStoreState :: "ThreadTitleStateStore \<Rightarrow> ThreadTitleState \<Rightarrow> ThreadTitleStateStore" where
  "setStoreState store s = (if threadKey s = [] then store else storeSet store (threadKey s) s)"

definition skipped :: "string \<Rightarrow> string option \<Rightarrow> ThreadTitleResult" where
  "skipped why k =
     \<lparr>outcome = OutcomeSkipped, reason = why, title = None, resultThreadKey = k,
      errorClass = None\<rparr>"

text \<open>The state written before any call on the provider.\<close>

definition baseStateOf ::
  "string \<Rightarrow> int \<Rightarrow> string \<Rightarrow> ThreadTitleState option \<Rightarrow> ThreadTitleState" where
  "baseStateOf k now t existing =
     \<lparr>threadKey = k, status = Pending,
      attempts = Some ((case Option.bind existing attempts of None \<Rightarrow> 0 | Some a \<Rightarrow> a) + 1),
      lastAttemptAt = Some now,
      appliedAt = Option.bind existing appliedAt,
      appliedTitle = Option.bind existing appliedTitle,
      lastProposedTitle = Some t,
      retryAfter = Option.bind existing retryAfter,
      lastErrorClass = Option.bind existing lastErrorClass\<rparr>"

text \<open>The provider's thread key, or the default one when the provider defines none.\<close>

definition threadKeyFor :: "'e ThreadTitleProvider \<Rightarrow> ThreadTitleTarget \<Rightarrow> string option" where
  "threadKeyFor provider target =
     (case resolveThreadKey provider of
        None \<Rightarrow> resolveDefaultThreadKey target
      | Some f \<Rightarrow> f target)"

text \<open>The class of a rejection, and the delay before the next attempt.\<close>

definition errorClassOf :: "'e ThreadTitleProvider \<Rightarrow> 'e \<Rightarrow> ThreadTitleErrorClass" where
  "errorClassOf provider err =
     (case classifyError provider of None \<Rightarrow> Unknown | Some f \<Rightarrow> f err)"

definition retryDelayOf :: "'e ThreadTitleProvider \<Rightarrow> 'e \<Rightarrow> ThreadTitleErrorClass \<Rightarrow> number" where
  "retryDelayOf provider err cls =
     (case (case retryAfterMs provider of None \<Rightarrow> None | Some f \<Rightarrow> f err cls) of
        Some d \<Rightarrow> d
      | None \<Rightarrow> if cls = RateLimit then Finite 60000 else Finite 15000)"

text \<open>The \<open>try\<close> around \<open>setTitle\<close> and its \<open>catch\<close>.\<close>

definition trySetTitle ::
  "'e ThreadTitleProvider \<Rightarrow> ThreadTitleTarget \<Rightarrow> string \<Rightarrow> string \<Rightarrow> int \<Rightarrow>
   ThreadTitleState \<Rightarrow> ThreadTitleStateStore \<Rightarrow> ThreadTitleResult \<times> ThreadTitleStateStore" where
  "trySetTitle provider target k t now baseState store =
     (case setTitle provider target t of
        None \<Rightarrow>
          (\<lparr>outcome = OutcomeApplied, reason = ''applied'', title = Some t,
            resultThreadKey = Some k, errorClass = None\<rparr>,
           setStoreState store
             (baseState\<lparr>status := Applied, appliedAt := Some now, appliedTitle := Some t,
                        retryAfter := None, lastErrorClass := None\<rparr>))
      | Some err \<Rightarrow>
          let cls = errorClassOf provider err;
              delay = retryDelayOf provider err cls
          in (\<lparr>outcome = OutcomeFailed, reason = ''set_title_failed'', title = Some t,
               resultThreadKey = Some k, errorClass = Some cls\<rparr>,
              if cls = Permission \<or> cls = NotFound
              then setStoreState store (baseState\<lparr>status := Disabled, lastErrorClass := Some cls\<rparr>)
              else setStoreState store
                     (baseState\<lparr>status := RetryAfter,
                                retryAfter := Some (numAdd (Finite (of_int now)) (numMax (Finite 1000) delay)),
                                lastErrorClass := Some cls\<rparr>)))"

text \<open>
  The attempt, once a title is at hand: the pending state is written, the current title
  is probed when the provider can read it (a probe that rejects is ignored), and the title
  is set.
\<close>

definition attemptTitle ::
  "'e ThreadTitleProvider \<Rightarrow> ThreadTitleTarget \<Rightarrow> string \<Rightarrow> string \<Rightarrow> int \<Rightarrow>
   ThreadTitleState option \<Rightarrow> ThreadTitleStateStore \<Rightarrow>
   ThreadTitleResult \<times> ThreadTitleStateStore \<times> ProviderCall list" where
  "attemptTitle provider target k t now existing store =
     (let baseState = baseStateOf k now t existing;
          store1 = setStoreState store baseState;
          probe = (case getCurrentTitle provider of
                     None \<Rightarrow> None
                   | Some g \<Rightarrow> Some (g target));
          probeCalls = (case probe of
                          None \<Rightarrow> []
                        | Some _ \<Rightarrow> [CallGetCurrentTitle target]);
          existingTitle = (case probe of
                             Some (Inr (Some current)) \<Rightarrow>
                               (if current \<noteq> [] \<and> \<not> isDefaultThreadPlaceholder (Some current)
                                then Some current else None)
                           | _ \<Rightarrow> None)
      in (case existingTitle of
            Some current \<Rightarrow>
              (skipped ''existing_title_present'' (Some k),
               setStoreState store1
                 (baseState\<lparr>status := Disabled, appliedAt := Some now,
                            appliedTitle := Some current\<rparr>),
               probeCalls)
          | None \<Rightarrow>
              (let (res, store2) = trySetTitle provider target k t now baseState store1
               in (res, store2, probeCalls @ [CallSetTitle target t]))))"

text \<open>
  \<open>applyThreadTitle\<close>: the clock reading \<open>now\<close> and the store are arguments, and the
  result carries the store after the run and the calls made on the provider. The title
  comes from the first listing of the title module, which is the one that exports
  \<open>isDefaultThreadPlaceholder\<close>.
\<close>

definition applyThreadTitle ::
  "(string \<Rightarrow> bool) \<Rightarrow> 'e ThreadTitleProvider \<Rightarrow> ThreadTitleTarget \<Rightarrow> string option \<Rightarrow>
   string option \<Rightarrow> int \<Rightarrow> int \<Rightarrow> ThreadTitleStateStore \<Rightarrow>
   ThreadTitleResult \<times> ThreadTitleStateStore \<times> ProviderCall list" where
  "applyThreadTitle isControlCommandMessage provider target primaryText fallbackText maxChars
     now store =
     (let ch = toLowerCase (trim (channel target));
          pch = toLowerCase (trim (providerChannel provider))
      in if ch = [] \<or> ch \<noteq> pch then (skipped ''provider_mismatch'' None, store, [])
      else
        (case threadKeyFor provider target of
           None \<Rightarrow> (skipped ''unsupported_target'' None, store, [])
         | Some k \<Rightarrow>
             (if k = [] then (skipped ''unsupported_target'' None, store, [])
              else
                (let existing = storeGet store k in
                 if map_option status existing = Some Disabled
                 then (skipped ''disabled'' (Some k), store, [])
                 else if map_option status existing = Some RetryAfter \<and>
                         (case Option.bind existing retryAfter of
                            Some r \<Rightarrow> numGreater r (Finite (of_int now))
                          | None \<Rightarrow> False)
                 then (skipped ''cooldown'' (Some k), store, [])
                 else if map_option status existing = Some Applied
                 then (skipped ''already_applied'' (Some k), store, [])
                 else
                   (case deriveConversationTitle isControlCommandMessage primaryText
                           fallbackText maxChars of
                      None \<Rightarrow> (skipped ''no_candidate'' (Some k), store, [])
                    | Some t \<Rightarrow>
                        (if t = [] then (skipped ''no_candidate'' (Some k), store, [])
                         else attemptTitle provider target k t now existing store))))))"

section \<open>The session-store rename manager\<close>

text \<open>
  The manager keeps one state per session entry, with the members of the state above. Its
  retry time is a clock reading plus one of the delays below: an integer.
\<close>

type_synonym NativeThreadTitleState = "int ThreadTitleStateOf"

definition RATE_LIMIT_RETRY_MS :: int where
  "RATE_LIMIT_RETRY_MS = 5 * 60000"

definition NOT_FOUND_RETRY_MS :: int where
  "NOT_FOUND_RETRY_MS = 30 * 60000"

definition PENDING_LEASE_MS :: int where
  "PENDING_LEASE_MS = 60000"

definition resolveRetryDelayMs :: "ThreadTitleErrorClass \<Rightarrow> int \<Rightarrow> int" where
  "resolveRetryDelayMs cls n =
     (if cls = Permission then 0
      else if cls = RateLimit then RATE_LIMIT_RETRY_MS
      else if cls = NotFound then NOT_FOUND_RETRY_MS
      else min (60000 * 2 ^ nat (max 0 (n - 1))) (60 * 60000))"

text \<open>
  The \<open>update\<close> callback of \<open>markRenameAttempt\<close> on the entry's state: \<open>None\<close> is the
  callback's \<open>null\<close> (no change), \<open>Some s\<close> the state it writes.
\<close>

definition markRenameAttemptUpdate ::
  "string \<Rightarrow> string \<Rightarrow> int \<Rightarrow> NativeThreadTitleState option \<Rightarrow> NativeThreadTitleState option" where
  "markRenameAttemptUpdate k t now state =
     (let same = (case state of None \<Rightarrow> False | Some s \<Rightarrow> threadKey s = k);
          blocked =
            (case state of
               None \<Rightarrow> False
             | Some s \<Rightarrow>
                 same \<and>
                 (status s = Disabled \<or> status s = Applied \<or>
                  ((case retryAfter s of None \<Rightarrow> False | Some r \<Rightarrow> r \<noteq> 0 \<and> r > now) \<and>
                   \<not> (status s = RetryAfter \<and> lastErrorClass s = Some Unknown \<and>
                      lastProposedTitle s \<noteq> Some t)) \<or>
                  (status s = Pending \<and>
                   (case lastAttemptAt s of
                      None \<Rightarrow> False
                    | Some a \<Rightarrow> a \<noteq> 0 \<and> now - a < PENDING_LEASE_MS))))
      in if blocked then None
         else
           let n = (case (if same then Option.bind state attempts else Some 0) of
                      None \<Rightarrow> 0
                    | Some a \<Rightarrow> a)
           in Some \<lparr>threadKey = k, status = Pending, attempts = Some (n + 1),
                    lastAttemptAt = Some now, appliedAt = None, appliedTitle = None,
                    lastProposedTitle = Some t, retryAfter = None, lastErrorClass = None\<rparr>)"

text \<open>
  Modelled from the spec: \<open>updateSessionStoreEntry\<close>, of the session store, is not part
  of the sources at hand. The spec says that an entry is read, modified and written
  atomically; the entry after the update is the entry with the callback's patch, or the
  entry as it was when the callback returns \<open>null\<close>.
\<close>

definition updateSessionStoreEntry ::
  "(NativeThreadTitleState option \<Rightarrow> NativeThreadTitleState option) \<Rightarrow>
   NativeThreadTitleState option \<Rightarrow> NativeThreadTitleState option" where
  "updateSessionStoreEntry update entry =
     (case update entry of None \<Rightarrow> entry | Some s \<Rightarrow> Some s)"

record RenameAttempt =
  shouldApply :: bool
  attemptNumber :: int

text \<open>
  \<open>markRenameAttempt\<close>: the result and the entry's state after it. Without a session key
  nothing is read or written.
\<close>

definition markRenameAttempt ::
  "string option \<Rightarrow> string \<Rightarrow> string \<Rightarrow> int \<Rightarrow> NativeThreadTitleState option \<Rightarrow>
   RenameAttempt \<times> NativeThreadTitleState option" where
  "markRenameAttempt sessionKey k t now entry =
     (if sessionKey = None \<or> sessionKey = Some [] then
        (\<lparr>shouldApply = True, attemptNumber = 1\<rparr>, entry)
      else
        let updated = updateSessionStoreEntry (markRenameAttemptUpdate k t now) entry in
        case updated of
          None \<Rightarrow> (\<lparr>shouldApply = False, attemptNumber = 0\<rparr>, updated)
        | Some s \<Rightarrow>
            if threadKey s \<noteq> k \<or> status s \<noteq> Pending
            then (\<lparr>shouldApply = False,
                   attemptNumber = (case attempts s of None \<Rightarrow> 0 | Some a \<Rightarrow> a)\<rparr>, updated)
            else (\<lparr>shouldApply = True,
                   attemptNumber = (case attempts s of None \<Rightarrow> 1 | Some a \<Rightarrow> a)\<rparr>, updated))"

text \<open>
  The \<open>update\<close> callback of \<open>markRenameResult\<close>. The source reads the clock once for
  \<open>lastAttemptAt\<close> and once more for \<open>appliedAt\<close> or \<open>retryAfter\<close>: \<open>t1\<close> and \<open>t2\<close>.
\<close>

definition markRenameResultUpdate ::
  "string \<Rightarrow> string \<Rightarrow> int \<Rightarrow> ThreadTitleErrorClass option \<Rightarrow> int \<Rightarrow> int \<Rightarrow>
   NativeThreadTitleState option \<Rightarrow> NativeThreadTitleState option" where
  "markRenameResultUpdate k t n cls t1 t2 state =
     (case state of
        None \<Rightarrow> None
      | Some s \<Rightarrow>
          if threadKey s \<noteq> k then None
          else
            (case cls of
               None \<Rightarrow>
                 Some \<lparr>threadKey = k, status = Applied, attempts = Some n,
                       lastAttemptAt = Some t1, appliedAt = Some t2, appliedTitle = Some t,
                       lastProposedTitle = Some t, retryAfter = None, lastErrorClass = None\<rparr>
             | Some c \<Rightarrow>
                 (if c = Permission
                  then Some (s\<lparr>status := Disabled, attempts := Some n, lastAttemptAt := Some t1,
                               lastErrorClass := Some c\<rparr>)
                  else Some (s\<lparr>status := RetryAfter, attempts := Some n,
                               lastAttemptAt := Some t1, lastErrorClass := Some c,
                               retryAfter := Some (t2 + resolveRetryDelayMs c n)\<rparr>))))"

definition markRenameResult ::
  "string option \<Rightarrow> string \<Rightarrow> string \<Rightarrow> int \<Rightarrow> ThreadTitleErrorClass option \<Rightarrow> int \<Rightarrow> int \<Rightarrow>
   NativeThreadTitleState option \<Rightarrow> NativeThreadTitleState option" where
  "markRenameResult sessionKey k t n cls t1 t2 entry =
     (if sessionKey = None \<or> sessionKey = Some [] then entry
      else updateSessionStoreEntry (markRenameResultUpdate k t n cls t1 t2) entry)"

section \<open>The LLM title generator\<close>

text \<open>
  What a rejected promise or a \<open>throw\<close> carries: a \<open>TypeError\<close> of the function's own
  code, or whatever an outside call rejects with.
\<close>

datatype 'x Thrown = TypeError | External 'x

fun includesStr :: "string \<Rightarrow> string \<Rightarrow> bool" where
  "includesStr [] needle = (needle = [])"
| "includesStr (c # cs) needle =
     (take (length needle) (c # cs) = needle \<or> includesStr cs needle)"

definition normalizeThreadTitleModelRef :: "string option \<Rightarrow> string option" where
  "normalizeThreadTitleModelRef raw =
     (case raw of
        None \<Rightarrow> None
      | Some r \<Rightarrow>
          let trimmed = trim r in
          if trimmed = [] then None
          else if includesStr trimmed ''/'' then Some trimmed
          else if includesStr (toLowerCase trimmed) ''gemini'' then Some (''google/'' @ trimmed)
          else if includesStr (toLowerCase trimmed) ''claude'' then Some (''anthropic/'' @ trimmed)
          else Some trimmed)"

text \<open>\<open>raw.split(/\r?\n/)\<close>.\<close>

fun splitLines :: "string \<Rightarrow> string list" where
  "splitLines [] = [[]]"
| "splitLines (c # cs) =
     (if c = CHR 0x0A then [] # splitLines cs
      else if c = CHR 0x0D \<and> cs \<noteq> [] \<and> hd cs = CHR 0x0A then [] # splitLines (tl cs)
      else (case splitLines cs of [] \<Rightarrow> [[c]] | l # ls \<Rightarrow> (c # l) # ls))"

definition MARKDOWN_HEADER_RE :: rx where
  "MARKDOWN_HEADER_RE = seqs [Bol, Plus (lit ''#''), Star (Cls isSpace)]"

definition sanitizeLlmTitleCandidate :: "string \<Rightarrow> string option" where
  "sanitizeLlmTitleCandidate raw =
     (case find (\<lambda>l. l \<noteq> []) (map trim (splitLines raw)) of
        None \<Rightarrow> None
      | Some firstLine \<Rightarrow>
          let cleaned =
                trim (replaceAll WHITESPACE_RUN (\<lambda>_. '' '')
                       (replaceAll SURROUNDING_QUOTES_RE (\<lambda>_. [])
                         (replaceFirst MARKDOWN_HEADER_RE [] firstLine)))
          in if cleaned = [] then None else Some cleaned)"

text \<open>
  The parts of the configuration the generator reads: the default model of the agents
  (a string, or an object with an optional \<open>primary\<close>), and the two places of a configured
  environment variable.
\<close>

datatype ModelSetting = ModelName string | ModelObject "string option"

record OpenClawConfig =
  defaultModel :: "ModelSetting option"
  envVars :: "string \<Rightarrow> string option"
  envSugar :: "string \<Rightarrow> string option"

definition resolveConfigEnvVar :: "OpenClawConfig \<Rightarrow> string \<Rightarrow> string option" where
  "resolveConfigEnvVar cfg key =
     (case envVars cfg key of
        Some v \<Rightarrow>
          (if trim v \<noteq> [] then Some v
           else (case envSugar cfg key of
                   Some w \<Rightarrow> (if trim w \<noteq> [] then Some w else None)
                 | None \<Rightarrow> None))
      | None \<Rightarrow>
          (case envSugar cfg key of
             Some w \<Rightarrow> (if trim w \<noteq> [] then Some w else None)
           | None \<Rightarrow> None))"

definition resolveThreadTitleEnvValue ::
  "OpenClawConfig option \<Rightarrow> (string \<Rightarrow> string option) \<Rightarrow> string \<Rightarrow> string option" where
  "resolveThreadTitleEnvValue cfg env key =
     (case Option.bind cfg (\<lambda>c. resolveConfigEnvVar c key) of
        Some v \<Rightarrow> (if v \<noteq> [] then Some v
                   else (case env key of
                           Some w \<Rightarrow> (if trim w \<noteq> [] then Some w else None)
                         | None \<Rightarrow> None))
      | None \<Rightarrow>
          (case env key of
             Some w \<Rightarrow> (if trim w \<noteq> [] then Some w else None)
           | None \<Rightarrow> None))"

definition resolveGoogleApiKey ::
  "OpenClawConfig option \<Rightarrow> (string \<Rightarrow> string option) \<Rightarrow> string option" where
  "resolveGoogleApiKey cfg env =
     (case resolveThreadTitleEnvValue cfg env ''GEMINI_API_KEY'' of
        Some k \<Rightarrow> Some k
      | None \<Rightarrow> resolveThreadTitleEnvValue cfg env ''GOOGLE_API_KEY'')"

definition resolveAnthropicApiKey ::
  "OpenClawConfig option \<Rightarrow> (string \<Rightarrow> string option) \<Rightarrow> string option" where
  "resolveAnthropicApiKey cfg env = resolveThreadTitleEnvValue cfg env ''ANTHROPIC_API_KEY''"

definition SUPPORTED_PROVIDERS :: "string list" where
  "SUPPORTED_PROVIDERS = [''google'', ''anthropic'']"

text \<open>
  The prompt. The generator only prints \<open>maxChars\<close>, in a template literal: it is the text
  of the number.
\<close>

definition quoted :: "string \<Rightarrow> string" where
  "quoted s = [CHR 0x22] @ s @ [CHR 0x22]"

definition promptExample :: "string \<Rightarrow> string \<Rightarrow> string" where
  "promptExample request name = quoted request @ '' -> '' @ quoted name"

fun joinWith :: "string \<Rightarrow> string list \<Rightarrow> string" where
  "joinWith sep [] = []"
| "joinWith sep [l] = l"
| "joinWith sep (l # m # ls) = l @ sep @ joinWith sep (m # ls)"

definition buildTitlePrompt :: "numberText \<Rightarrow> string \<Rightarrow> string" where
  "buildTitlePrompt maxChars sourceText =
     joinWith [CHR 0x0A]
       [''Name a chat topic in 13-'' @ maxChars @
          '' chars. Title case. Output ONLY the name.'',
        ''Capture the action and subject. Never abbreviate words except: API, CLI, DB, TG, CI, UI.'',
        [],
        promptExample ''turn on the living room lights'' ''Turn On Lights'',
        promptExample ''can you check my recent emails'' ''Check Emails'',
        promptExample ''the deploy pipeline is broken'' ''Fix Deploy'',
        promptExample ''how should i configure nginx'' ''Config Nginx'',
        promptExample ''send a message to the team'' ''Team Message'',
        promptExample ''why does the icon look wrong'' ''Fix Icon'',
        promptExample ''start the migration to v2'' ''Migrate To V2'',
        promptExample ''cleanup after testing'' ''Cleanup Testing'',
        promptExample ''help me write a blog post'' ''Write Blog Post'',
        promptExample ''what is the weather today'' ''Weather Today'',
        [],
        sourceText]"

text \<open>
  The part both listings run before any outside call: the texts, the model reference and
  the source text. \<open>parseModelRef\<close> belongs to another module and is a parameter; it
  returns the provider and the model. \<open>Inl ()\<close> is the early \<open>return undefined\<close>.
\<close>

definition sourceTextOf :: "string option \<Rightarrow> string option \<Rightarrow> string" where
  "sourceTextOf primaryText fallbackText =
     take 6000
       (joinWith [CHR 0x0A, CHR 0x0A]
          (filter (\<lambda>e. e \<noteq> [])
             (map (\<lambda>e. case e of None \<Rightarrow> [] | Some v \<Rightarrow> trim v) [primaryText, fallbackText])))"

definition resolveGeneratorModel ::
  "(string \<Rightarrow> string \<Rightarrow> (string \<times> string) option) \<Rightarrow> OpenClawConfig \<Rightarrow> string option \<Rightarrow>
   string option \<Rightarrow> string option \<Rightarrow> (string \<times> string) option" where
  "resolveGeneratorModel parseModelRef cfg primaryText fallbackText modelRef =
     (let primary = map_option trim primaryText;
          fallback = map_option trim fallbackText
      in if (primary = None \<or> primary = Some []) \<and> (fallback = None \<or> fallback = Some [])
         then None
         else
           let defaultModelRef = (case defaultModel cfg of
                                    None \<Rightarrow> None
                                  | Some (ModelName m) \<Rightarrow> Some m
                                  | Some (ModelObject m) \<Rightarrow> m);
               configuredModelRef = (case normalizeThreadTitleModelRef modelRef of
                                       Some r \<Rightarrow> Some r
                                     | None \<Rightarrow> normalizeThreadTitleModelRef defaultModelRef)
           in case configuredModelRef of
                None \<Rightarrow> None
              | Some r \<Rightarrow>
                  (if r = [] then None
                   else (case parseModelRef r ''anthropic'' of
                           None \<Rightarrow> None
                         | Some (prov, model) \<Rightarrow>
                             (if prov \<in> set SUPPORTED_PROVIDERS then Some (prov, model)
                              else None))))"

text \<open>
  The first listing runs an embedded agent. Its outside calls, each of which may reject:
  the temporary directory, the three lookups of the agent, and the run itself, whose
  result has an optional list of payloads.
\<close>

record AgentPayload =
  payloadText :: "string option"
  payloadIsError :: bool

record 'x AgentEnv =
  mkdtemp :: "'x + string"
  resolveAgentPaths :: "'x + unit"
  runEmbeddedPiAgent ::
    "string \<Rightarrow> string \<Rightarrow> string \<Rightarrow> int \<Rightarrow> 'x + AgentPayload list option"

definition DEFAULT_TIMEOUT_MS :: int where
  "DEFAULT_TIMEOUT_MS = 12000"

definition agentRawText :: "AgentPayload list option \<Rightarrow> string" where
  "agentRawText payloads =
     (case payloads of
        None \<Rightarrow> []
      | Some ps \<Rightarrow>
          (case find (\<lambda>t. t \<noteq> None \<and> t \<noteq> Some [])
                  (map (\<lambda>p. map_option trim (payloadText p))
                     (filter (\<lambda>p. \<not> payloadIsError p) ps)) of
             Some (Some t) \<Rightarrow> t
           | _ \<Rightarrow> []))"

text \<open>The body of the \<open>try\<close> block: \<open>Inl\<close> is a throw or a rejection inside it.\<close>

definition agentTitleBody ::
  "'x AgentEnv \<Rightarrow> string \<Rightarrow> string \<Rightarrow> string \<Rightarrow> int \<Rightarrow> 'x Thrown + string option" where
  "agentTitleBody env prompt prov model timeoutMs =
     (case mkdtemp env of
        Inl e \<Rightarrow> Inl (External e)
      | Inr tempDir \<Rightarrow>
          (case resolveAgentPaths env of
             Inl e \<Rightarrow> Inl (External e)
           | Inr _ \<Rightarrow>
               (case runEmbeddedPiAgent env prompt prov model timeoutMs of
                  Inl e \<Rightarrow> Inl (External e)
                | Inr payloads \<Rightarrow> Inr (sanitizeLlmTitleCandidate (agentRawText payloads)))))"

text \<open>
  \<open>try { ... } catch { return undefined }\<close>; the \<open>finally\<close> block removes the directory
  and swallows a failure to do so.
\<close>

definition catchAll :: "'x Thrown + string option \<Rightarrow> 'x Thrown + string option" where
  "catchAll body = (case body of Inl e \<Rightarrow> Inr None | Inr v \<Rightarrow> Inr v)"

definition generateThreadTitleViaLLM ::
  "(string \<Rightarrow> string \<Rightarrow> (string \<times> string) option) \<Rightarrow> 'x AgentEnv \<Rightarrow> OpenClawConfig \<Rightarrow>
   string option \<Rightarrow> string option \<Rightarrow> numberText \<Rightarrow> string option \<Rightarrow> int option \<Rightarrow>
   'x Thrown + string option" where
  "generateThreadTitleViaLLM parseModelRef env cfg primaryText fallbackText maxChars modelRef
     timeoutMs =
     (case resolveGeneratorModel parseModelRef cfg primaryText fallbackText modelRef of
        None \<Rightarrow> Inr None
      | Some (prov, model) \<Rightarrow>
          (let sourceText = sourceTextOf primaryText fallbackText in
           if sourceText = [] then Inr None
           else
             catchAll
               (agentTitleBody env (buildTitlePrompt maxChars sourceText) prov model
                  (case timeoutMs of None \<Rightarrow> DEFAULT_TIMEOUT_MS | Some t \<Rightarrow> t))))"

text \<open>
  The second listing calls the provider's HTTP interface, and aborts the request after the
  timeout; an aborted request rejects. A response body is parsed JSON; reading a member of
  \<open>null\<close> throws, the optional chain \<open>?.\<close> yields \<open>undefined\<close> there, and \<open>undefined\<close> is
  \<open>None\<close>. The text of a response that is not ok is only logged, and a failure to read it
  is swallowed.
\<close>

definition DEFAULT_TIMEOUT_MS2 :: int where
  "DEFAULT_TIMEOUT_MS2 = 3000"

datatype json =
    JNull
  | JBool bool
  | JNum int
  | JStr string
  | JArr "json list"
  | JObj "(string \<times> json) list"

definition optMember :: "json option \<Rightarrow> string \<Rightarrow> json option" where
  "optMember v name =
     (case v of
        Some (JObj kvs) \<Rightarrow> map_of (rev kvs) name
      | _ \<Rightarrow> None)"

definition optFirst :: "json option \<Rightarrow> json option" where
  "optFirst v =
     (case v of
        Some (JArr xs) \<Rightarrow> (case xs of [] \<Rightarrow> None | x # _ \<Rightarrow> Some x)
      | Some (JStr s) \<Rightarrow> (case s of [] \<Rightarrow> None | c # _ \<Rightarrow> Some (JStr [c]))
      | Some (JObj kvs) \<Rightarrow> map_of (rev kvs) ''0''
      | _ \<Rightarrow> None)"

definition member :: "json \<Rightarrow> string \<Rightarrow> 'x Thrown + json option" where
  "member v name = (if v = JNull then Inl TypeError else Inr (optMember (Some v) name))"

text \<open>\<open>v?.trim() || undefined\<close>: only a string has \<open>trim\<close>.\<close>

definition optTrim :: "json option \<Rightarrow> 'x Thrown + string option" where
  "optTrim v =
     (case v of
        None \<Rightarrow> Inr None
      | Some JNull \<Rightarrow> Inr None
      | Some (JStr s) \<Rightarrow> Inr (if trim s = [] then None else Some (trim s))
      | Some _ \<Rightarrow> Inl TypeError)"

record 'x HttpResponse =
  ok :: bool
  httpStatus :: int
  bodyText :: "'x + string"
  bodyJson :: "'x + json"

record HttpRequest =
  url :: string
  apiKeyHeader :: "string option"
  requestModel :: string
  requestPrompt :: string
  abortAfterMs :: int

definition fetchGoogleTitle ::
  "(HttpRequest \<Rightarrow> 'x + 'x HttpResponse) \<Rightarrow> string \<Rightarrow> string \<Rightarrow> string \<Rightarrow> int \<Rightarrow>
   'x Thrown + string option" where
  "fetchGoogleTitle fetch model prompt apiKey timeoutMs =
     (case fetch \<lparr>url = ''https://generativelanguage.googleapis.com/v1beta/models/'' @ model @
                        '':generateContent?key='' @ apiKey,
                  apiKeyHeader = None, requestModel = model, requestPrompt = prompt,
                  abortAfterMs = timeoutMs\<rparr> of
        Inl e \<Rightarrow> Inl (External e)
      | Inr resp \<Rightarrow>
          (if \<not> ok resp then Inr None
           else (case bodyJson resp of
                   Inl e \<Rightarrow> Inl (External e)
                 | Inr j \<Rightarrow>
                     (case member j ''candidates'' of
                        Inl e \<Rightarrow> Inl e
                      | Inr cands \<Rightarrow>
                          optTrim
                            (optMember
                               (optFirst (optMember (optMember (optFirst cands) ''content'')
                                            ''parts''))
                               ''text'')))))"

definition fetchAnthropicTitle ::
  "(HttpRequest \<Rightarrow> 'x + 'x HttpResponse) \<Rightarrow> string \<Rightarrow> string \<Rightarrow> string \<Rightarrow> int \<Rightarrow>
   'x Thrown + string option" where
  "fetchAnthropicTitle fetch model prompt apiKey timeoutMs =
     (case fetch \<lparr>url = ''https://api.anthropic.com/v1/messages'',
                  apiKeyHeader = Some apiKey, requestModel = model, requestPrompt = prompt,
                  abortAfterMs = timeoutMs\<rparr> of
        Inl e \<Rightarrow> Inl (External e)
      | Inr resp \<Rightarrow>
          (if \<not> ok resp then Inr None
           else (case bodyJson resp of
                   Inl e \<Rightarrow> Inl (External e)
                 | Inr j \<Rightarrow>
                     (case member j ''content'' of
                        Inl e \<Rightarrow> Inl e
                      | Inr content \<Rightarrow> optTrim (optMember (optFirst content) ''text'')))))"

definition fetchTitleBody ::
  "(HttpRequest \<Rightarrow> 'x + 'x HttpResponse) \<Rightarrow> string \<Rightarrow> string \<Rightarrow> string \<Rightarrow> string \<Rightarrow> int \<Rightarrow>
   'x Thrown + string option" where
  "fetchTitleBody fetch prov model prompt apiKey timeoutMs =
     (case (if prov = ''google'' then fetchGoogleTitle fetch model prompt apiKey timeoutMs
            else fetchAnthropicTitle fetch model prompt apiKey timeoutMs) of
        Inl e \<Rightarrow> Inl e
      | Inr None \<Rightarrow> Inr None
      | Inr (Some rawText) \<Rightarrow> Inr (sanitizeLlmTitleCandidate rawText))"

definition generateThreadTitleViaLLM2 ::
  "(string \<Rightarrow> string \<Rightarrow> (string \<times> string) option) \<Rightarrow> (HttpRequest \<Rightarrow> 'x + 'x HttpResponse) \<Rightarrow>
   (string \<Rightarrow> string option) \<Rightarrow> OpenClawConfig \<Rightarrow> string option \<Rightarrow> string option \<Rightarrow>
   numberText \<Rightarrow> string option \<Rightarrow> int option \<Rightarrow> 'x Thrown + string option" where
  "generateThreadTitleViaLLM2 parseModelRef fetch processEnv cfg primaryText fallbackText
     maxChars modelRef timeoutMs =
     (case resolveGeneratorModel parseModelRef cfg primaryText fallbackText modelRef of
        None \<Rightarrow> Inr None
      | Some (prov, model) \<Rightarrow>
          (case (if prov = ''google'' then resolveGoogleApiKey (Some cfg) processEnv
                 else resolveAnthropicApiKey (Some cfg) processEnv) of
             None \<Rightarrow> Inr None
           | Some apiKey \<Rightarrow>
               (let sourceText = sourceTextOf primaryText fallbackText in
                if apiKey = [] \<or> sourceText = [] then Inr None
                else
                  catchAll
                    (fetchTitleBody fetch prov model (buildTitlePrompt maxChars sourceText)
                       apiKey (case timeoutMs of None \<Rightarrow> DEFAULT_TIMEOUT_MS2 | Some t \<Rightarrow> t)))))"

text \<open>
  The settings of the title generator, resolved from the configuration and the process
  environment. \<open>Number.parseInt(s, 10)\<close>: white space at the start is skipped, a sign is
  read, and the longest run of digits is the value; without a digit the result is \<open>NaN\<close>,
  and a value too large for the host's numbers (from \<open>2 ^ 1024 - 2 ^ 970\<close> on) is an
  infinity. Above \<open>2 ^ 53\<close> the host rounds the value to the nearest number it has; the
  exact value is kept here, which the comparisons with 0 and with the bounds of the time
  limit do not see. The members \<open>modelRef\<close> and \<open>timeoutMs\<close> of the settings are
  \<open>settingsModelRef\<close> and \<open>settingsTimeoutMs\<close>.
\<close>

datatype ThreadTitleStrategy = Deterministic | Llm | Hybrid

definition normalizeStrategy :: "string option \<Rightarrow> ThreadTitleStrategy" where
  "normalizeStrategy raw =
     (case map_option (\<lambda>r. toLowerCase (trim r)) raw of
        Some v \<Rightarrow> if v = ''llm'' then Llm else if v = ''hybrid'' then Hybrid else Deterministic
      | None \<Rightarrow> Deterministic)"

definition digitValue :: "char \<Rightarrow> int" where
  "digitValue c = int (of_char c) - 48"

definition parseIntDecimal :: "string \<Rightarrow> number" where
  "parseIntDecimal s =
     (let s1 = dropWhile isSpace s;
          negative = (s1 \<noteq> [] \<and> hd s1 = CHR ''-'');
          s2 = (if s1 \<noteq> [] \<and> (hd s1 = CHR ''-'' \<or> hd s1 = CHR ''+'') then tl s1 else s1);
          digits = takeWhile isDigit s2;
          v = foldl (\<lambda>a d. 10 * a + digitValue d) 0 digits
      in if digits = [] then NaN
         else if v \<ge> 2 ^ 1024 - 2 ^ 970 then (if negative then NegInfinity else PosInfinity)
         else Finite (of_int (if negative then - v else v)))"

record ThreadTitleLlmSettings =
  strategy :: ThreadTitleStrategy
  settingsModelRef :: "string option"
  settingsTimeoutMs :: rat
  allowOverwriteCurrentTitle :: bool

definition resolveThreadTitleLlmSettings ::
  "OpenClawConfig option \<Rightarrow> (string \<Rightarrow> string option) \<Rightarrow> ThreadTitleLlmSettings" where
  "resolveThreadTitleLlmSettings cfg env =
     (let timeoutRaw =
            parseIntDecimal
              (case resolveThreadTitleEnvValue cfg env ''OPENCLAW_THREAD_TITLE_TIMEOUT_MS'' of
                 None \<Rightarrow> []
               | Some v \<Rightarrow> v);
          allowOverwriteRaw =
            map_option (\<lambda>v. toLowerCase (trim v))
              (resolveThreadTitleEnvValue cfg env ''OPENCLAW_THREAD_TITLE_OVERWRITE_EXISTING'')
      in \<lparr>strategy =
            normalizeStrategy (resolveThreadTitleEnvValue cfg env ''OPENCLAW_THREAD_TITLE_STRATEGY''),
          settingsModelRef =
            normalizeThreadTitleModelRef
              (resolveThreadTitleEnvValue cfg env ''OPENCLAW_THREAD_TITLE_MODEL''),
          settingsTimeoutMs =
            (case timeoutRaw of
               Finite t \<Rightarrow> if t > 0 then min 60000 (max 3000 t) else of_int DEFAULT_TIMEOUT_MS
             | _ \<Rightarrow> of_int DEFAULT_TIMEOUT_MS),
          allowOverwriteCurrentTitle =
            (allowOverwriteRaw = Some ''1'' \<or> allowOverwriteRaw = Some ''true'' \<or>
             allowOverwriteRaw = Some ''yes'')\<rparr>)"

text \<open>The second listing differs in the default and in the lower bound of the time limit.\<close>

definition resolveThreadTitleLlmSettings2 ::
  "OpenClawConfig option \<Rightarrow> (string \<Rightarrow> string option) \<Rightarrow> ThreadTitleLlmSettings" where
  "resolveThreadTitleLlmSettings2 cfg env =
     (let timeoutRaw =
            parseIntDecimal
              (case resolveThreadTitleEnvValue cfg env ''OPENCLAW_THREAD_TITLE_TIMEOUT_MS'' of
                 None \<Rightarrow> []
               | Some v \<Rightarrow> v);
          allowOverwriteRaw =
            map_option (\<lambda>v. toLowerCase (trim v))
              (resolveThreadTitleEnvValue cfg env ''OPENCLAW_THREAD_TITLE_OVERWRITE_EXISTING'')
      in \<lparr>strategy =
            normalizeStrategy (resolveThreadTitleEnvValue cfg env ''OPENCLAW_THREAD_TITLE_STRATEGY''),
          settingsModelRef =
            normalizeThreadTitleModelRef
              (resolveThreadTitleEnvValue cfg env ''OPENCLAW_THREAD_TITLE_MODEL''),
          settingsTimeoutMs =
            (case timeoutRaw of
               Finite t \<Rightarrow> if t > 0 then min 60000 (max 1 t) else of_int DEFAULT_TIMEOUT_MS2
             | _ \<Rightarrow> of_int DEFAULT_TIMEOUT_MS2),
          allowOverwriteCurrentTitle =
            (allowOverwriteRaw = Some ''1'' \<or> allowOverwriteRaw = Some ''true'' \<or>
             allowOverwriteRaw = Some ''yes'')\<rparr>)"

section \<open>Texts of placeholder tokens\<close>

text \<open>
  The character before the position a pattern has reached, when the match started after
  \<open>p\<close> and has read \<open>w\<close>.
\<close>

definition after :: "char option \<Rightarrow> string \<Rightarrow> char option" where
  "after p w = (if w = [] then p else Some (last w))"

text \<open>
  The texts that consist of placeholder tokens only. A token is a white-space character, a
  media token \<open><media:body>\<close>, or a Slack token \<open>[kind]\<close> or \<open>[kind:name]\<close>, where \<open>kind\<close> is
  one of the three words of the Slack pattern. The body of a media token and the name of a
  Slack token are not empty and hold none of the characters \<open><\<close>, \<open>>\<close>, \<open>[\<close> and \<open>]\<close>. The name
  is all that follows the colon: in \<open>[Slack file: report.pdf]\<close> it starts with the space.
\<close>

definition slackKinds :: "string list" where
  "slackKinds = [''Slack file'', ''Forwarded image'', ''attached'']"

datatype placeholder = Gap char | Media string | Slack string "string option"

fun render :: "placeholder \<Rightarrow> string" where
  "render (Gap c) = [c]"
| "render (Media body) = ''<media:'' @ body @ ''>''"
| "render (Slack kind None) = ''['' @ kind @ '']''"
| "render (Slack kind (Some name)) = ''['' @ kind @ '':'' @ name @ '']''"

definition bracketFree :: "string \<Rightarrow> bool" where
  "bracketFree s = (\<forall>c \<in> set s. c \<notin> set ''<>[]'')"

fun wellFormed :: "placeholder \<Rightarrow> bool" where
  "wellFormed (Gap c) = isSpace c"
| "wellFormed (Media body) = (body \<noteq> [] \<and> bracketFree body)"
| "wellFormed (Slack kind None) = (kind \<in> set slackKinds)"
| "wellFormed (Slack kind (Some name)) = (kind \<in> set slackKinds \<and> name \<noteq> [] \<and> bracketFree name)"

definition placeholderText :: "placeholder list \<Rightarrow> string" where
  "placeholderText toks = concat (map render toks)"

section \<open>Example inputs\<close>

text \<open>
  The inputs of the unit tests of the engine: a Slack thread, a provider whose \<open>setTitle\<close>
  resolves, one whose \<open>setTitle\<close> rejects with an error of a given class, one that reports
  a title set by hand, and an empty store of the default size. \<open>stop\<close> stands for the
  control commands.
\<close>

definition stopIsControl :: "string \<Rightarrow> bool" where
  "stopIsControl s = (s = ''stop'')"

definition exampleTarget :: ThreadTitleTarget where
  "exampleTarget =
     \<lparr>channel = ''slack'', accountId = None, conversationId = Some ''C123'',
      threadId = Some (IdString ''1711111111.000100''), toField = None\<rparr>"

definition exampleKey :: string where
  "exampleKey = ''slack:C123:1711111111.000100''"

definition acceptingProvider :: "string ThreadTitleProvider" where
  "acceptingProvider =
     \<lparr>providerChannel = ''slack'', resolveThreadKey = None, getCurrentTitle = None,
      setTitle = (\<lambda>_ _. None), classifyError = None, retryAfterMs = None\<rparr>"

definition rejectingProvider :: "ThreadTitleErrorClass \<Rightarrow> string ThreadTitleProvider" where
  "rejectingProvider cls =
     \<lparr>providerChannel = ''slack'', resolveThreadKey = None, getCurrentTitle = None,
      setTitle = (\<lambda>_ _. Some ''boom''), classifyError = Some (\<lambda>_. cls), retryAfterMs = None\<rparr>"

definition namedThreadProvider :: "string ThreadTitleProvider" where
  "namedThreadProvider =
     \<lparr>providerChannel = ''slack'', resolveThreadKey = None,
      getCurrentTitle = Some (\<lambda>_. Inr (Some ''Roadmap'')),
      setTitle = (\<lambda>_ _. None), classifyError = None, retryAfterMs = None\<rparr>"

text \<open>
  A provider whose \<open>setTitle\<close> rejects with an error of class \<open>unknown\<close> and whose
  \<open>retryAfterMs\<close> returns a given delay.
\<close>

definition delayingProvider :: "number \<Rightarrow> string ThreadTitleProvider" where
  "delayingProvider d =
     \<lparr>providerChannel = ''slack'', resolveThreadKey = None, getCurrentTitle = None,
      setTitle = (\<lambda>_ _. Some ''boom''), classifyError = Some (\<lambda>_. Unknown),
      retryAfterMs = Some (\<lambda>_ _. Some d)\<rparr>"

text \<open>
  The process environment of the second unit test of the settings, which allows a title
  to be overwritten.
\<close>

definition overwriteEnv :: "string \<Rightarrow> string option" where
  "overwriteEnv key =
     (if key = ''OPENCLAW_THREAD_TITLE_STRATEGY'' then Some ''llm''
      else if key = ''OPENCLAW_THREAD_TITLE_MODEL'' then Some ''gemini-3-flash''
      else if key = ''OPENCLAW_THREAD_TITLE_OVERWRITE_EXISTING'' then Some ''true''
      else None)"

definition emptyStore :: ThreadTitleStateStore where
  "emptyStore = createInMemoryThreadTitleStateStore DEFAULT_MAX_ENTRIES"

definition runWith ::
  "string ThreadTitleProvider \<Rightarrow> ThreadTitleResult \<times> ThreadTitleStateStore \<times> ProviderCall list" where
  "runWith provider =
     applyThreadTitle stopIsControl provider exampleTarget (Some ''Ship release checklist'') None
       80 1000 emptyStore"

text \<open>
  The input of the unit test that expects a title equal to the seed text to be overwritten:
  a Telegram thread whose current title is the text of the message.
\<close>

definition telegramTarget :: ThreadTitleTarget where
  "telegramTarget = exampleTarget\<lparr>channel := ''telegram''\<rparr>"

definition seedTitleProvider :: "string ThreadTitleProvider" where
  "seedTitleProvider =
     \<lparr>providerChannel = ''telegram'', resolveThreadKey = None,
      getCurrentTitle = Some (\<lambda>_. Inr (Some ''yoooooooooooooooooo'')),
      setTitle = (\<lambda>_ _. None), classifyError = None, retryAfterMs = None\<rparr>"

definition seedTitleRun ::
  "ThreadTitleResult \<times> ThreadTitleStateStore \<times> ProviderCall list" where
  "seedTitleRun =
     applyThreadTitle stopIsControl seedTitleProvider telegramTarget
       (Some ''yoooooooooooooooooo'') (Some ''yoooooooooooooooooo'') 80 1000 emptyStore"

text \<open>
  A state that waits for a retry after an unknown error, with its retry time far ahead:
  as the manager holds it, and as the engine holds it, in a store.
\<close>

definition coolingState :: NativeThreadTitleState where
  "coolingState =
     \<lparr>threadKey = exampleKey, status = RetryAfter, attempts = Some 1, lastAttemptAt = Some 500,
      appliedAt = None, appliedTitle = None, lastProposedTitle = Some ''Old title'',
      retryAfter = Some 61000, lastErrorClass = Some Unknown\<rparr>"

definition coolingEntry :: ThreadTitleState where
  "coolingEntry =
     \<lparr>threadKey = exampleKey, status = RetryAfter, attempts = Some 1, lastAttemptAt = Some 500,
      appliedAt = None, appliedTitle = None, lastProposedTitle = Some ''Old title'',
      retryAfter = Some (Finite 61000), lastErrorClass = Some Unknown\<rparr>"

definition coolingStore :: ThreadTitleStateStore where
  "coolingStore = storeSet emptyStore exampleKey coolingEntry"

section \<open>Properties of the strings\<close>

text \<open>The two character functions on the bits of a code unit, for evaluation.\<close>

lemma toLowerChar_Char [code]:
  "toLowerChar (Char b0 b1 b2 b3 b4 b5 b6 b7) =
     (if \<not> b5 \<and> b6 \<and>
         (if b7 then \<not> (b4 \<and> b2 \<and> b1 \<and> b0)
          else (b0 \<or> b1 \<or> b2 \<or> b3 \<or> b4) \<and> \<not> (b4 \<and> b3 \<and> (b2 \<or> (b1 \<and> b0))))
      then Char b0 b1 b2 b3 b4 True b6 b7
      else Char b0 b1 b2 b3 b4 b5 b6 b7)"
  by (cases b0; cases b1; cases b2; cases b3; cases b4; cases b5; cases b6; cases b7;
      simp add: toLowerChar_def char_of_def bit_Suc_0_iff)

lemma isWordChar_Char [code]:
  "isWordChar (Char b0 b1 b2 b3 b4 b5 b6 b7) =
     (\<not> b7 \<and>
      (if b6 then (b0 \<and> b1 \<and> b2 \<and> b3 \<and> b4 \<and> \<not> b5) \<or>
                  ((b0 \<or> b1 \<or> b2 \<or> b3 \<or> b4) \<and> \<not> (b4 \<and> b3 \<and> (b2 \<or> (b1 \<and> b0))))
       else b5 \<and> b4 \<and> \<not> (b3 \<and> (b2 \<or> b1))))"
  by (cases b0; cases b1; cases b2; cases b3; cases b4; cases b5; cases b6; cases b7;
      simp add: isWordChar_def)

section \<open>Properties of the store\<close>

lemma evictOldest_split: "\<exists>ps. es = ps @ evictOldest m es"
proof (induction es)
  case Nil
  then show ?case by simp
next
  case (Cons e es)
  then obtain ps where ps: "es = ps @ evictOldest m es" by blast
  show ?case
  proof (cases "int (length (e # es)) > m \<and> fst e \<noteq> []")
    case True
    then have "evictOldest m (e # es) = evictOldest m es" by simp
    then have "e # es = (e # ps) @ evictOldest m (e # es)" using ps by simp
    then show ?thesis by blast
  next
    case False
    then have "evictOldest m (e # es) = e # es" by auto
    then show ?thesis by simp
  qed
qed

lemma evictOldest_nonempty: "1 \<le> m \<Longrightarrow> es \<noteq> [] \<Longrightarrow> evictOldest m es \<noteq> []"
proof (induction es)
  case Nil
  then show ?case by simp
next
  case (Cons e es)
  show ?case
  proof (cases "es = []")
    case True
    then show ?thesis using Cons.prems by simp
  next
    case False
    then show ?thesis using Cons by simp
  qed
qed

lemma map_of_tail_last:
  assumes "xs @ [(k, s)] = ps @ ys" and "ys \<noteq> []" and "\<forall>e \<in> set xs. fst e \<noteq> k"
  shows "map_of ys k = Some s"
proof -
  from assms(1,2) obtain qs where ys: "ys = qs @ [(k, s)]" and xs: "xs = ps @ qs"
    by (metis append_butlast_last_id append_assoc butlast_snoc last_appendR last_snoc butlast_append)
  from xs assms(3) have "\<forall>e \<in> set qs. fst e \<noteq> k" by simp
  then have "map_of qs k = None" by (induction qs) auto
  then show ?thesis by (simp add: ys map_add_def)
qed

lemma map_of_tail_cases:
  assumes "xs @ [(k, s)] = ps @ ys" and "\<forall>e \<in> set xs. fst e \<noteq> k" and "map_of ys k = Some s'"
  shows "s' = s"
proof (cases "ys = []")
  case True
  then show ?thesis using assms(3) by simp
next
  case False
  then show ?thesis using map_of_tail_last[OF assms(1) False assms(2)] assms(3) by simp
qed

lemma storeGet_storeSet:
  assumes "1 \<le> maxEntries store"
  shows "storeGet (storeSet store k s) k = Some s"
proof -
  let ?xs = "filter (\<lambda>e. fst e \<noteq> k) (stateMap store)"
  obtain ps where ps: "?xs @ [(k, s)] = ps @ evictOldest (maxEntries store) (?xs @ [(k, s)])"
    using evictOldest_split by blast
  have ne: "evictOldest (maxEntries store) (?xs @ [(k, s)]) \<noteq> []"
    using evictOldest_nonempty[OF assms] by simp
  have "map_of (evictOldest (maxEntries store) (?xs @ [(k, s)])) k = Some s"
    by (rule map_of_tail_last[OF ps ne]) simp
  then show ?thesis by (simp add: storeGet_def storeSet_def)
qed

lemma storeGet_storeSet_only:
  assumes "storeGet (storeSet store k s) k = Some s'"
  shows "s' = s"
proof -
  let ?xs = "filter (\<lambda>e. fst e \<noteq> k) (stateMap store)"
  obtain ps where ps: "?xs @ [(k, s)] = ps @ evictOldest (maxEntries store) (?xs @ [(k, s)])"
    using evictOldest_split by blast
  have "map_of (evictOldest (maxEntries store) (?xs @ [(k, s)])) k = Some s'"
    using assms by (simp add: storeGet_def storeSet_def)
  then show ?thesis using map_of_tail_cases[OF ps] by simp
qed

lemma maxEntries_storeSet [simp]: "maxEntries (storeSet store k s) = maxEntries store"
  by (simp add: storeSet_def)

lemma maxEntries_setStoreState [simp]: "maxEntries (setStoreState store s) = maxEntries store"
  by (simp add: setStoreState_def)

lemma storeGet_setStoreState:
  "1 \<le> maxEntries store \<Longrightarrow> threadKey s \<noteq> [] \<Longrightarrow> storeGet (setStoreState store s) (threadKey s) = Some s"
  by (simp add: setStoreState_def storeGet_storeSet)

lemma storeGet_setStoreState_only:
  "threadKey s \<noteq> [] \<Longrightarrow> storeGet (setStoreState store s) (threadKey s) = Some s' \<Longrightarrow> s' = s"
  by (simp add: setStoreState_def storeGet_storeSet_only)

section \<open>Properties of the engine\<close>

lemma threadKey_baseStateOf [simp]: "threadKey (baseStateOf k now t existing) = k"
  by (simp add: baseStateOf_def)

lemma status_baseStateOf [simp]: "status (baseStateOf k now t existing) = Pending"
  by (simp add: baseStateOf_def)

lemma setTitleCalls_simps [simp]:
  "setTitleCalls [] = 0"
  "setTitleCalls (CallSetTitle tg t # cs) = Suc (setTitleCalls cs)"
  "setTitleCalls (CallGetCurrentTitle tg # cs) = setTitleCalls cs"
  "setTitleCalls (xs @ ys) = setTitleCalls xs + setTitleCalls ys"
  by (simp_all add: setTitleCalls_def)

text \<open>What a run that reaches the attempt has passed.\<close>

lemma applyThreadTitle_attempt:
  assumes "applyThreadTitle icm provider target primaryText fallbackText maxChars now store
             = (res, store', calls)"
    and "outcome res \<noteq> OutcomeSkipped \<or> reason res = ''existing_title_present''"
  shows "\<exists>k t. toLowerCase (trim (channel target)) \<noteq> [] \<and>
           toLowerCase (trim (channel target)) = toLowerCase (trim (providerChannel provider)) \<and>
           threadKeyFor provider target = Some k \<and> k \<noteq> [] \<and>
           deriveConversationTitle icm primaryText fallbackText maxChars = Some t \<and> t \<noteq> [] \<and>
           attemptTitle provider target k t now (storeGet store k) store = (res, store', calls)"
  using assms
  by (auto simp: applyThreadTitle_def Let_def skipped_def split: option.splits if_splits)

lemma attemptTitle_applied:
  assumes "attemptTitle provider target k t now existing store = (res, store', calls)"
    and "outcome res = OutcomeApplied"
  shows "store' = setStoreState (setStoreState store (baseStateOf k now t existing))
                    ((baseStateOf k now t existing)\<lparr>status := Applied, appliedAt := Some now,
                        appliedTitle := Some t, retryAfter := None, lastErrorClass := None\<rparr>)
         \<and> setTitleCalls calls = 1"
  using assms
  by (auto simp: attemptTitle_def trySetTitle_def Let_def skipped_def
           split: option.splits if_splits sum.splits prod.splits)

text \<open>
  Claim C1. Idempotence: when a run of \<open>applyThreadTitle\<close> on a store that keeps at least
  one entry ends with outcome \<open>applied\<close>, a second run with the same provider, target and
  texts on the store the first run left (at any later time) makes no call of \<open>setTitle\<close>,
  so that the two runs together make exactly one, returns outcome \<open>skipped\<close> with reason
  \<open>already_applied\<close>, and leaves the store as it is.
\<close>

theorem applyThreadTitle_idempotent:
  assumes cap: "1 \<le> maxEntries store"
    and first: "applyThreadTitle icm provider target primaryText fallbackText maxChars now store
                  = (res, store', calls)"
    and applied: "outcome res = OutcomeApplied"
  shows "\<exists>k res2 calls2.
           applyThreadTitle icm provider target primaryText fallbackText maxChars now2 store'
             = (res2, store', calls2) \<and>
           outcome res2 = OutcomeSkipped \<and> reason res2 = ''already_applied'' \<and>
           resultThreadKey res2 = Some k \<and>
           setTitleCalls calls2 = 0 \<and> setTitleCalls (calls @ calls2) = 1"
proof -
  from applyThreadTitle_attempt[OF first] applied obtain k t where
    ch: "toLowerCase (trim (channel target)) \<noteq> []"
      "toLowerCase (trim (channel target)) = toLowerCase (trim (providerChannel provider))"
    and key: "threadKeyFor provider target = Some k" "k \<noteq> []"
    and att: "attemptTitle provider target k t now (storeGet store k) store = (res, store', calls)"
    by auto
  let ?base = "baseStateOf k now t (storeGet store k)"
  let ?fin = "?base\<lparr>status := Applied, appliedAt := Some now, appliedTitle := Some t,
                     retryAfter := None, lastErrorClass := None\<rparr>"
  from attemptTitle_applied[OF att applied]
  have st: "store' = setStoreState (setStoreState store ?base) ?fin" and one: "setTitleCalls calls = 1"
    by auto
  have "storeGet store' k = Some ?fin"
    using storeGet_setStoreState[of "setStoreState store ?base" ?fin] cap key(2) st by simp
  then have "applyThreadTitle icm provider target primaryText fallbackText maxChars now2 store'
               = (skipped ''already_applied'' (Some k), store', [])"
    using ch key by (simp add: applyThreadTitle_def Let_def)
  then show ?thesis using one by (simp add: skipped_def)
qed

theorem applyThreadTitle_idempotent_witness:
  "1 \<le> maxEntries emptyStore \<and> outcome (fst (runWith acceptingProvider)) = OutcomeApplied \<and>
   (\<exists>k res2 calls2.
      applyThreadTitle stopIsControl acceptingProvider exampleTarget
        (Some ''Ship release checklist'') None 80 2000 (fst (snd (runWith acceptingProvider)))
        = (res2, fst (snd (runWith acceptingProvider)), calls2) \<and>
      outcome res2 = OutcomeSkipped \<and> reason res2 = ''already_applied'' \<and>
      resultThreadKey res2 = Some k \<and>
      setTitleCalls calls2 = 0 \<and>
      setTitleCalls (snd (snd (runWith acceptingProvider)) @ calls2) = 1)"
proof -
  have cap: "1 \<le> maxEntries emptyStore"
    by (simp add: emptyStore_def createInMemoryThreadTitleStateStore_def DEFAULT_MAX_ENTRIES_def)
  have run: "applyThreadTitle stopIsControl acceptingProvider exampleTarget
               (Some ''Ship release checklist'') None 80 1000 emptyStore
             = (fst (runWith acceptingProvider), fst (snd (runWith acceptingProvider)),
                snd (snd (runWith acceptingProvider)))"
    by (simp add: runWith_def)
  have applied: "outcome (fst (runWith acceptingProvider)) = OutcomeApplied"
    by code_simp
  from applyThreadTitle_idempotent[OF cap run applied, of 2000] cap applied
  show ?thesis by simp
qed

lemma applyThreadTitle_setTitle_called:
  assumes "applyThreadTitle icm provider target primaryText fallbackText maxChars now store
             = (res, store', calls)"
    and "CallSetTitle target t \<in> set calls"
  shows "\<exists>k. toLowerCase (trim (channel target)) \<noteq> [] \<and>
           toLowerCase (trim (channel target)) = toLowerCase (trim (providerChannel provider)) \<and>
           threadKeyFor provider target = Some k \<and> k \<noteq> [] \<and>
           (res, store') = trySetTitle provider target k t now
                             (baseStateOf k now t (storeGet store k))
                             (setStoreState store (baseStateOf k now t (storeGet store k)))"
  using assms
  by (auto simp: applyThreadTitle_def attemptTitle_def Let_def skipped_def
           split: option.splits if_splits sum.splits prod.splits)

lemma applyThreadTitle_disabled:
  assumes "toLowerCase (trim (channel target)) \<noteq> []"
    and "toLowerCase (trim (channel target)) = toLowerCase (trim (providerChannel provider))"
    and "threadKeyFor provider target = Some k" and "k \<noteq> []"
    and "storeGet store k = Some st" and "status st = Disabled"
  shows "applyThreadTitle icm provider target primaryText fallbackText maxChars now store
           = (skipped ''disabled'' (Some k), store, [])"
  using assms by (simp add: applyThreadTitle_def Let_def)

text \<open>
  Claim C2. Permission failures disable for good: when \<open>setTitle\<close> is called, rejects, and
  the provider's \<open>classifyError\<close> returns \<open>permission\<close>, the store (one that keeps at least
  one entry) holds status \<open>disabled\<close> for the thread key after the run; and every run for
  that key on a store whose state for the key is \<open>disabled\<close> returns outcome \<open>skipped\<close> with
  reason \<open>disabled\<close>, calls nothing on the provider, and leaves the store as it is.
\<close>

theorem permission_failure_disables:
  assumes cap: "1 \<le> maxEntries store"
    and run: "applyThreadTitle icm provider target primaryText fallbackText maxChars now store
                = (res, store', calls)"
    and called: "CallSetTitle target t \<in> set calls"
    and rejected: "setTitle provider target t = Some err"
    and cls: "classifyError provider = Some f" "f err = Permission"
  shows "\<exists>k st. threadKeyFor provider target = Some k \<and>
           storeGet store' k = Some st \<and> status st = Disabled \<and>
           (\<forall>store2 st2 primaryText2 fallbackText2 maxChars2 now2.
              storeGet store2 k = Some st2 \<and> status st2 = Disabled \<longrightarrow>
              applyThreadTitle icm provider target primaryText2 fallbackText2 maxChars2 now2 store2
                = (skipped ''disabled'' (Some k), store2, []))"
proof -
  from applyThreadTitle_setTitle_called[OF run called] obtain k where
    ch: "toLowerCase (trim (channel target)) \<noteq> []"
      "toLowerCase (trim (channel target)) = toLowerCase (trim (providerChannel provider))"
    and key: "threadKeyFor provider target = Some k" "k \<noteq> []"
    and tr: "(res, store') = trySetTitle provider target k t now
                             (baseStateOf k now t (storeGet store k))
                             (setStoreState store (baseStateOf k now t (storeGet store k)))"
    by blast
  let ?base = "baseStateOf k now t (storeGet store k)"
  have "errorClassOf provider err = Permission"
    using cls by (simp add: errorClassOf_def)
  then have st: "store' = setStoreState (setStoreState store ?base)
                            (?base\<lparr>status := Disabled, lastErrorClass := Some Permission\<rparr>)"
    using tr rejected by (simp add: trySetTitle_def Let_def)
  have "storeGet store' k = Some (?base\<lparr>status := Disabled, lastErrorClass := Some Permission\<rparr>)"
    using storeGet_setStoreState[of "setStoreState store ?base"
            "?base\<lparr>status := Disabled, lastErrorClass := Some Permission\<rparr>"] cap key(2) st
    by simp
  then show ?thesis
    using key applyThreadTitle_disabled[OF ch key] by auto
qed

theorem permission_failure_disables_witness:
  "1 \<le> maxEntries emptyStore \<and>
   CallSetTitle exampleTarget ''Ship release checklist''
     \<in> set (snd (snd (runWith (rejectingProvider Permission)))) \<and>
   setTitle (rejectingProvider Permission) exampleTarget ''Ship release checklist'' = Some ''boom'' \<and>
   errorClassOf (rejectingProvider Permission) ''boom'' = Permission \<and>
   map_option status (storeGet (fst (snd (runWith (rejectingProvider Permission)))) exampleKey)
     = Some Disabled \<and>
   applyThreadTitle stopIsControl (rejectingProvider Permission) exampleTarget
     (Some ''Another title'') None 80 99000 (fst (snd (runWith (rejectingProvider Permission))))
     = (skipped ''disabled'' (Some exampleKey),
        fst (snd (runWith (rejectingProvider Permission))), [])"
proof -
  let ?p = "rejectingProvider Permission"
  have cap: "1 \<le> maxEntries emptyStore"
    by (simp add: emptyStore_def createInMemoryThreadTitleStateStore_def DEFAULT_MAX_ENTRIES_def)
  have run: "applyThreadTitle stopIsControl ?p exampleTarget
               (Some ''Ship release checklist'') None 80 1000 emptyStore
             = (fst (runWith ?p), fst (snd (runWith ?p)), snd (snd (runWith ?p)))"
    by (simp add: runWith_def)
  have called: "CallSetTitle exampleTarget ''Ship release checklist'' \<in> set (snd (snd (runWith ?p)))"
    by code_simp
  have rejected: "setTitle ?p exampleTarget ''Ship release checklist'' = Some ''boom''"
    by (simp add: rejectingProvider_def)
  have cls: "classifyError ?p = Some (\<lambda>_. Permission)"
    by (simp add: rejectingProvider_def)
  have key: "threadKeyFor ?p exampleTarget = Some exampleKey"
    by code_simp
  from permission_failure_disables[OF cap run called rejected cls] key
  obtain st where st: "storeGet (fst (snd (runWith ?p))) exampleKey = Some st" "status st = Disabled"
    and later: "\<And>store2 st2 primaryText2 fallbackText2 maxChars2 now2.
                  storeGet store2 exampleKey = Some st2 \<and> status st2 = Disabled \<Longrightarrow>
                  applyThreadTitle stopIsControl ?p exampleTarget primaryText2 fallbackText2
                    maxChars2 now2 store2 = (skipped ''disabled'' (Some exampleKey), store2, [])"
    by auto
  from later[of "fst (snd (runWith ?p))" st] st cap called rejected cls
  show ?thesis by (simp add: errorClassOf_def)
qed

lemma applyThreadTitle_probe_called:
  assumes "applyThreadTitle icm provider target primaryText fallbackText maxChars now store
             = (res, store', calls)"
    and "CallGetCurrentTitle target \<in> set calls"
  shows "\<exists>k t. k \<noteq> [] \<and>
           attemptTitle provider target k t now (storeGet store k) store = (res, store', calls)"
  using assms
  by (auto simp: applyThreadTitle_def Let_def skipped_def split: option.splits if_splits)


text \<open>The settings of the unit tests of \<open>resolveThreadTitleLlmSettings\<close>.\<close>

lemma resolveThreadTitleLlmSettings_examples:
  "resolveThreadTitleLlmSettings None (\<lambda>_. None)
     = \<lparr>strategy = Deterministic, settingsModelRef = None, settingsTimeoutMs = 12000,
        allowOverwriteCurrentTitle = False\<rparr>"
  "resolveThreadTitleLlmSettings None overwriteEnv
     = \<lparr>strategy = Llm, settingsModelRef = Some ''google/gemini-3-flash'',
        settingsTimeoutMs = 12000, allowOverwriteCurrentTitle = True\<rparr>"
  by code_simp+

lemma parseIntDecimal_example: "parseIntDecimal ''9000'' = Finite 9000"
  by (simp add: parseIntDecimal_def Let_def isSpace_def isDigit_def digitValue_def)

lemma settingsTimeoutMs_example:
  "settingsTimeoutMs
     (resolveThreadTitleLlmSettings None
        (\<lambda>k. if k = ''OPENCLAW_THREAD_TITLE_TIMEOUT_MS'' then Some ''9000'' else None)) = 9000"
  by (simp add: resolveThreadTitleLlmSettings_def Let_def resolveThreadTitleEnvValue_def
        parseIntDecimal_example trim_def isSpace_def)

lemma allowOverwriteCurrentTitle_resolved:
  "allowOverwriteCurrentTitle (resolveThreadTitleLlmSettings cfg env) =
     (case resolveThreadTitleEnvValue cfg env ''OPENCLAW_THREAD_TITLE_OVERWRITE_EXISTING'' of
        None \<Rightarrow> False
      | Some raw \<Rightarrow> toLowerCase (trim raw) \<in> {''1'', ''true'', ''yes''})"
  "allowOverwriteCurrentTitle (resolveThreadTitleLlmSettings2 cfg env) =
     (case resolveThreadTitleEnvValue cfg env ''OPENCLAW_THREAD_TITLE_OVERWRITE_EXISTING'' of
        None \<Rightarrow> False
      | Some raw \<Rightarrow> toLowerCase (trim raw) \<in> {''1'', ''true'', ''yes''})"
  by (auto simp: resolveThreadTitleLlmSettings_def resolveThreadTitleLlmSettings2_def Let_def
           split: option.splits)



text \<open>The state a failed run leaves.\<close>

lemma applyThreadTitle_failed:
  assumes "applyThreadTitle icm provider target primaryText fallbackText maxChars now store
             = (res, store', calls)"
    and "outcome res = OutcomeFailed"
  shows "\<exists>k t err. k \<noteq> [] \<and> resultThreadKey res = Some k \<and> title res = Some t \<and>
           setTitle provider target t = Some err \<and>
           errorClass res = Some (errorClassOf provider err) \<and>
           store' = setStoreState (setStoreState store (baseStateOf k now t (storeGet store k)))
                      (if errorClassOf provider err = Permission \<or>
                          errorClassOf provider err = NotFound
                       then (baseStateOf k now t (storeGet store k))
                              \<lparr>status := Disabled,
                               lastErrorClass := Some (errorClassOf provider err)\<rparr>
                       else (baseStateOf k now t (storeGet store k))
                              \<lparr>status := RetryAfter,
                               retryAfter := Some (numAdd (Finite (of_int now)) (numMax (Finite 1000)
                                 (retryDelayOf provider err (errorClassOf provider err)))),
                               lastErrorClass := Some (errorClassOf provider err)\<rparr>)"
proof -
  from applyThreadTitle_attempt[OF assms(1)] assms(2) obtain k t where
    k: "k \<noteq> []"
    and att: "attemptTitle provider target k t now (storeGet store k) store = (res, store', calls)"
    by auto
  let ?base = "baseStateOf k now t (storeGet store k)"
  from att assms(2) have tr: "(res, store') = trySetTitle provider target k t now ?base
                               (setStoreState store ?base)"
    by (auto simp: attemptTitle_def Let_def skipped_def
             split: option.splits sum.splits if_splits prod.splits)
  from tr assms(2) obtain err where err: "setTitle provider target t = Some err"
    by (auto simp: trySetTitle_def Let_def split: option.splits)
  from tr err k show ?thesis
    by (auto simp: trySetTitle_def Let_def)
qed

lemma applyThreadTitle_cooldown:
  assumes "toLowerCase (trim (channel target)) \<noteq> []"
    and "toLowerCase (trim (channel target)) = toLowerCase (trim (providerChannel provider))"
    and "threadKeyFor provider target = Some k" and "k \<noteq> []"
    and "storeGet store k = Some st" and "status st = RetryAfter"
    and "retryAfter st = Some r" and "numGreater r (Finite (of_int now))"
  shows "applyThreadTitle icm provider target primaryText fallbackText maxChars now store
           = (skipped ''cooldown'' (Some k), store, [])"
  using assms by (simp add: applyThreadTitle_def Let_def)

text \<open>
  The retry time a failed run writes: \<open>now + Math.max(1000, delay)\<close> in the host's
  arithmetic, which is a time from \<open>now + 1000\<close> on unless the delay is \<open>NaN\<close>.
\<close>

lemma retry_after_written:
  assumes run: "applyThreadTitle icm provider target primaryText fallbackText maxChars now store
                = (res, store', calls)"
    and failed: "outcome res = OutcomeFailed"
    and cap: "1 \<le> maxEntries store"
    and key: "resultThreadKey res = Some k"
    and stored: "storeGet store' k = Some st"
    and retry: "status st = RetryAfter"
  shows "\<exists>t err delay r. title res = Some t \<and> setTitle provider target t = Some err \<and>
           delay = retryDelayOf provider err (errorClassOf provider err) \<and>
           retryAfter st = Some r \<and>
           r = numAdd (Finite (of_int now)) (numMax (Finite 1000) delay) \<and>
           (delay \<noteq> NaN \<longrightarrow> r = PosInfinity \<or> (\<exists>x. r = Finite x \<and> of_int now + 1000 \<le> x))"
proof -
  from applyThreadTitle_failed[OF run failed] key obtain t err where k: "k \<noteq> []"
    and tt: "title res = Some t" and err: "setTitle provider target t = Some err"
    and st: "store' = setStoreState (setStoreState store (baseStateOf k now t (storeGet store k)))
                      (if errorClassOf provider err = Permission \<or>
                          errorClassOf provider err = NotFound
                       then (baseStateOf k now t (storeGet store k))
                              \<lparr>status := Disabled,
                               lastErrorClass := Some (errorClassOf provider err)\<rparr>
                       else (baseStateOf k now t (storeGet store k))
                              \<lparr>status := RetryAfter,
                               retryAfter := Some (numAdd (Finite (of_int now)) (numMax (Finite 1000)
                                 (retryDelayOf provider err (errorClassOf provider err)))),
                               lastErrorClass := Some (errorClassOf provider err)\<rparr>)"
    by auto
  let ?cls = "errorClassOf provider err"
  let ?delay = "retryDelayOf provider err ?cls"
  let ?r = "numAdd (Finite (of_int now)) (numMax (Finite 1000) ?delay)"
  let ?base = "baseStateOf k now t (storeGet store k)"
  have r: "retryAfter st = Some ?r"
  proof (cases "?cls = Permission \<or> ?cls = NotFound")
    case True
    let ?fin = "?base\<lparr>status := Disabled, lastErrorClass := Some ?cls\<rparr>"
    from True st have "store' = setStoreState (setStoreState store ?base) ?fin" by simp
    then have "storeGet store' k = Some ?fin"
      using storeGet_setStoreState[of "setStoreState store ?base" ?fin] cap k by simp
    with stored have "st = ?fin" by simp
    then have "status st = Disabled" by simp
    with retry show ?thesis by simp
  next
    case False
    let ?fin = "?base\<lparr>status := RetryAfter, retryAfter := Some ?r, lastErrorClass := Some ?cls\<rparr>"
    from False st have "store' = setStoreState (setStoreState store ?base) ?fin" by simp
    then have "storeGet store' k = Some ?fin"
      using storeGet_setStoreState[of "setStoreState store ?base" ?fin] cap k by simp
    with stored have "st = ?fin" by simp
    then show ?thesis by simp
  qed
  have "?delay \<noteq> NaN \<longrightarrow> ?r = PosInfinity \<or> (\<exists>x. ?r = Finite x \<and> of_int now + 1000 \<le> x)"
    by (cases ?delay) simp_all
  with tt err r show ?thesis by blast
qed

text \<open>
  Claim C10 holds when the provider's \<open>retryAfterMs\<close> returns zero or a negative delay: the
  retry time written is \<open>now + 1000\<close>. It fails when \<open>retryAfterMs\<close> returns \<open>NaN\<close>, which
  \<open>Math.max(1000, delay)\<close> lets through: the state written has status \<open>retry_after\<close> and
  \<open>retryAfter\<close> \<open>NaN\<close>, which is not a time from \<open>now + 1000\<close> on, and no cooldown holds back
  the next run, one millisecond later, which calls \<open>setTitle\<close> again.
\<close>

theorem retry_after_floor_misses_NaN:
  "map_option retryAfter (storeGet (fst (snd (runWith (delayingProvider (Finite 0))))) exampleKey)
     = Some (Some (Finite (1000 + 1000))) \<and>
   map_option retryAfter (storeGet (fst (snd (runWith (delayingProvider (Finite (- 5)))))) exampleKey)
     = Some (Some (Finite (1000 + 1000))) \<and>
   outcome (fst (runWith (delayingProvider NaN))) = OutcomeFailed \<and>
   map_option status (storeGet (fst (snd (runWith (delayingProvider NaN)))) exampleKey)
     = Some RetryAfter \<and>
   map_option retryAfter (storeGet (fst (snd (runWith (delayingProvider NaN)))) exampleKey)
     = Some (Some NaN) \<and>
   \<not> numGreater NaN (Finite 1000) \<and>
   reason (fst (applyThreadTitle stopIsControl (delayingProvider NaN) exampleTarget
                  (Some ''Ship release checklist'') None 80 1001
                  (fst (snd (runWith (delayingProvider NaN))))))
     = ''set_title_failed'' \<and>
   setTitleCalls (snd (snd (applyThreadTitle stopIsControl (delayingProvider NaN) exampleTarget
                              (Some ''Ship release checklist'') None 80 1001
                              (fst (snd (runWith (delayingProvider NaN)))))))
     = 1"
  by code_simp

section \<open>The two engines after a failure\<close>

text \<open>
  Claim C3, as stated, fails in \<open>applyThreadTitle\<close>: a rejection of class \<open>not_found\<close>
  leaves the thread \<open>disabled\<close>, not waiting for a retry.
\<close>

theorem not_found_disables_counterexample:
  "errorClass (fst (runWith (rejectingProvider NotFound))) = Some NotFound \<and>
   map_option status (storeGet (fst (snd (runWith (rejectingProvider NotFound)))) exampleKey)
     = Some Disabled"
  by code_simp

text \<open>
  Claim C3, amended. In the rename manager a failure of class \<open>not_found\<close> leaves the state
  \<open>retry_after\<close> with \<open>retryAfter\<close> thirty minutes (1800000 ms) after the clock reading; in
  \<open>applyThreadTitle\<close> a rejection of class \<open>not_found\<close> leaves the state \<open>disabled\<close>, as one
  of class \<open>permission\<close> does.
\<close>

theorem not_found_backoff_in_manager:
  "(sessionKey \<noteq> None \<and> sessionKey \<noteq> Some [] \<and> threadKey s = k \<longrightarrow>
      (\<exists>s'. markRenameResult sessionKey k t n (Some NotFound) t1 t2 (Some s) = Some s' \<and>
            status s' = RetryAfter \<and> lastErrorClass s' = Some NotFound \<and>
            retryAfter s' = Some (t2 + 1800000))) \<and>
   (1 \<le> maxEntries store \<and>
    applyThreadTitle icm provider target primaryText fallbackText maxChars now store
      = (res, store', calls) \<and>
    outcome res = OutcomeFailed \<and> errorClass res = Some NotFound \<longrightarrow>
      (\<exists>key st. resultThreadKey res = Some key \<and> storeGet store' key = Some st \<and>
                status st = Disabled \<and> lastErrorClass st = Some NotFound))"
proof (intro conjI impI)
  assume "sessionKey \<noteq> None \<and> sessionKey \<noteq> Some [] \<and> threadKey s = k"
  then show "\<exists>s'. markRenameResult sessionKey k t n (Some NotFound) t1 t2 (Some s) = Some s' \<and>
            status s' = RetryAfter \<and> lastErrorClass s' = Some NotFound \<and>
            retryAfter s' = Some (t2 + 1800000)"
    by (auto simp: markRenameResult_def markRenameResultUpdate_def updateSessionStoreEntry_def
          resolveRetryDelayMs_def NOT_FOUND_RETRY_MS_def)
next
  assume a: "1 \<le> maxEntries store \<and>
    applyThreadTitle icm provider target primaryText fallbackText maxChars now store
      = (res, store', calls) \<and>
    outcome res = OutcomeFailed \<and> errorClass res = Some NotFound"
  then obtain key t' err where k: "key \<noteq> []" "resultThreadKey res = Some key"
    and cls: "errorClass res = Some (errorClassOf provider err)"
    and st: "store' = setStoreState (setStoreState store (baseStateOf key now t' (storeGet store key)))
                      (if errorClassOf provider err = Permission \<or>
                          errorClassOf provider err = NotFound
                       then (baseStateOf key now t' (storeGet store key))
                              \<lparr>status := Disabled,
                               lastErrorClass := Some (errorClassOf provider err)\<rparr>
                       else (baseStateOf key now t' (storeGet store key))
                              \<lparr>status := RetryAfter,
                               retryAfter := Some (numAdd (Finite (of_int now)) (numMax (Finite 1000)
                                 (retryDelayOf provider err (errorClassOf provider err)))),
                               lastErrorClass := Some (errorClassOf provider err)\<rparr>)"
    using applyThreadTitle_failed[of icm provider target primaryText fallbackText maxChars now
            store res store' calls] by blast
  from cls a have nf: "errorClassOf provider err = NotFound" by simp
  let ?fin = "(baseStateOf key now t' (storeGet store key))
                \<lparr>status := Disabled, lastErrorClass := Some NotFound\<rparr>"
  have "storeGet store' key = Some ?fin"
    using storeGet_setStoreState[of "setStoreState store (baseStateOf key now t' (storeGet store key))" ?fin]
      a k st nf by simp
  then show "\<exists>key st. resultThreadKey res = Some key \<and> storeGet store' key = Some st \<and>
                status st = Disabled \<and> lastErrorClass st = Some NotFound"
    using k by simp
qed

theorem not_found_backoff_in_manager_witness:
  "Some ''agent:main'' \<noteq> None \<and> Some ''agent:main'' \<noteq> Some [] \<and>
   threadKey coolingState = exampleKey \<and>
   (\<exists>s'. markRenameResult (Some ''agent:main'') exampleKey ''Ship release checklist'' 2
            (Some NotFound) 5000 5001 (Some coolingState) = Some s' \<and>
         status s' = RetryAfter \<and> lastErrorClass s' = Some NotFound \<and>
         retryAfter s' = Some (5001 + 1800000)) \<and>
   1 \<le> maxEntries emptyStore \<and>
   outcome (fst (runWith (rejectingProvider NotFound))) = OutcomeFailed \<and>
   errorClass (fst (runWith (rejectingProvider NotFound))) = Some NotFound \<and>
   (\<exists>key st. resultThreadKey (fst (runWith (rejectingProvider NotFound))) = Some key \<and>
              storeGet (fst (snd (runWith (rejectingProvider NotFound)))) key = Some st \<and>
              status st = Disabled \<and> lastErrorClass st = Some NotFound)"
proof -
  let ?p = "rejectingProvider NotFound"
  have m: "Some ''agent:main'' \<noteq> None \<and> Some ''agent:main'' \<noteq> Some [] \<and>
           threadKey coolingState = exampleKey"
    by (simp add: coolingState_def)
  have cap: "1 \<le> maxEntries emptyStore"
    by (simp add: emptyStore_def createInMemoryThreadTitleStateStore_def DEFAULT_MAX_ENTRIES_def)
  have run: "applyThreadTitle stopIsControl ?p exampleTarget
               (Some ''Ship release checklist'') None 80 1000 emptyStore
             = (fst (runWith ?p), fst (snd (runWith ?p)), snd (snd (runWith ?p)))"
    by (simp add: runWith_def)
  have failed: "outcome (fst (runWith ?p)) = OutcomeFailed"
    and cls: "errorClass (fst (runWith ?p)) = Some NotFound"
    by code_simp+
  from not_found_backoff_in_manager[of "Some ''agent:main''" coolingState exampleKey
         "''Ship release checklist''" 2 5000 5001 emptyStore stopIsControl ?p exampleTarget
         "Some ''Ship release checklist''" None 80 1000 "fst (runWith ?p)"
         "fst (snd (runWith ?p))" "snd (snd (runWith ?p))"]
       m cap run failed cls
  show ?thesis by simp
qed

text \<open>
  Claim C4, as stated, fails in \<open>applyThreadTitle\<close>: after a first attempt that fails with
  an unknown error the retry is due 15000 ms later, not 60000 ms later.
\<close>

theorem unknown_fixed_delay_counterexample:
  "errorClass (fst (runWith (rejectingProvider Unknown))) = Some Unknown \<and>
   map_option attempts (storeGet (fst (snd (runWith (rejectingProvider Unknown)))) exampleKey)
     = Some (Some 1) \<and>
   map_option retryAfter (storeGet (fst (snd (runWith (rejectingProvider Unknown)))) exampleKey)
     = Some (Some (Finite (1000 + 15000))) \<and>
   (15000 :: int) \<noteq> min (60000 * 2 ^ nat (1 - 1)) 3600000"
  by code_simp

text \<open>
  Claim C4, amended. In the rename manager the delay after a failure of class \<open>unknown\<close>
  on the \<open>n\<close>-th attempt, \<open>n \<ge> 1\<close>, is \<open>min (60000 * 2 ^ (n - 1)) 3600000\<close> ms, and the
  state written has \<open>retryAfter\<close> that long after the clock reading. In \<open>applyThreadTitle\<close>
  the number of attempts plays no part: after a rejection of class \<open>unknown\<close> the state
  written has \<open>retryAfter\<close> \<open>now + Math.max(1000, delay)\<close>, where \<open>delay\<close> is what the
  provider's \<open>retryAfterMs\<close> returns for the error, and 15000 ms when the provider has no
  \<open>retryAfterMs\<close> or it returns nothing; unless the delay is \<open>NaN\<close>, this retry time is a
  time from \<open>now + 1000\<close> on.
\<close>

theorem unknown_backoff_in_manager:
  "(1 \<le> n \<longrightarrow> resolveRetryDelayMs Unknown n = min (60000 * 2 ^ nat (n - 1)) 3600000) \<and>
   (1 \<le> n \<and> sessionKey \<noteq> None \<and> sessionKey \<noteq> Some [] \<and> threadKey s = k \<longrightarrow>
      (\<exists>s'. markRenameResult sessionKey k t n (Some Unknown) t1 t2 (Some s) = Some s' \<and>
            status s' = RetryAfter \<and> lastErrorClass s' = Some Unknown \<and>
            retryAfter s' = Some (t2 + min (60000 * 2 ^ nat (n - 1)) 3600000))) \<and>
   (1 \<le> maxEntries store \<and>
    applyThreadTitle icm provider target primaryText fallbackText maxChars now store
      = (res, store', calls) \<and>
    outcome res = OutcomeFailed \<and> errorClass res = Some Unknown \<longrightarrow>
      (\<exists>key st title' err delay r.
         resultThreadKey res = Some key \<and> storeGet store' key = Some st \<and>
         title res = Some title' \<and> setTitle provider target title' = Some err \<and>
         delay = (case retryAfterMs provider of
                    None \<Rightarrow> Finite 15000
                  | Some hook \<Rightarrow> (case hook err Unknown of None \<Rightarrow> Finite 15000 | Some d \<Rightarrow> d)) \<and>
         status st = RetryAfter \<and> retryAfter st = Some r \<and>
         r = numAdd (Finite (of_int now)) (numMax (Finite 1000) delay) \<and>
         (delay \<noteq> NaN \<longrightarrow> r = PosInfinity \<or> (\<exists>x. r = Finite x \<and> of_int now + 1000 \<le> x))))"
proof (intro conjI impI)
  assume "1 \<le> n"
  then show "resolveRetryDelayMs Unknown n = min (60000 * 2 ^ nat (n - 1)) 3600000"
    by (simp add: resolveRetryDelayMs_def max_def)
next
  assume "1 \<le> n \<and> sessionKey \<noteq> None \<and> sessionKey \<noteq> Some [] \<and> threadKey s = k"
  then show "\<exists>s'. markRenameResult sessionKey k t n (Some Unknown) t1 t2 (Some s) = Some s' \<and>
            status s' = RetryAfter \<and> lastErrorClass s' = Some Unknown \<and>
            retryAfter s' = Some (t2 + min (60000 * 2 ^ nat (n - 1)) 3600000)"
    by (auto simp: markRenameResult_def markRenameResultUpdate_def updateSessionStoreEntry_def
          resolveRetryDelayMs_def max_def)
next
  assume a: "1 \<le> maxEntries store \<and>
    applyThreadTitle icm provider target primaryText fallbackText maxChars now store
      = (res, store', calls) \<and>
    outcome res = OutcomeFailed \<and> errorClass res = Some Unknown"
  then obtain key t' err where k: "key \<noteq> []" "resultThreadKey res = Some key"
    and tt: "title res = Some t'" and err: "setTitle provider target t' = Some err"
    and cls: "errorClass res = Some (errorClassOf provider err)"
    and st: "store' = setStoreState (setStoreState store (baseStateOf key now t' (storeGet store key)))
                      (if errorClassOf provider err = Permission \<or>
                          errorClassOf provider err = NotFound
                       then (baseStateOf key now t' (storeGet store key))
                              \<lparr>status := Disabled,
                               lastErrorClass := Some (errorClassOf provider err)\<rparr>
                       else (baseStateOf key now t' (storeGet store key))
                              \<lparr>status := RetryAfter,
                               retryAfter := Some (numAdd (Finite (of_int now)) (numMax (Finite 1000)
                                 (retryDelayOf provider err (errorClassOf provider err)))),
                               lastErrorClass := Some (errorClassOf provider err)\<rparr>)"
    using applyThreadTitle_failed[of icm provider target primaryText fallbackText maxChars now
            store res store' calls] by blast
  from cls a have un: "errorClassOf provider err = Unknown" by simp
  let ?delay = "case retryAfterMs provider of
                  None \<Rightarrow> Finite 15000
                | Some hook \<Rightarrow> (case hook err Unknown of None \<Rightarrow> Finite 15000 | Some d \<Rightarrow> d)"
  let ?r = "numAdd (Finite (of_int now)) (numMax (Finite 1000) ?delay)"
  have d: "retryDelayOf provider err Unknown = ?delay"
    by (simp add: retryDelayOf_def split: option.splits)
  let ?fin = "(baseStateOf key now t' (storeGet store key))
                \<lparr>status := RetryAfter, retryAfter := Some ?r, lastErrorClass := Some Unknown\<rparr>"
  have got: "storeGet store' key = Some ?fin"
    using storeGet_setStoreState[of "setStoreState store (baseStateOf key now t' (storeGet store key))" ?fin]
      a k st un d by simp
  have floor: "?delay \<noteq> NaN \<longrightarrow> ?r = PosInfinity \<or> (\<exists>x. ?r = Finite x \<and> of_int now + 1000 \<le> x)"
    by (cases ?delay) simp_all
  show "\<exists>key st title' err delay r.
         resultThreadKey res = Some key \<and> storeGet store' key = Some st \<and>
         title res = Some title' \<and> setTitle provider target title' = Some err \<and>
         delay = (case retryAfterMs provider of
                    None \<Rightarrow> Finite 15000
                  | Some hook \<Rightarrow> (case hook err Unknown of None \<Rightarrow> Finite 15000 | Some d \<Rightarrow> d)) \<and>
         status st = RetryAfter \<and> retryAfter st = Some r \<and>
         r = numAdd (Finite (of_int now)) (numMax (Finite 1000) delay) \<and>
         (delay \<noteq> NaN \<longrightarrow> r = PosInfinity \<or> (\<exists>x. r = Finite x \<and> of_int now + 1000 \<le> x))"
    using k tt err got floor
    by (intro exI[of _ key] exI[of _ ?fin] exI[of _ t'] exI[of _ err] exI[of _ ?delay]
          exI[of _ ?r]) simp
qed

theorem unknown_backoff_in_manager_witness:
  "(1 :: int) \<le> 3 \<and> resolveRetryDelayMs Unknown 3 = min (60000 * 2 ^ nat (3 - 1)) 3600000 \<and>
   resolveRetryDelayMs Unknown 3 = 240000 \<and>
   Some ''agent:main'' \<noteq> None \<and> Some ''agent:main'' \<noteq> Some [] \<and>
   threadKey coolingState = exampleKey \<and>
   (\<exists>s'. markRenameResult (Some ''agent:main'') exampleKey ''Ship release checklist'' 3
            (Some Unknown) 5000 5001 (Some coolingState) = Some s' \<and>
         status s' = RetryAfter \<and> lastErrorClass s' = Some Unknown \<and>
         retryAfter s' = Some (5001 + 240000)) \<and>
   1 \<le> maxEntries emptyStore \<and>
   outcome (fst (runWith (delayingProvider (Finite 7000)))) = OutcomeFailed \<and>
   errorClass (fst (runWith (delayingProvider (Finite 7000)))) = Some Unknown \<and>
   Finite 7000 \<noteq> NaN \<and>
   (\<exists>key st. resultThreadKey (fst (runWith (delayingProvider (Finite 7000)))) = Some key \<and>
              storeGet (fst (snd (runWith (delayingProvider (Finite 7000))))) key = Some st \<and>
              status st = RetryAfter \<and> retryAfter st = Some (Finite (1000 + 7000)))"
proof -
  let ?p = "delayingProvider (Finite 7000)"
  have n: "(1 :: int) \<le> 3" by simp
  have m: "Some ''agent:main'' \<noteq> None \<and> Some ''agent:main'' \<noteq> Some [] \<and>
           threadKey coolingState = exampleKey"
    by (simp add: coolingState_def)
  have cap: "1 \<le> maxEntries emptyStore"
    by (simp add: emptyStore_def createInMemoryThreadTitleStateStore_def DEFAULT_MAX_ENTRIES_def)
  have run: "applyThreadTitle stopIsControl ?p exampleTarget
               (Some ''Ship release checklist'') None 80 1000 emptyStore
             = (fst (runWith ?p), fst (snd (runWith ?p)), snd (snd (runWith ?p)))"
    by (simp add: runWith_def)
  have failed: "outcome (fst (runWith ?p)) = OutcomeFailed"
    and cls: "errorClass (fst (runWith ?p)) = Some Unknown"
    by code_simp+
  have hook: "retryAfterMs ?p = Some (\<lambda>_ _. Some (Finite 7000))"
    by (simp add: delayingProvider_def)
  from unknown_backoff_in_manager[of 3 "Some ''agent:main''" coolingState exampleKey
         "''Ship release checklist''" 5000 5001 emptyStore stopIsControl ?p exampleTarget
         "Some ''Ship release checklist''" None 80 1000 "fst (runWith ?p)"
         "fst (snd (runWith ?p))" "snd (snd (runWith ?p))"]
       n m cap run failed cls hook
  show ?thesis by auto
qed

text \<open>
  Claim C5, as stated, fails in \<open>applyThreadTitle\<close>: with a stored state \<open>retry_after\<close> of
  class \<open>unknown\<close> whose retry time lies ahead, a request whose title differs from the stored
  \<open>lastProposedTitle\<close> is skipped with reason \<open>cooldown\<close>.
\<close>

theorem cooldown_ignores_title_counterexample:
  "map_option status (storeGet coolingStore exampleKey) = Some RetryAfter \<and>
   map_option lastErrorClass (storeGet coolingStore exampleKey) = Some (Some Unknown) \<and>
   map_option retryAfter (storeGet coolingStore exampleKey) = Some (Some (Finite 61000)) \<and>
   map_option lastProposedTitle (storeGet coolingStore exampleKey) = Some (Some ''Old title'') \<and>
   deriveConversationTitle stopIsControl (Some ''Ship release checklist'') None 80
     = Some ''Ship release checklist'' \<and>
   applyThreadTitle stopIsControl acceptingProvider exampleTarget
     (Some ''Ship release checklist'') None 80 1000 coolingStore
     = (skipped ''cooldown'' (Some exampleKey), coolingStore, [])"
  by code_simp

text \<open>
  Claim C5, amended. In the rename manager, for a stored state \<open>retry_after\<close> of the same
  thread key: when its class is \<open>unknown\<close> and the proposed title differs from
  \<open>lastProposedTitle\<close>, the attempt goes ahead at once and the state becomes \<open>pending\<close>; when the
  title is the same or the class is not \<open>unknown\<close>, the attempt goes ahead exactly when
  \<open>now \<ge> retryAfter\<close> (times from the epoch on). \<open>applyThreadTitle\<close> has no such exception:
  while \<open>retryAfter\<close> lies ahead every request is skipped with reason \<open>cooldown\<close>.
\<close>

theorem early_retry_in_manager:
  "(sessionKey \<noteq> None \<and> sessionKey \<noteq> Some [] \<and> threadKey s = k \<and> status s = RetryAfter \<and>
    retryAfter s = Some r \<and> lastErrorClass s = Some Unknown \<and> lastProposedTitle s \<noteq> Some t \<longrightarrow>
      shouldApply (fst (markRenameAttempt sessionKey k t now (Some s))) \<and>
      map_option status (snd (markRenameAttempt sessionKey k t now (Some s))) = Some Pending) \<and>
   (sessionKey \<noteq> None \<and> sessionKey \<noteq> Some [] \<and> threadKey s = k \<and> status s = RetryAfter \<and>
    retryAfter s = Some r \<and> 0 \<le> now \<and>
    (lastProposedTitle s = Some t \<or> lastErrorClass s \<noteq> Some Unknown) \<longrightarrow>
      (shouldApply (fst (markRenameAttempt sessionKey k t now (Some s))) \<longleftrightarrow> r \<le> now)) \<and>
   (toLowerCase (trim (channel target)) \<noteq> [] \<and>
    toLowerCase (trim (channel target)) = toLowerCase (trim (providerChannel provider)) \<and>
    threadKeyFor provider target = Some key \<and> key \<noteq> [] \<and>
    storeGet store key = Some st \<and> status st = RetryAfter \<and> retryAfter st = Some r' \<and>
    numGreater r' (Finite (of_int now')) \<longrightarrow>
      applyThreadTitle icm provider target primaryText fallbackText maxChars now' store
        = (skipped ''cooldown'' (Some key), store, []))"
proof (intro conjI impI)
  assume "sessionKey \<noteq> None \<and> sessionKey \<noteq> Some [] \<and> threadKey s = k \<and> status s = RetryAfter \<and>
    retryAfter s = Some r \<and> lastErrorClass s = Some Unknown \<and> lastProposedTitle s \<noteq> Some t"
  then show "shouldApply (fst (markRenameAttempt sessionKey k t now (Some s)))"
    and "map_option status (snd (markRenameAttempt sessionKey k t now (Some s))) = Some Pending"
    by (simp_all add: markRenameAttempt_def markRenameAttemptUpdate_def
          updateSessionStoreEntry_def Let_def)
next
  assume "sessionKey \<noteq> None \<and> sessionKey \<noteq> Some [] \<and> threadKey s = k \<and> status s = RetryAfter \<and>
    retryAfter s = Some r \<and> 0 \<le> now \<and>
    (lastProposedTitle s = Some t \<or> lastErrorClass s \<noteq> Some Unknown)"
  then show "shouldApply (fst (markRenameAttempt sessionKey k t now (Some s))) \<longleftrightarrow> r \<le> now"
    by (auto simp: markRenameAttempt_def markRenameAttemptUpdate_def
          updateSessionStoreEntry_def Let_def)
next
  assume "toLowerCase (trim (channel target)) \<noteq> [] \<and>
    toLowerCase (trim (channel target)) = toLowerCase (trim (providerChannel provider)) \<and>
    threadKeyFor provider target = Some key \<and> key \<noteq> [] \<and>
    storeGet store key = Some st \<and> status st = RetryAfter \<and> retryAfter st = Some r' \<and>
    numGreater r' (Finite (of_int now'))"
  then show "applyThreadTitle icm provider target primaryText fallbackText maxChars now' store
        = (skipped ''cooldown'' (Some key), store, [])"
    using applyThreadTitle_cooldown by blast
qed


theorem early_retry_in_manager_witness:
  "Some ''agent:main'' \<noteq> None \<and> Some ''agent:main'' \<noteq> Some [] \<and>
   threadKey coolingState = exampleKey \<and> status coolingState = RetryAfter \<and>
   retryAfter coolingState = Some 61000 \<and> lastErrorClass coolingState = Some Unknown \<and>
   lastProposedTitle coolingState \<noteq> Some ''New title'' \<and>
   shouldApply (fst (markRenameAttempt (Some ''agent:main'') exampleKey ''New title'' 1000
                       (Some coolingState))) \<and>
   (0 :: int) \<le> 1000 \<and> lastProposedTitle coolingState = Some ''Old title'' \<and>
   \<not> shouldApply (fst (markRenameAttempt (Some ''agent:main'') exampleKey ''Old title'' 1000
                         (Some coolingState))) \<and>
   threadKeyFor acceptingProvider exampleTarget = Some exampleKey \<and>
   storeGet coolingStore exampleKey = Some coolingEntry \<and>
   status coolingEntry = RetryAfter \<and> retryAfter coolingEntry = Some (Finite 61000) \<and>
   numGreater (Finite 61000) (Finite 1000) \<and>
   applyThreadTitle stopIsControl acceptingProvider exampleTarget
     (Some ''Ship release checklist'') None 80 1000 coolingStore
     = (skipped ''cooldown'' (Some exampleKey), coolingStore, [])"
proof -
  have s: "threadKey coolingState = exampleKey" "status coolingState = RetryAfter"
    "retryAfter coolingState = Some 61000" "lastErrorClass coolingState = Some Unknown"
    "lastProposedTitle coolingState = Some ''Old title''"
    by (simp_all add: coolingState_def)
  have neq: "lastProposedTitle coolingState \<noteq> Some ''New title''"
    by (simp add: coolingState_def)
  have ch: "toLowerCase (trim (channel exampleTarget)) \<noteq> []"
    "toLowerCase (trim (channel exampleTarget))
       = toLowerCase (trim (providerChannel acceptingProvider))"
    by code_simp+
  have key: "threadKeyFor acceptingProvider exampleTarget = Some exampleKey" "exampleKey \<noteq> []"
    by code_simp+
  have got: "storeGet coolingStore exampleKey = Some coolingEntry"
    by code_simp
  have e: "status coolingEntry = RetryAfter" "retryAfter coolingEntry = Some (Finite 61000)"
    "numGreater (Finite 61000) (Finite 1000)"
    by (simp_all add: coolingEntry_def)
  from early_retry_in_manager[of "Some ''agent:main''" coolingState exampleKey 61000
         "''New title''" 1000 exampleTarget acceptingProvider exampleKey coolingStore
         coolingEntry "Finite 61000" 1000 stopIsControl "Some ''Ship release checklist''" None 80]
       early_retry_in_manager[of "Some ''agent:main''" coolingState exampleKey 61000
         "''Old title''" 1000 exampleTarget acceptingProvider exampleKey coolingStore
         coolingEntry "Finite 61000" 1000 stopIsControl "Some ''Ship release checklist''" None 80]
       s neq ch key got e
  show ?thesis by simp
qed

section \<open>Properties of the title module\<close>

lemma slash_status_rejected:
  "candidateFromSource normalizeAttachmentTokens (Some ''/status'') = None"
  "candidateFromSource stripMediaPlaceholderTokens (Some ''/status'') = None"
  by code_simp+

lemma login_bug_candidate:
  "candidateFromSource normalizeAttachmentTokens (Some ''Investigate login bug'')
     = Some ''Investigate login bug''"
  "candidateFromSource stripMediaPlaceholderTokens (Some ''Investigate login bug'')
     = Some ''Investigate login bug''"
  "stripTrailingPunctuation ''Investigate login bug'' = ''Investigate login bug''"
  by code_simp+

lemma candidateFromSource_None [simp]: "candidateFromSource f None = None"
  by (simp add: candidateFromSource_def)

lemma titleFromSource_rejected:
  "candidateFromSource f src = None \<Longrightarrow> titleFromSource f icm m src = None"
  by (simp add: titleFromSource_def)

lemma titleFromSource_kept:
  assumes "candidateFromSource f src = Some t" and "\<not> icm t" and "length t \<le> m"
    and "stripTrailingPunctuation t = t" and "3 \<le> length t"
  shows "titleFromSource f icm m src = Some t"
proof -
  from assms(5) have "t \<noteq> []" by auto
  then show ?thesis using assms by (simp add: titleFromSource_def Let_def)
qed

lemma deriveWith_primary:
  assumes "candidateFromSource f p = Some t" and "\<not> icm t" and "int (length t) \<le> maxChars"
    and "stripTrailingPunctuation t = t" and "3 \<le> length t"
  shows "deriveWith f icm p fb maxChars = Some t"
proof -
  from assms(3) have "length t \<le> nat (max 1 maxChars)" by simp
  from titleFromSource_kept[where icm = icm, OF assms(1,2) this assms(4,5)] show ?thesis
    by (simp add: deriveWith_def Let_def)
qed

lemma deriveWith_fallback:
  assumes "candidateFromSource f p = None"
    and "candidateFromSource f fb = Some t" and "\<not> icm t" and "int (length t) \<le> maxChars"
    and "stripTrailingPunctuation t = t" and "3 \<le> length t"
  shows "deriveWith f icm p fb maxChars = Some t"
proof -
  from assms(4) have "length t \<le> nat (max 1 maxChars)" by simp
  from titleFromSource_kept[where icm = icm, OF assms(2,3) this assms(5,6)]
    titleFromSource_rejected[OF assms(1)]
  show ?thesis by (simp add: deriveWith_def Let_def)
qed

lemma deriveWith_nothing:
  "candidateFromSource f p = None \<Longrightarrow> deriveWith f icm p None maxChars = None"
  by (simp add: deriveWith_def Let_def titleFromSource_rejected)



section \<open>Properties of the LLM title generator\<close>

text \<open>
  Claim C9. The generator never throws: in both listings, for every input and every
  outcome of the outside calls, \<open>generateThreadTitleViaLLM\<close> resolves, to \<open>undefined\<close> or
  to a sanitized title.
\<close>

theorem generateThreadTitleViaLLM_never_throws:
  "(\<exists>r. generateThreadTitleViaLLM parseModelRef env cfg primaryText fallbackText maxChars
           modelRef timeoutMs = Inr r \<and>
         (r = None \<or> (\<exists>raw. r = sanitizeLlmTitleCandidate raw))) \<and>
   (\<exists>r. generateThreadTitleViaLLM2 parseModelRef fetch processEnv cfg primaryText fallbackText
           maxChars modelRef timeoutMs = Inr r \<and>
         (r = None \<or> (\<exists>raw. r = sanitizeLlmTitleCandidate raw)))"
proof
  show "\<exists>r. generateThreadTitleViaLLM parseModelRef env cfg primaryText fallbackText maxChars
           modelRef timeoutMs = Inr r \<and>
         (r = None \<or> (\<exists>raw. r = sanitizeLlmTitleCandidate raw))"
    by (auto simp: generateThreadTitleViaLLM_def catchAll_def agentTitleBody_def Let_def
             split: option.splits sum.splits prod.splits)
next
  show "\<exists>r. generateThreadTitleViaLLM2 parseModelRef fetch processEnv cfg primaryText fallbackText
           maxChars modelRef timeoutMs = Inr r \<and>
         (r = None \<or> (\<exists>raw. r = sanitizeLlmTitleCandidate raw))"
    by (auto simp: generateThreadTitleViaLLM2_def catchAll_def fetchTitleBody_def Let_def
             split: option.splits sum.splits prod.splits)
qed

text \<open>The body of the \<open>try\<close> block does throw: a request that rejects, and a body that is \<open>null\<close>.\<close>

lemma fetchTitleBody_rejects:
  "fetchTitleBody (\<lambda>_. Inl e) prov model prompt apiKey timeoutMs = Inl (External e)"
  by (simp add: fetchTitleBody_def fetchGoogleTitle_def fetchAnthropicTitle_def)

lemma fetchTitleBody_null_body:
  "fetchTitleBody (\<lambda>_. Inr \<lparr>ok = True, httpStatus = 200, bodyText = Inr ''null'',
                              bodyJson = Inr JNull\<rparr>) prov model prompt apiKey timeoutMs
     = Inl TypeError"
  by (simp add: fetchTitleBody_def fetchGoogleTitle_def fetchAnthropicTitle_def member_def)

section \<open>Properties of the matcher\<close>

lemma after_simps [simp]:
  "after p [] = p"
  "after p (c # cs) = after (Some c) cs"
  by (simp_all add: after_def)

lemma after_append [simp]: "after p (xs @ ys) = after (after p xs) ys"
  by (induction xs arbitrary: p) simp_all

lemma bt_Cls:
  "bt (Cls P) k \<lparr>prev = p, rest = s, cap = g\<rparr> =
     (case s of [] \<Rightarrow> None | c # cs \<Rightarrow> if P c then k \<lparr>prev = Some c, rest = cs, cap = g\<rparr> else None)"
  by (simp split: list.splits)

lemma bt_Cls_Nil [simp]: "bt (Cls P) k \<lparr>prev = p, rest = [], cap = g\<rparr> = None"
  by simp

lemma bt_Cls_Cons [simp]:
  "bt (Cls P) k \<lparr>prev = p, rest = c # cs, cap = g\<rparr> =
     (if P c then k \<lparr>prev = Some c, rest = cs, cap = g\<rparr> else None)"
  by simp

lemma bt_Star: "bt (Star a) k \<lparr>prev = p, rest = s, cap = g\<rparr>
                  = star_loop (bt a) (length s) k \<lparr>prev = p, rest = s, cap = g\<rparr>"
  by simp

lemma bt_Eps [simp]: "bt rx.Eps k = k"
  by (rule ext) simp

lemma bt_Seq [simp]: "bt (Seq a b) k = bt a (bt b k)"
  by (rule ext) simp

lemma bt_Alt:
  "bt (Alt a b) k st = (case bt a k st of Some x \<Rightarrow> Some x | None \<Rightarrow> bt b k st)"
  by simp

lemma bt_Bol [simp]: "bt Bol k st = (if prev st = None then k st else None)"
  by simp

lemma bt_Eol [simp]: "bt Eol k st = (if rest st = [] then k st else None)"
  by simp

declare bt.simps [simp del]

lemma bt_seqs_Nil [simp]: "bt (seqs []) k = k"
  by (simp add: seqs_def)

lemma bt_seqs_Cons [simp]: "bt (seqs (r # rs)) k = bt r (bt (seqs rs) k)"
  by (simp add: seqs_def)

lemma bt_liti:
  "bt (liti w) k \<lparr>prev = p, rest = s, cap = g\<rparr> =
     (if length w \<le> length s \<and> map toLowerChar (take (length w) s) = map toLowerChar w
      then k \<lparr>prev = after p (take (length w) s), rest = drop (length w) s, cap = g\<rparr>
      else None)"
proof (induction w arbitrary: p s)
  case Nil
  then show ?case by (simp add: liti_def)
next
  case (Cons c w)
  have step: "bt (liti (c # w)) k st =
      bt (Cls (\<lambda>x. toLowerChar x = toLowerChar c)) (bt (liti w) k) st" for st
    by (simp add: liti_def)
  show ?case
  proof (cases s)
    case Nil
    then show ?thesis by (simp add: step)
  next
    case (Cons d ds)
    then show ?thesis using Cons.IH[of "Some d" ds] by (auto simp: step)
  qed
qed

lemma bt_lit:
  "bt (lit w) k \<lparr>prev = p, rest = s, cap = g\<rparr> =
     (if length w \<le> length s \<and> take (length w) s = w
      then k \<lparr>prev = after p w, rest = drop (length w) s, cap = g\<rparr>
      else None)"
proof (induction w arbitrary: p s)
  case Nil
  then show ?case by (simp add: lit_def)
next
  case (Cons c w)
  have step: "bt (lit (c # w)) k st = bt (Cls (\<lambda>x. x = c)) (bt (lit w) k) st" for st
    by (simp add: lit_def)
  show ?case
  proof (cases s)
    case Nil
    then show ?thesis by (simp add: step)
  next
    case (Cons d ds)
    then show ?thesis using Cons.IH[of "Some d" ds] by (auto simp: step)
  qed
qed

text \<open>A greedy run of one character class.\<close>

lemma star_cls_greedy:
  assumes "k \<lparr>prev = after p (takeWhile P s), rest = dropWhile P s, cap = g\<rparr> = Some x"
    and "length s \<le> n"
  shows "star_loop (bt (Cls P)) n k \<lparr>prev = p, rest = s, cap = g\<rparr> = Some x"
  using assms
proof (induction s arbitrary: p n)
  case Nil
  then show ?case by (cases n) simp_all
next
  case (Cons c cs)
  show ?case
  proof (cases "P c")
    case True
    from Cons.prems(2) obtain n' where n: "n = Suc n'" and le: "length cs \<le> n'"
      by (cases n) auto
    from Cons.prems(1) True
    have "k \<lparr>prev = after (Some c) (takeWhile P cs), rest = dropWhile P cs, cap = g\<rparr> = Some x"
      by simp
    from Cons.IH[OF this le] True show ?thesis by (simp add: n)
  next
    case False
    with Cons.prems(1) show ?thesis by (cases n) simp_all
  qed
qed

lemma star_cls_cases:
  assumes "star_loop (bt (Cls P)) n k \<lparr>prev = p, rest = s, cap = g\<rparr> = Some x"
  shows "\<exists>i \<le> length (takeWhile P s).
           k \<lparr>prev = after p (take i s), rest = drop i s, cap = g\<rparr> = Some x"
  using assms
proof (induction n arbitrary: p s)
  case 0
  then show ?case by auto
next
  case (Suc n)
  show ?case
  proof (cases s)
    case Nil
    with Suc.prems show ?thesis by simp
  next
    case (Cons c cs)
    show ?thesis
    proof (cases "P c \<and> star_loop (bt (Cls P)) n k
                             \<lparr>prev = Some c, rest = cs, cap = g\<rparr> \<noteq> None")
      case True
      with Suc.prems Cons
      have "star_loop (bt (Cls P)) n k \<lparr>prev = Some c, rest = cs, cap = g\<rparr> = Some x"
        by auto
      from Suc.IH[OF this] obtain i where "i \<le> length (takeWhile P cs)"
        and "k \<lparr>prev = after (Some c) (take i cs), rest = drop i cs, cap = g\<rparr> = Some x"
        by blast
      then have "Suc i \<le> length (takeWhile P s) \<and>
                 k \<lparr>prev = after p (take (Suc i) s), rest = drop (Suc i) s, cap = g\<rparr> = Some x"
        using True Cons by simp
      then show ?thesis by blast
    next
      case False
      with Suc.prems Cons have "k \<lparr>prev = p, rest = s, cap = g\<rparr> = Some x"
        by (auto split: if_splits option.splits)
      then show ?thesis by (intro exI[of _ 0]) simp
    qed
  qed
qed

lemma bt_Star_greedy:
  assumes "k \<lparr>prev = after p (takeWhile P s), rest = dropWhile P s, cap = g\<rparr> = Some x"
  shows "bt (Star (Cls P)) k \<lparr>prev = p, rest = s, cap = g\<rparr> = Some x"
  using star_cls_greedy[where k = k and P = P and s = s and n = "length s", OF assms]
  by (simp add: bt_Star)

lemma bt_Star_cases:
  assumes "bt (Star (Cls P)) k \<lparr>prev = p, rest = s, cap = g\<rparr> = Some x"
  shows "\<exists>i \<le> length (takeWhile P s).
           k \<lparr>prev = after p (take i s), rest = drop i s, cap = g\<rparr> = Some x"
  using star_cls_cases[of P "length s" k p s g x] assms by (simp add: bt_Star)

lemma bt_Star_fail:
  assumes "\<And>i. i \<le> length (takeWhile P s) \<Longrightarrow>
             k \<lparr>prev = after p (take i s), rest = drop i s, cap = g\<rparr> = None"
  shows "bt (Star (Cls P)) k \<lparr>prev = p, rest = s, cap = g\<rparr> = None"
proof (rule ccontr)
  assume "bt (Star (Cls P)) k \<lparr>prev = p, rest = s, cap = g\<rparr> \<noteq> None"
  then obtain x where "bt (Star (Cls P)) k \<lparr>prev = p, rest = s, cap = g\<rparr> = Some x" by auto
  from bt_Star_cases[OF this] assms show False by auto
qed

lemma bt_Plus [simp]: "bt (Plus r) k = bt r (bt (Star r) k)"
  by (simp add: Plus_def)

lemma bt_Opt:
  "bt (Opt r) k st = (case bt r k st of Some x \<Rightarrow> Some x | None \<Rightarrow> k st)"
  by (simp add: Opt_def bt_Alt split: option.splits)

text \<open>The replacement scan.\<close>

lemma replaceAll_go_skip:
  "replaceAll_go r f (length xs) p (xs @ s) = replaceAll_go r f 0 (after p xs) s"
  by (induction xs arbitrary: p) simp_all

lemma replaceAll_go_copy:
  "exec r p (c # s) = None \<Longrightarrow>
   replaceAll_go r f 0 p (c # s) = c # replaceAll_go r f 0 (Some c) s"
  by simp

lemma replaceAll_go_match:
  assumes "exec r p (tok @ s) = Some (length tok, g)" and "tok \<noteq> []"
  shows "replaceAll_go r f 0 p (tok @ s) = f g @ replaceAll_go r f 0 (after p tok) s"
proof -
  from assms(2) obtain c cs where tok: "tok = c # cs" by (cases tok) auto
  have "replaceAll_go r f (length cs) (Some c) (cs @ s) = replaceAll_go r f 0 (after (Some c) cs) s"
    by (rule replaceAll_go_skip)
  then show ?thesis using assms(1) by (simp add: tok)
qed

lemma replaceAll_go_copy_run:
  assumes "\<And>c p s. c \<in> set xs \<Longrightarrow> exec r p (c # s) = None"
  shows "replaceAll_go r f 0 p (xs @ s) = xs @ replaceAll_go r f 0 (after p xs) s"
  using assms
proof (induction xs arbitrary: p)
  case Nil
  then show ?case by simp
next
  case (Cons c cs)
  have "exec r p (c # cs @ s) = None" using Cons.prems by simp
  moreover have "replaceAll_go r f 0 (Some c) (cs @ s) = cs @ replaceAll_go r f 0 (after (Some c) cs) s"
    using Cons.IH Cons.prems by simp
  ultimately show ?case by simp
qed

lemma replaceAll_go_Nil:
  "exec r p [] = None \<Longrightarrow> replaceAll_go r f n p [] = []"
  by simp

lemma run_then_stop:
  "\<forall>c \<in> set xs. P c \<Longrightarrow> \<not> P x \<Longrightarrow>
   takeWhile P (xs @ x # l) = xs \<and> dropWhile P (xs @ x # l) = x # l"
  by (induction xs) auto

lemma isSpace_not_special [simp]:
  "isSpace c \<Longrightarrow> c \<noteq> CHR ''(''" "isSpace c \<Longrightarrow> c \<noteq> CHR ''<''"
  "isSpace c \<Longrightarrow> c \<noteq> CHR ''[''" "isSpace c \<Longrightarrow> c \<noteq> CHR '']''"
  "isSpace c \<Longrightarrow> c \<noteq> CHR ''>''"
  by (auto simp: isSpace_def)

lemma isSpace_special [simp]:
  "\<not> isSpace CHR ''<''" "\<not> isSpace CHR ''>''" "\<not> isSpace CHR ''[''" "\<not> isSpace CHR '']''"
  "\<not> isSpace CHR ''(''" "\<not> isSpace CHR '':''" "isSpace CHR '' ''"
  by (simp_all add: isSpace_def)

lemma toLowerChar_fixed [simp]:
  "toLowerChar c = CHR ''<'' \<longleftrightarrow> c = CHR ''<''"
  "toLowerChar c = CHR ''['' \<longleftrightarrow> c = CHR ''[''"
  "toLowerChar c = CHR '']'' \<longleftrightarrow> c = CHR '']''"
  "toLowerChar c = CHR ''('' \<longleftrightarrow> c = CHR ''(''"
  by (cases c; auto simp: toLowerChar_Char)+

lemma bt_liti_match:
  "bt (liti w) k \<lparr>prev = p, rest = w @ r, cap = g\<rparr> = k \<lparr>prev = after p w, rest = r, cap = g\<rparr>"
  by (simp add: bt_liti)

lemma bt_liti_mismatch:
  assumes "w \<noteq> []" and "s = [] \<or> toLowerChar (hd s) \<noteq> toLowerChar (hd w)"
  shows "bt (liti w) k \<lparr>prev = p, rest = s, cap = g\<rparr> = None"
proof -
  from assms(1) obtain c cs where w: "w = c # cs" by (cases w) auto
  show ?thesis using assms(2) by (cases s) (auto simp: bt_liti w)
qed

text \<open>The mention pattern needs \<open><@\<close>.\<close>

lemma exec_mention_none:
  assumes "s = [] \<or> hd s \<noteq> CHR ''<'' \<or> tl s = [] \<or> hd (tl s) \<noteq> CHR ''@''"
  shows "exec MENTION_RE p s = None"
proof -
  have "\<not> (length ''<@'' \<le> length s \<and> take (length ''<@'') s = ''<@'')"
    using assms by (cases s; cases "tl s") auto
  then show ?thesis
    by (auto simp: exec_def MENTION_RE_def bt_lit)
qed

text \<open>Up to the closing bracket.\<close>

lemma noneOf_single: "noneOf [c] = Cls (\<lambda>x. x \<noteq> c)"
  by (simp add: noneOf_def)

lemma run_to_char:
  "c \<notin> set u \<Longrightarrow>
   takeWhile (\<lambda>x. x \<noteq> c) (u @ c # r) = u \<and> dropWhile (\<lambda>x. x \<noteq> c) (u @ c # r) = c # r"
  by (induction u) auto

lemma close_bracket:
  assumes "CHR '']'' \<notin> set u"
  shows "bt (Star (noneOf '']'')) (bt (liti '']'') k) \<lparr>prev = p, rest = u @ CHR '']'' # r, cap = g\<rparr>
           = k \<lparr>prev = Some CHR '']'', rest = r, cap = g\<rparr>"
proof -
  let ?P = "\<lambda>x. x \<noteq> CHR '']''"
  have run: "takeWhile ?P (u @ CHR '']'' # r) = u" "dropWhile ?P (u @ CHR '']'' # r) = CHR '']'' # r"
    using run_to_char[OF assms] by auto
  have at_end: "bt (liti '']'') k \<lparr>prev = q, rest = CHR '']'' # r, cap = g\<rparr>
                  = k \<lparr>prev = Some CHR '']'', rest = r, cap = g\<rparr>" for q
    using bt_liti_match[of "'']''" k q r g] by simp
  show ?thesis
  proof (cases "k \<lparr>prev = Some CHR '']'', rest = r, cap = g\<rparr>")
    case (Some x)
    have "bt (Star (Cls ?P)) (bt (liti '']'') k) \<lparr>prev = p, rest = u @ CHR '']'' # r, cap = g\<rparr>
            = Some x"
      by (rule bt_Star_greedy) (simp add: run at_end Some)
    then show ?thesis using Some by (simp add: noneOf_single)
  next
    case None
    have "bt (Star (Cls ?P)) (bt (liti '']'') k) \<lparr>prev = p, rest = u @ CHR '']'' # r, cap = g\<rparr> = None"
    proof (rule bt_Star_fail)
      fix i assume "i \<le> length (takeWhile ?P (u @ CHR '']'' # r))"
      then have i: "i \<le> length u" by (simp add: run)
      show "bt (liti '']'') k \<lparr>prev = after p (take i (u @ CHR '']'' # r)),
                                rest = drop i (u @ CHR '']'' # r), cap = g\<rparr> = None"
      proof (cases "i = length u")
        case True
        then show ?thesis using None by (simp add: at_end)
      next
        case False
        with i have lt: "i < length u" by simp
        then have "hd (drop i (u @ CHR '']'' # r)) = u ! i"
          by (simp add: hd_drop_conv_nth nth_append)
        moreover have "u ! i \<noteq> CHR '']''" using assms lt by (metis nth_mem)
        moreover have "drop i (u @ CHR '']'' # r) \<noteq> []" using lt by simp
        ultimately show ?thesis
          by (intro bt_liti_mismatch) (auto simp: toLowerChar_Char)
      qed
    qed
    then show ?thesis using None by (simp add: noneOf_single)
  qed
qed


text \<open>The media pattern on a media token.\<close>

lemma spaces_then_no_paren:
  assumes "dropWhile isSpace r = [] \<or> hd (dropWhile isSpace r) \<noteq> CHR ''(''"
    and "i \<le> length (takeWhile isSpace r)"
  shows "drop i r = [] \<or> hd (drop i r) \<noteq> CHR ''(''"
proof (cases "i = length (takeWhile isSpace r)")
  case True
  then have "drop i r = dropWhile isSpace r"
    by (metis append_eq_conv_conj takeWhile_dropWhile_id)
  then show ?thesis using assms(1) by simp
next
  case False
  with assms(2) have lt: "i < length (takeWhile isSpace r)" by simp
  then have "i < length r" using length_takeWhile_le[of isSpace r] by simp
  then have "hd (drop i r) = r ! i" by (simp add: hd_drop_conv_nth)
  also have "\<dots> = takeWhile isSpace r ! i" using lt by (simp add: takeWhile_nth)
  finally have "isSpace (hd (drop i r))"
    using lt by (metis nth_mem set_takeWhileD)
  then show ?thesis by auto
qed

lemma no_paren_group:
  assumes "dropWhile isSpace r = [] \<or> hd (dropWhile isSpace r) \<noteq> CHR ''(''"
  shows "bt (Star (Cls isSpace)) (bt (liti ''('') K) \<lparr>prev = q, rest = r, cap = g\<rparr> = None"
proof (rule bt_Star_fail)
  fix i assume "i \<le> length (takeWhile isSpace r)"
  from spaces_then_no_paren[OF assms this]
  show "bt (liti ''('') K \<lparr>prev = after q (take i r), rest = drop i r, cap = g\<rparr> = None"
    by (intro bt_liti_mismatch) (auto simp: toLowerChar_Char)
qed

lemma exec_media_first:
  "s = [] \<or> hd s \<noteq> CHR ''<'' \<Longrightarrow> exec ATTACHMENT_PLACEHOLDER_TOKEN_RE p s = None"
  unfolding exec_def ATTACHMENT_PLACEHOLDER_TOKEN_RE_def bt_seqs_Cons
  by (rule bt_liti_mismatch) (auto simp: toLowerChar_Char)

lemma exec_media_token:
  assumes body: "body \<noteq> []" "CHR ''>'' \<notin> set body"
    and ahead: "dropWhile isSpace r = [] \<or> hd (dropWhile isSpace r) \<noteq> CHR ''(''"
  shows "exec ATTACHMENT_PLACEHOLDER_TOKEN_RE p (''<media:'' @ body @ ''>'' @ r)
           = Some (length body + 8, None)"
proof -
  let ?s = "''<media:'' @ body @ ''>'' @ r"
  let ?k = "\<lambda>st. Some (length ?s - length (rest st), cap st)"
  let ?G = "seqs [Star (Cls isSpace), liti ''('', Star (noneOf '')''), liti '')'']"
  from body(1) obtain b bs where b: "body = b # bs" by (cases body) auto
  have run: "takeWhile (\<lambda>x. x \<noteq> CHR ''>'') (bs @ CHR ''>'' # r) = bs"
    "dropWhile (\<lambda>x. x \<noteq> CHR ''>'') (bs @ CHR ''>'' # r) = CHR ''>'' # r"
    using run_to_char[of "CHR ''>''" bs r] body(2) b by auto
  have group: "bt ?G ?k \<lparr>prev = q, rest = r, cap = None\<rparr> = None" for q
    by (simp add: bt_Opt no_paren_group[OF ahead])
  have tail: "bt (seqs [liti ''>'', Opt ?G]) ?k \<lparr>prev = q, rest = CHR ''>'' # r, cap = None\<rparr>
                = Some (length body + 8, None)" for q
    using bt_liti_match[of "''>''" "bt (seqs [Opt ?G]) ?k" q r None]
    by (simp add: bt_Opt no_paren_group[OF ahead])
  have plus: "bt (Star (Cls (\<lambda>x. x \<noteq> CHR ''>''))) (bt (seqs [liti ''>'', Opt ?G]) ?k)
                \<lparr>prev = Some b, rest = bs @ CHR ''>'' # r, cap = None\<rparr>
                = Some (length body + 8, None)"
    using tail[of "after (Some b) bs"] by (intro bt_Star_greedy) (simp add: run)
  have "bt (seqs [Plus (noneOf ''>''), liti ''>'', Opt ?G]) ?k
          \<lparr>prev = Some CHR '':'', rest = body @ CHR ''>'' # r, cap = None\<rparr>
          = Some (length body + 8, None)"
    using body(2) plus by (auto simp: noneOf_single b)
  then show ?thesis
    unfolding exec_def ATTACHMENT_PLACEHOLDER_TOKEN_RE_def
    using bt_liti_match[of "''<media:''"
            "bt (seqs [Plus (noneOf ''>''), liti ''>'', Opt ?G]) ?k" p "body @ ''>'' @ r" None]
    by simp
qed

lemma bt_liti1_Cons:
  "bt (liti [c]) K \<lparr>prev = p, rest = d # s, cap = g\<rparr> =
     (if toLowerChar d = toLowerChar c then K \<lparr>prev = Some d, rest = s, cap = g\<rparr> else None)"
  by (simp add: bt_liti)

lemma bt_liti1_Nil: "bt (liti [c]) K \<lparr>prev = p, rest = [], cap = g\<rparr> = None"
  by (simp add: bt_liti)

lemma bt_liti_Some:
  assumes "bt (liti w) K \<lparr>prev = p, rest = s, cap = g\<rparr> = Some x"
  shows "length w \<le> length s \<and> map toLowerChar (take (length w) s) = map toLowerChar w \<and>
         K \<lparr>prev = after p (take (length w) s), rest = drop (length w) s, cap = g\<rparr> = Some x"
  using assms by (simp add: bt_liti split: if_splits)

lemma takeWhile_stops:
  "\<not> P d \<Longrightarrow> length (takeWhile P (xs @ d # ys)) \<le> length xs"
  by (induction xs) auto

text \<open>A run that gives characters back until the rest of the pattern matches.\<close>

lemma star_cls_total:
  assumes "i \<le> length (takeWhile P s)"
    and "K \<lparr>prev = after p (take i s), rest = drop i s, cap = g\<rparr> \<noteq> None"
    and "length s \<le> n"
  shows "star_loop (bt (Cls P)) n K \<lparr>prev = p, rest = s, cap = g\<rparr> \<noteq> None"
  using assms
proof (induction n arbitrary: i p s)
  case 0
  then show ?case by simp
next
  case (Suc n)
  show ?case
  proof (cases i)
    case 0
    with Suc.prems(2) show ?thesis by (auto split: option.splits)
  next
    case (Suc j)
    with Suc.prems(1) obtain c cs where s: "s = c # cs" by (cases s) auto
    with Suc.prems(1) \<open>i = Suc j\<close> have c: "P c" and j: "j \<le> length (takeWhile P cs)"
      by (auto split: if_splits)
    have "K \<lparr>prev = after (Some c) (take j cs), rest = drop j cs, cap = g\<rparr> \<noteq> None"
      using Suc.prems(2) by (simp add: s \<open>i = Suc j\<close>)
    from Suc.IH[OF j this] Suc.prems(3)
    have "star_loop (bt (Cls P)) n K \<lparr>prev = Some c, rest = cs, cap = g\<rparr> \<noteq> None"
      by (simp add: s)
    then show ?thesis using c by (auto simp: s split: option.splits)
  qed
qed

lemma bt_Star_agree:
  assumes agree: "\<And>i. i \<le> length (takeWhile P s) \<Longrightarrow>
             K \<lparr>prev = after p (take i s), rest = drop i s, cap = g\<rparr> = None \<or>
             K \<lparr>prev = after p (take i s), rest = drop i s, cap = g\<rparr> = Some x"
    and some: "j \<le> length (takeWhile P s)"
      "K \<lparr>prev = after p (take j s), rest = drop j s, cap = g\<rparr> = Some x"
  shows "bt (Star (Cls P)) K \<lparr>prev = p, rest = s, cap = g\<rparr> = Some x"
proof -
  have "star_loop (bt (Cls P)) (length s) K \<lparr>prev = p, rest = s, cap = g\<rparr> \<noteq> None"
    using star_cls_total[where K = K and P = P and i = j and s = s and p = p and g = g
                           and n = "length s"] some
    by simp
  then obtain y where y: "bt (Star (Cls P)) K \<lparr>prev = p, rest = s, cap = g\<rparr> = Some y"
    by (auto simp: bt_Star)
  from bt_Star_cases[OF y] obtain i where "i \<le> length (takeWhile P s)"
    and "K \<lparr>prev = after p (take i s), rest = drop i s, cap = g\<rparr> = Some y" by blast
  with agree[of i] have "y = x" by auto
  with y show ?thesis by simp
qed

text \<open>The message-id pattern.\<close>

lemma exec_msgid_first:
  "s = [] \<or> hd s \<noteq> CHR ''['' \<Longrightarrow> exec MESSAGE_ID_RE p s = None"
  unfolding exec_def MESSAGE_ID_RE_def bt_seqs_Cons
  by (rule bt_liti_mismatch) (auto simp: toLowerChar_Char)

lemma exec_msgid_token:
  assumes u: "CHR '']'' \<notin> set u"
    and ex: "exec MESSAGE_ID_RE p (CHR ''['' # u @ CHR '']'' # r) = Some (n, g)"
  shows "n = length u + 2"
proof -
  let ?s = "CHR ''['' # u @ CHR '']'' # r"
  let ?k = "\<lambda>st. Some (length ?s - length (rest st), cap st)"
  let ?K3 = "bt (Star (noneOf '']'')) (bt (liti '']'') ?k)"
  let ?K2 = "bt (liti ''message id:'') ?K3"
  have "bt (Star (Cls (\<lambda>x. x \<noteq> CHR '']''))) ?K2
          \<lparr>prev = Some CHR ''['', rest = u @ CHR '']'' # r, cap = None\<rparr> = Some (n, g)"
    using ex unfolding exec_def MESSAGE_ID_RE_def bt_seqs_Cons bt_seqs_Nil
    by (simp add: bt_liti1_Cons noneOf_single)
  from bt_Star_cases[OF this] obtain i
    where i: "i \<le> length (takeWhile (\<lambda>x. x \<noteq> CHR '']'') (u @ CHR '']'' # r))"
      and k2: "?K2 \<lparr>prev = after (Some CHR ''['') (take i (u @ CHR '']'' # r)),
                     rest = drop i (u @ CHR '']'' # r), cap = None\<rparr> = Some (n, g)"
    by blast
  from i have iu: "i \<le> length u" using run_to_char[OF u] by simp
  have len: "length ''message id:'' = 11" by simp
  note L = bt_liti_Some[OF k2, unfolded len]
  have m: "map toLowerChar (take 11 (drop i (u @ CHR '']'' # r))) = map toLowerChar ''message id:''"
    using L by blast
  have k3: "?K3 \<lparr>prev = after (after (Some CHR ''['') (take i (u @ CHR '']'' # r)))
                            (take 11 (drop i (u @ CHR '']'' # r))),
                   rest = drop 11 (drop i (u @ CHR '']'' # r)), cap = None\<rparr> = Some (n, g)"
    using L by blast
  have far: "i + 11 \<le> length u"
  proof (rule ccontr)
    assume "\<not> i + 11 \<le> length u"
    then have "CHR '']'' \<in> set (take 11 (drop i (u @ CHR '']'' # r)))"
      using iu by (simp add: take_Cons')
    then have "toLowerChar CHR '']'' \<in> set (map toLowerChar (take 11 (drop i (u @ CHR '']'' # r))))"
      by (metis image_eqI set_map)
    then show False unfolding m by (simp add: toLowerChar_Char)
  qed
  then have d: "drop 11 (drop i (u @ CHR '']'' # r)) = drop (i + 11) u @ CHR '']'' # r"
    by (simp add: add.commute)
  have "CHR '']'' \<notin> set (drop (i + 11) u)"
    using u by (meson in_set_dropD)
  then have "?K3 \<lparr>prev = q, rest = drop (i + 11) u @ CHR '']'' # r, cap = None\<rparr>
                = ?k \<lparr>prev = Some CHR '']'', rest = r, cap = None\<rparr>" for q
    by (rule close_bracket)
  with k3[unfolded d]
  have "?k \<lparr>prev = Some CHR '']'', rest = r, cap = None\<rparr> = Some (n, g)"
    by metis
  then show ?thesis by simp
qed

text \<open>The Slack placeholder pattern.\<close>

lemma exec_slack_first:
  "s = [] \<or> hd s \<noteq> CHR ''['' \<Longrightarrow> exec SLACK_ATTACHMENT_PLACEHOLDER_TOKEN_RE p s = None"
  unfolding exec_def SLACK_ATTACHMENT_PLACEHOLDER_TOKEN_RE_def bt_seqs_Cons
  by (rule bt_liti_mismatch) (auto simp: toLowerChar_Char)

lemma slack_kind:
  assumes "kind \<in> set slackKinds"
  shows "bt (alts [liti ''Slack file'', liti ''Forwarded image'', liti ''attached'']) K
           \<lparr>prev = p, rest = kind @ t, cap = g\<rparr>
         = K \<lparr>prev = after p kind, rest = t, cap = g\<rparr>"
proof -
  have no: "w \<noteq> [] \<Longrightarrow> v \<noteq> [] \<Longrightarrow> toLowerChar (hd v) \<noteq> toLowerChar (hd w) \<Longrightarrow>
            bt (liti w) K \<lparr>prev = p, rest = v @ t, cap = g\<rparr> = None" for w v
    by (rule bt_liti_mismatch) (auto simp: hd_append)
  have yes: "bt (liti kind) K \<lparr>prev = p, rest = kind @ t, cap = g\<rparr>
               = K \<lparr>prev = after p kind, rest = t, cap = g\<rparr>"
    by (rule bt_liti_match)
  from assms consider "kind = ''Slack file''" | "kind = ''Forwarded image''" | "kind = ''attached''"
    by (auto simp: slackKinds_def)
  then show ?thesis
  proof cases
    case 1
    have "bt (liti ''Forwarded image'') K \<lparr>prev = p, rest = kind @ t, cap = g\<rparr> = None"
      "bt (liti ''attached'') K \<lparr>prev = p, rest = kind @ t, cap = g\<rparr> = None"
      unfolding 1 by (rule no; simp add: toLowerChar_Char)+
    with yes show ?thesis unfolding 1 by (simp add: alts_def bt_Alt split: option.splits)
  next
    case 2
    have "bt (liti ''Slack file'') K \<lparr>prev = p, rest = kind @ t, cap = g\<rparr> = None"
      "bt (liti ''attached'') K \<lparr>prev = p, rest = kind @ t, cap = g\<rparr> = None"
      unfolding 2 by (rule no; simp add: toLowerChar_Char)+
    with yes show ?thesis unfolding 2 by (simp add: alts_def bt_Alt split: option.splits)
  next
    case 3
    have "bt (liti ''Slack file'') K \<lparr>prev = p, rest = kind @ t, cap = g\<rparr> = None"
      "bt (liti ''Forwarded image'') K \<lparr>prev = p, rest = kind @ t, cap = g\<rparr> = None"
      unfolding 3 by (rule no; simp add: toLowerChar_Char)+
    with yes show ?thesis unfolding 3 by (simp add: alts_def bt_Alt split: option.splits)
  qed
qed

lemma slack_tail_plain:
  "bt (Opt (seqs [liti '':'', Star (Cls isSpace), Plus (noneOf '']'')])) (bt (liti '']'') k)
     \<lparr>prev = q, rest = CHR '']'' # r, cap = g\<rparr>
   = k \<lparr>prev = Some CHR '']'', rest = r, cap = g\<rparr>"
  by (simp add: bt_Opt bt_liti1_Cons toLowerChar_Char)

lemma slack_tail_named:
  assumes n: "n \<noteq> []" "CHR '']'' \<notin> set n"
    and k: "k \<lparr>prev = Some CHR '']'', rest = r, cap = g\<rparr> = Some x"
  shows "bt (Opt (seqs [liti '':'', Star (Cls isSpace), Plus (noneOf '']'')])) (bt (liti '']'') k)
           \<lparr>prev = q, rest = CHR '':'' # n @ CHR '']'' # r, cap = g\<rparr>
         = Some x"
proof -
  let ?P = "\<lambda>x. x \<noteq> CHR '']''"
  let ?K = "bt (Cls ?P) (bt (Star (Cls ?P)) (bt (liti '']'') k))"
  let ?s = "n @ CHR '']'' # r"
  have at: "?K \<lparr>prev = q', rest = drop i ?s, cap = g\<rparr> = (if i < length n then Some x else None)"
    if "i \<le> length n" for i q'
  proof (cases "i < length n")
    case True
    then obtain c cs where d: "drop i n = c # cs"
      by (cases "drop i n") auto
    then have "c \<in> set n" "set cs \<subseteq> set n"
      by (metis in_set_dropD list.set_intros(1), metis set_drop_subset set_subset_Cons subset_trans)
    with n(2) have c: "c \<noteq> CHR '']''" and cs: "CHR '']'' \<notin> set cs" by auto
    have "drop i ?s = c # cs @ CHR '']'' # r" using True d by simp
    then show ?thesis
      using close_bracket[OF cs, of k "Some c" r g] c k True by (simp add: noneOf_single)
  next
    case False
    with that have "drop i ?s = CHR '']'' # r" by simp
    then show ?thesis using False by simp
  qed
  have le: "i \<le> length (takeWhile isSpace ?s) \<Longrightarrow> i \<le> length n" for i
    using takeWhile_stops[of isSpace "CHR '']''" n r] by (simp add: isSpace_def)
  have "bt (Star (Cls isSpace)) ?K \<lparr>prev = Some CHR '':'', rest = ?s, cap = g\<rparr> = Some x"
  proof (rule bt_Star_agree[where j = 0])
    fix i assume "i \<le> length (takeWhile isSpace ?s)"
    then show "?K \<lparr>prev = after (Some CHR '':'') (take i ?s), rest = drop i ?s, cap = g\<rparr> = None \<or>
               ?K \<lparr>prev = after (Some CHR '':'') (take i ?s), rest = drop i ?s, cap = g\<rparr> = Some x"
      using at[OF le] by simp
  next
    show "0 \<le> length (takeWhile isSpace ?s)" by simp
    show "?K \<lparr>prev = after (Some CHR '':'') (take 0 ?s), rest = drop 0 ?s, cap = g\<rparr> = Some x"
      using at[of 0] n(1) by simp
  qed
  then show ?thesis
    by (simp add: bt_Opt bt_liti1_Cons toLowerChar_Char noneOf_single)
qed

lemma exec_slack_plain:
  assumes "kind \<in> set slackKinds"
  shows "exec SLACK_ATTACHMENT_PLACEHOLDER_TOKEN_RE p (CHR ''['' # kind @ CHR '']'' # r)
           = Some (length kind + 2, None)"
  unfolding exec_def SLACK_ATTACHMENT_PLACEHOLDER_TOKEN_RE_def bt_seqs_Cons bt_seqs_Nil
  by (simp add: bt_liti1_Cons slack_kind[OF assms] slack_tail_plain)

lemma exec_slack_named:
  assumes "kind \<in> set slackKinds" "n \<noteq> []" "CHR '']'' \<notin> set n"
  shows "exec SLACK_ATTACHMENT_PLACEHOLDER_TOKEN_RE p (CHR ''['' # kind @ CHR '':'' # n @ CHR '']'' # r)
           = Some (length kind + length n + 3, None)"
  unfolding exec_def SLACK_ATTACHMENT_PLACEHOLDER_TOKEN_RE_def bt_seqs_Cons bt_seqs_Nil
  by (simp add: bt_liti1_Cons slack_kind[OF assms(1)])
     (rule slack_tail_named[OF assms(2,3)], simp)

section \<open>Placeholder text in the title module\<close>

lemma placeholderText_simps [simp]:
  "placeholderText [] = []"
  "placeholderText (t # ts) = render t @ placeholderText ts"
  "placeholderText (xs @ ys) = placeholderText xs @ placeholderText ys"
  by (simp_all add: placeholderText_def)

lemma kind_chars: "kind \<in> set slackKinds \<Longrightarrow> bracketFree kind"
  by (auto simp: slackKinds_def bracketFree_def)

lemma slack_shape:
  assumes "wellFormed (Slack kind name)"
  obtains u where "render (Slack kind name) = CHR ''['' # u @ '']''" and "bracketFree u"
proof (cases name)
  case None
  with assms have "render (Slack kind name) = CHR ''['' # kind @ '']''" "bracketFree kind"
    by (simp_all add: kind_chars)
  then show ?thesis by (rule that)
next
  case (Some n)
  with assms have "render (Slack kind name) = CHR ''['' # (kind @ '':'' @ n) @ '']''"
    "bracketFree (kind @ '':'' @ n)"
    using kind_chars[of kind] by (auto simp: bracketFree_def)
  then show ?thesis by (rule that)
qed

text \<open>Characters that no pattern can start at are copied.\<close>

lemma copy_mention:
  "CHR ''<'' \<notin> set xs \<Longrightarrow>
   replaceAll_go MENTION_RE f 0 p (xs @ s) = xs @ replaceAll_go MENTION_RE f 0 (after p xs) s"
  by (rule replaceAll_go_copy_run) (auto intro!: exec_mention_none)

lemma copy_media:
  "CHR ''<'' \<notin> set xs \<Longrightarrow>
   replaceAll_go ATTACHMENT_PLACEHOLDER_TOKEN_RE f 0 p (xs @ s)
     = xs @ replaceAll_go ATTACHMENT_PLACEHOLDER_TOKEN_RE f 0 (after p xs) s"
  by (rule replaceAll_go_copy_run) (auto intro!: exec_media_first)

lemma copy_msgid:
  "CHR ''['' \<notin> set xs \<Longrightarrow>
   replaceAll_go MESSAGE_ID_RE f 0 p (xs @ s) = xs @ replaceAll_go MESSAGE_ID_RE f 0 (after p xs) s"
  by (rule replaceAll_go_copy_run) (auto intro!: exec_msgid_first)

lemma copy_slack:
  "CHR ''['' \<notin> set xs \<Longrightarrow>
   replaceAll_go SLACK_ATTACHMENT_PLACEHOLDER_TOKEN_RE f 0 p (xs @ s)
     = xs @ replaceAll_go SLACK_ATTACHMENT_PLACEHOLDER_TOKEN_RE f 0 (after p xs) s"
  by (rule replaceAll_go_copy_run) (auto intro!: exec_slack_first)

text \<open>The mention pattern finds nothing in placeholder text.\<close>

lemma mention_token:
  assumes "wellFormed t"
  shows "replaceAll_go MENTION_RE f 0 p (render t @ s)
           = render t @ replaceAll_go MENTION_RE f 0 (after p (render t)) s"
proof (cases t)
  case (Gap c)
  with assms have "CHR ''<'' \<notin> set [c]" by auto
  from copy_mention[OF this] show ?thesis by (simp add: Gap)
next
  case (Media b)
  with assms have "CHR ''<'' \<notin> set (''media:'' @ b @ ''>'')" by (auto simp: bracketFree_def)
  from copy_mention[OF this, of f "Some CHR ''<''" s]
  have rest: "replaceAll_go MENTION_RE f 0 (Some CHR ''<'') (''media:'' @ b @ ''>'' @ s)
          = ''media:'' @ b @ ''>'' @ replaceAll_go MENTION_RE f 0 (after p (render t)) s"
    by (simp add: Media)
  have "exec MENTION_RE p (CHR ''<'' # ''media:'' @ b @ ''>'' @ s) = None"
    by (rule exec_mention_none) simp
  from replaceAll_go_copy[OF this, of f] rest show ?thesis by (simp add: Media)
next
  case (Slack k n)
  with assms obtain u where u: "render t = CHR ''['' # u @ '']''" "bracketFree u"
    by (auto elim: slack_shape)
  then have "CHR ''<'' \<notin> set (render t)" by (auto simp: bracketFree_def)
  from copy_mention[OF this] show ?thesis .
qed

lemma mention_identity:
  "list_all wellFormed toks \<Longrightarrow>
   replaceAll_go MENTION_RE f 0 p (placeholderText toks) = placeholderText toks"
proof (induction toks arbitrary: p)
  case Nil
  have "exec MENTION_RE p [] = None" by (rule exec_mention_none) simp
  then show ?case by simp
next
  case (Cons t ts)
  then show ?case by (simp add: mention_token)
qed

text \<open>The message-id pattern replaces whole Slack tokens.\<close>

lemma msgid_token:
  assumes "wellFormed t"
  shows "\<exists>t'. wellFormed t' \<and>
           replaceAll_go MESSAGE_ID_RE (\<lambda>_. '' '') 0 p (render t @ s)
             = render t' @ replaceAll_go MESSAGE_ID_RE (\<lambda>_. '' '') 0 (after p (render t)) s"
proof (cases t)
  case (Gap c)
  with assms have "CHR ''['' \<notin> set (render t)" by auto
  from copy_msgid[OF this] assms show ?thesis by blast
next
  case (Media b)
  with assms have "CHR ''['' \<notin> set (render t)" by (auto simp: bracketFree_def)
  from copy_msgid[OF this] assms show ?thesis by blast
next
  case (Slack k n)
  with assms obtain u where u: "render t = CHR ''['' # u @ '']''" "bracketFree u"
    by (auto elim: slack_shape)
  let ?go = "replaceAll_go MESSAGE_ID_RE (\<lambda>_. '' '') 0"
  show ?thesis
  proof (cases "exec MESSAGE_ID_RE p (render t @ s)")
    case None
    have "CHR ''['' \<notin> set (u @ '']'')" using u(2) by (auto simp: bracketFree_def)
    from copy_msgid[OF this, of "\<lambda>_. '' ''" "Some CHR ''[''" s]
    have "?go (Some CHR ''['') (u @ '']'' @ s) = u @ '']'' @ ?go (after p (render t)) s"
      by (simp add: u(1))
    with replaceAll_go_copy[of MESSAGE_ID_RE p "CHR ''[''" "u @ '']'' @ s" "\<lambda>_. '' ''"] None
    have "?go p (render t @ s) = render t @ ?go (after p (render t)) s"
      by (simp add: u(1))
    with assms show ?thesis by blast
  next
    case (Some x)
    obtain n g where x: "x = (n, g)" by (cases x)
    have "CHR '']'' \<notin> set u" using u(2) by (auto simp: bracketFree_def)
    from exec_msgid_token[OF this, of p s n g] Some
    have "n = length (render t)" by (simp add: u(1) x)
    with Some x have "exec MESSAGE_ID_RE p (render t @ s) = Some (length (render t), g)" by simp
    from replaceAll_go_match[OF this, of "\<lambda>_. '' ''"]
    have "?go p (render t @ s) = render (Gap CHR '' '') @ ?go (after p (render t)) s"
      by (simp add: u(1))
    moreover have "wellFormed (Gap CHR '' '')" by (simp add: isSpace_def)
    ultimately show ?thesis by blast
  qed
qed

lemma msgid_closed:
  "list_all wellFormed toks \<Longrightarrow>
   \<exists>toks'. list_all wellFormed toks' \<and>
     replaceAll_go MESSAGE_ID_RE (\<lambda>_. '' '') 0 p (placeholderText toks) = placeholderText toks'"
proof (induction toks arbitrary: p)
  case Nil
  have "exec MESSAGE_ID_RE p [] = None" by (rule exec_msgid_first) simp
  then have "replaceAll_go MESSAGE_ID_RE (\<lambda>_. '' '') 0 p (placeholderText []) = placeholderText []"
    by simp
  then show ?case by (intro exI[of _ "[]"]) simp
next
  case (Cons t ts)
  then have t: "wellFormed t" and ts: "list_all wellFormed ts" by simp_all
  from msgid_token[OF t, of p "placeholderText ts"] obtain t' where t': "wellFormed t'"
    and eq: "replaceAll_go MESSAGE_ID_RE (\<lambda>_. '' '') 0 p (render t @ placeholderText ts)
               = render t' @ replaceAll_go MESSAGE_ID_RE (\<lambda>_. '' '') 0 (after p (render t))
                                (placeholderText ts)"
    by blast
  from Cons.IH[OF ts, of "after p (render t)"] obtain ts' where ts': "list_all wellFormed ts'"
    and eq': "replaceAll_go MESSAGE_ID_RE (\<lambda>_. '' '') 0 (after p (render t)) (placeholderText ts)
                = placeholderText ts'"
    by blast
  show ?case
    by (intro exI[of _ "t' # ts'"]) (simp add: t' ts' eq eq')
qed

text \<open>What follows a token is white space and another token.\<close>

lemma render_first:
  "wellFormed t \<Longrightarrow> render t \<noteq> [] \<and>
     (isSpace (hd (render t)) \<or> hd (render t) = CHR ''<'' \<or> hd (render t) = CHR ''['')"
  by (cases t rule: render.cases) auto

lemma text_first:
  assumes "list_all wellFormed toks" and "placeholderText toks \<noteq> []"
  shows "isSpace (hd (placeholderText toks)) \<or> hd (placeholderText toks) = CHR ''<'' \<or>
         hd (placeholderText toks) = CHR ''[''"
proof (cases toks)
  case Nil
  with assms(2) show ?thesis by simp
next
  case (Cons t ts)
  with assms(1) have "wellFormed t" by simp
  from render_first[OF this] show ?thesis by (simp add: Cons)
qed

lemma text_ahead:
  "list_all wellFormed toks \<Longrightarrow>
   dropWhile isSpace (placeholderText toks) = [] \<or>
   hd (dropWhile isSpace (placeholderText toks)) \<noteq> CHR ''(''"
proof (induction toks)
  case Nil
  then show ?case by simp
next
  case (Cons t ts)
  then have t: "wellFormed t" and ts: "list_all wellFormed ts" by simp_all
  show ?case
  proof (cases t rule: render.cases)
    case (1 c)
    with t Cons.IH[OF ts] show ?thesis by simp
  next
    case (2 b)
    then show ?thesis by (simp add: isSpace_def)
  next
    case (3 k)
    then show ?thesis by (simp add: isSpace_def)
  next
    case (4 k n)
    then show ?thesis by (simp add: isSpace_def)
  qed
qed

text \<open>The media pattern replaces the media tokens.\<close>

lemma media_token:
  assumes "wellFormed t"
    and "dropWhile isSpace s = [] \<or> hd (dropWhile isSpace s) \<noteq> CHR ''(''"
  shows "\<exists>t'. wellFormed t' \<and> (\<forall>b. t' \<noteq> Media b) \<and>
           replaceAll_go ATTACHMENT_PLACEHOLDER_TOKEN_RE (\<lambda>_. '' '') 0 p (render t @ s)
             = render t' @ replaceAll_go ATTACHMENT_PLACEHOLDER_TOKEN_RE (\<lambda>_. '' '') 0
                             (after p (render t)) s"
proof (cases t)
  case (Gap c)
  with assms have "CHR ''<'' \<notin> set (render t)" by auto
  from copy_media[OF this] assms Gap show ?thesis by blast
next
  case (Media b)
  with assms have b: "b \<noteq> []" "CHR ''>'' \<notin> set b" by (auto simp: bracketFree_def)
  from exec_media_token[OF b assms(2), of p]
  have "exec ATTACHMENT_PLACEHOLDER_TOKEN_RE p (render t @ s) = Some (length (render t), None)"
    by (simp add: Media)
  from replaceAll_go_match[OF this, of "\<lambda>_. '' ''"]
  have "replaceAll_go ATTACHMENT_PLACEHOLDER_TOKEN_RE (\<lambda>_. '' '') 0 p (render t @ s)
          = render (Gap CHR '' '') @ replaceAll_go ATTACHMENT_PLACEHOLDER_TOKEN_RE (\<lambda>_. '' '') 0
                             (after p (render t)) s"
    by (simp add: Media)
  moreover have "wellFormed (Gap CHR '' '')" by (simp add: isSpace_def)
  ultimately show ?thesis by blast
next
  case (Slack k n)
  with assms obtain u where u: "render t = CHR ''['' # u @ '']''" "bracketFree u"
    by (auto elim: slack_shape)
  then have "CHR ''<'' \<notin> set (render t)" by (auto simp: bracketFree_def)
  from copy_media[OF this] assms Slack show ?thesis by blast
qed

lemma media_closed:
  "list_all wellFormed toks \<Longrightarrow>
   \<exists>toks'. list_all wellFormed toks' \<and> (\<forall>b. Media b \<notin> set toks') \<and>
     replaceAll_go ATTACHMENT_PLACEHOLDER_TOKEN_RE (\<lambda>_. '' '') 0 p (placeholderText toks)
       = placeholderText toks'"
proof (induction toks arbitrary: p)
  case Nil
  have "exec ATTACHMENT_PLACEHOLDER_TOKEN_RE p [] = None" by (rule exec_media_first) simp
  then have "replaceAll_go ATTACHMENT_PLACEHOLDER_TOKEN_RE (\<lambda>_. '' '') 0 p (placeholderText [])
               = placeholderText []"
    by simp
  then show ?case by (intro exI[of _ "[]"]) simp
next
  case (Cons t ts)
  then have t: "wellFormed t" and ts: "list_all wellFormed ts" by simp_all
  from media_token[OF t text_ahead[OF ts], of p] obtain t' where t': "wellFormed t'" "\<forall>b. t' \<noteq> Media b"
    and eq: "replaceAll_go ATTACHMENT_PLACEHOLDER_TOKEN_RE (\<lambda>_. '' '') 0 p
               (render t @ placeholderText ts)
               = render t' @ replaceAll_go ATTACHMENT_PLACEHOLDER_TOKEN_RE (\<lambda>_. '' '') 0
                                (after p (render t)) (placeholderText ts)"
    by blast
  from Cons.IH[OF ts, of "after p (render t)"] obtain ts' where ts': "list_all wellFormed ts'"
      "\<forall>b. Media b \<notin> set ts'"
    and eq': "replaceAll_go ATTACHMENT_PLACEHOLDER_TOKEN_RE (\<lambda>_. '' '') 0 (after p (render t))
                (placeholderText ts) = placeholderText ts'"
    by blast
  show ?case
    using t' ts' by (intro exI[of _ "t' # ts'"]) (auto simp: eq eq')
qed

text \<open>The Slack pattern replaces the Slack tokens.\<close>

lemma slack_token:
  assumes "wellFormed t" and "\<forall>b. t \<noteq> Media b"
  shows "\<exists>w. (\<forall>c \<in> set w. isSpace c) \<and>
           replaceAll_go SLACK_ATTACHMENT_PLACEHOLDER_TOKEN_RE (\<lambda>_. '' '') 0 p (render t @ s)
             = w @ replaceAll_go SLACK_ATTACHMENT_PLACEHOLDER_TOKEN_RE (\<lambda>_. '' '') 0
                     (after p (render t)) s"
proof -
  have sp: "\<forall>c \<in> set '' ''. isSpace c" by (simp add: isSpace_def)
  show ?thesis
  proof (cases t rule: render.cases)
    case (1 c)
    with assms have "CHR ''['' \<notin> set (render t)" "\<forall>c \<in> set (render t). isSpace c" by auto
    from copy_slack[OF this(1)] this(2) show ?thesis by blast
  next
    case (2 b)
    with assms show ?thesis by simp
  next
    case (3 k)
    with assms have "k \<in> set slackKinds" by simp
    from exec_slack_plain[OF this, of p s]
    have "exec SLACK_ATTACHMENT_PLACEHOLDER_TOKEN_RE p (render t @ s) = Some (length (render t), None)"
      by (simp add: 3)
    from replaceAll_go_match[OF this, of "\<lambda>_. '' ''"] sp show ?thesis
      by (intro exI[of _ "'' ''"]) (simp add: 3)
  next
    case (4 k n)
    with assms have "k \<in> set slackKinds" "n \<noteq> []" "CHR '']'' \<notin> set n"
      by (auto simp: bracketFree_def)
    from exec_slack_named[OF this, of p s]
    have "exec SLACK_ATTACHMENT_PLACEHOLDER_TOKEN_RE p (render t @ s) = Some (length (render t), None)"
      by (simp add: 4)
    from replaceAll_go_match[OF this, of "\<lambda>_. '' ''"] sp show ?thesis
      by (intro exI[of _ "'' ''"]) (simp add: 4)
  qed
qed

lemma slack_removed:
  "list_all wellFormed toks \<Longrightarrow> \<forall>b. Media b \<notin> set toks \<Longrightarrow>
   \<forall>c \<in> set (replaceAll_go SLACK_ATTACHMENT_PLACEHOLDER_TOKEN_RE (\<lambda>_. '' '') 0 p
                (placeholderText toks)). isSpace c"
proof (induction toks arbitrary: p)
  case Nil
  have "exec SLACK_ATTACHMENT_PLACEHOLDER_TOKEN_RE p [] = None" by (rule exec_slack_first) simp
  then show ?case by simp
next
  case (Cons t ts)
  then have t: "wellFormed t" "\<forall>b. t \<noteq> Media b"
    and ts: "list_all wellFormed ts" "\<forall>b. Media b \<notin> set ts" by auto
  from slack_token[OF t, of p "placeholderText ts"] obtain w where w: "\<forall>c \<in> set w. isSpace c"
    and eq: "replaceAll_go SLACK_ATTACHMENT_PLACEHOLDER_TOKEN_RE (\<lambda>_. '' '') 0 p
               (render t @ placeholderText ts)
             = w @ replaceAll_go SLACK_ATTACHMENT_PLACEHOLDER_TOKEN_RE (\<lambda>_. '' '') 0
                     (after p (render t)) (placeholderText ts)"
    by blast
  from Cons.IH[OF ts, of "after p (render t)"] w show ?case
    by (auto simp: eq)
qed

text \<open>White space that stays white space.\<close>

lemma replaceAll_go_all:
  assumes f: "\<And>g. \<forall>c \<in> set (f g). Q c"
  shows "\<forall>c \<in> set s. Q c \<Longrightarrow> \<forall>c \<in> set (replaceAll_go r f n p s). Q c"
proof (induction s arbitrary: n p)
  case Nil
  show ?case
  proof (cases "exec r p []")
    case None
    then show ?thesis by simp
  next
    case (Some x)
    then show ?thesis using f by (cases x) simp
  qed
next
  case (Cons c cs)
  from Cons.prems have c: "Q c" and cs: "\<forall>c \<in> set cs. Q c" by simp_all
  note IH = Cons.IH[OF cs]
  show ?case
  proof (cases n)
    case (Suc m)
    then show ?thesis using IH[of m "Some c"] by simp
  next
    case 0
    show ?thesis
    proof (cases "exec r p (c # cs)")
      case None
      then show ?thesis using IH[of 0 "Some c"] c by (simp add: 0)
    next
      case (Some x)
      obtain len g where x: "x = (len, g)" by (cases x)
      show ?thesis
      proof (cases "len = 0")
        case True
        then show ?thesis using IH[of 0 "Some c"] c f[of g] Some by (auto simp: 0 x)
      next
        case False
        then show ?thesis using IH[of "len - 1" "Some c"] f[of g] Some by (auto simp: 0 x)
      qed
    qed
  qed
qed

lemma trim_all_space:
  assumes "\<forall>c \<in> set s. isSpace c"
  shows "trim s = []"
proof -
  from assms have "dropWhile isSpace s = []" by simp
  then show ?thesis unfolding trim_def by (simp only: rev.simps dropWhile.simps)
qed

lemma trim_hd:
  assumes "trim s \<noteq> []"
  shows "\<not> isSpace (hd (trim s))"
proof -
  let ?t = "dropWhile isSpace s"
  have "rev (takeWhile isSpace (rev ?t) @ dropWhile isSpace (rev ?t)) = rev (rev ?t)"
    by (simp only: takeWhile_dropWhile_id)
  then have split: "?t = trim s @ rev (takeWhile isSpace (rev ?t))"
    unfolding trim_def by (simp only: rev_append rev_rev_ident)
  from assms have "hd (trim s @ rev (takeWhile isSpace (rev ?t))) = hd (trim s)"
    by (rule hd_append2)
  with split have hd: "hd ?t = hd (trim s)" by simp
  from assms have "trim s @ rev (takeWhile isSpace (rev ?t)) \<noteq> []" by simp
  with split have "?t \<noteq> []" by metis
  from hd_dropWhile[OF this] hd show ?thesis by simp
qed

text \<open>Placeholder text stays placeholder text when it is trimmed.\<close>

lemma dropWhile_closed:
  "list_all wellFormed toks \<Longrightarrow>
   \<exists>toks'. list_all wellFormed toks' \<and>
            dropWhile isSpace (placeholderText toks) = placeholderText toks'"
proof (induction toks)
  case Nil
  show ?case by (intro exI[of _ "[]"]) simp
next
  case (Cons t ts)
  then have t: "wellFormed t" and ts: "list_all wellFormed ts" by simp_all
  show ?case
  proof (cases "\<exists>c. t = Gap c")
    case True
    then obtain c where c: "t = Gap c" by blast
    with t have "isSpace c" by simp
    then have "dropWhile isSpace (placeholderText (t # ts)) = dropWhile isSpace (placeholderText ts)"
      by (simp add: c)
    with Cons.IH[OF ts] show ?thesis by simp
  next
    case False
    with t have "dropWhile isSpace (placeholderText (t # ts)) = placeholderText (t # ts)"
      by (cases t rule: render.cases) simp_all
    with Cons.prems show ?thesis by blast
  qed
qed

lemma dropWhile_rev_keep:
  "xs \<noteq> [] \<Longrightarrow> \<not> P (last xs) \<Longrightarrow> dropWhile P (rev xs) = rev xs"
  by (cases xs rule: rev_cases) simp_all

lemma rev_dropWhile_closed:
  "list_all wellFormed toks \<Longrightarrow>
   \<exists>toks'. list_all wellFormed toks' \<and>
            rev (dropWhile isSpace (rev (placeholderText toks))) = placeholderText toks'"
proof (induction toks rule: rev_induct)
  case Nil
  show ?case by (intro exI[of _ "[]"]) simp
next
  case (snoc t ts)
  then have t: "wellFormed t" and ts: "list_all wellFormed ts" by simp_all
  show ?case
  proof (cases "\<exists>c. t = Gap c")
    case True
    then obtain c where c: "t = Gap c" by blast
    with t have "isSpace c" by simp
    then have "rev (dropWhile isSpace (rev (placeholderText (ts @ [t]))))
                 = rev (dropWhile isSpace (rev (placeholderText ts)))"
      by (simp add: c)
    with snoc.IH[OF ts] show ?thesis by simp
  next
    case False
    with t have "render t \<noteq> [] \<and> \<not> isSpace (last (render t))"
      by (cases t rule: render.cases) simp_all
    then have "placeholderText (ts @ [t]) \<noteq> []" "\<not> isSpace (last (placeholderText (ts @ [t])))"
      by simp_all
    from dropWhile_rev_keep[where P = isSpace, OF this]
    have "rev (dropWhile isSpace (rev (placeholderText (ts @ [t])))) = placeholderText (ts @ [t])"
      by (simp only: rev_rev_ident)
    with snoc.prems show ?thesis by blast
  qed
qed

lemma trim_closed:
  assumes "list_all wellFormed toks"
  shows "\<exists>toks'. list_all wellFormed toks' \<and> trim (placeholderText toks) = placeholderText toks'"
proof -
  from dropWhile_closed[OF assms] obtain t1 where t1: "list_all wellFormed t1"
    "dropWhile isSpace (placeholderText toks) = placeholderText t1" by blast
  from rev_dropWhile_closed[OF t1(1)] t1(2) show ?thesis by (simp add: trim_def)
qed




text \<open>Runs of white space become one space.\<close>

lemma exec_space_Nil: "exec WHITESPACE_RUN p [] = None"
  by (simp add: exec_def WHITESPACE_RUN_def)

lemma exec_space_Cons:
  "exec WHITESPACE_RUN p (c # s) =
     (if isSpace c then Some (Suc (length (takeWhile isSpace s)), None) else None)"
proof (cases "isSpace c")
  case False
  then show ?thesis by (simp add: exec_def WHITESPACE_RUN_def)
next
  case True
  let ?k = "\<lambda>st. Some (length (c # s) - length (rest st), cap st)"
  have "length (takeWhile isSpace s) + length (dropWhile isSpace s) = length s"
    by (metis length_append takeWhile_dropWhile_id)
  then have "?k \<lparr>prev = after (Some c) (takeWhile isSpace s), rest = dropWhile isSpace s, cap = None\<rparr>
          = Some (Suc (length (takeWhile isSpace s)), None)"
    by simp
  from bt_Star_greedy[where k = ?k, OF this] True show ?thesis
    by (simp add: exec_def WHITESPACE_RUN_def)
qed

lemma collapse_prev:
  "replaceAll_go WHITESPACE_RUN f n p s = replaceAll_go WHITESPACE_RUN f n q s"
  by (cases s; cases n) (simp_all add: exec_space_Cons exec_space_Nil)

lemma collapse_go:
  "replaceAll_go WHITESPACE_RUN f 0 p s = replaceAll WHITESPACE_RUN f s"
  unfolding replaceAll_def by (rule collapse_prev)

lemma collapse_Nil: "replaceAll WHITESPACE_RUN f [] = []"
  by (simp add: replaceAll_def exec_space_Nil)

lemma collapse_copy:
  "\<not> isSpace c \<Longrightarrow> replaceAll WHITESPACE_RUN f (c # s) = c # replaceAll WHITESPACE_RUN f s"
  using collapse_go[of f "Some c" s] by (simp add: replaceAll_def exec_space_Cons)

lemma collapse_space:
  assumes "isSpace c"
  shows "replaceAll WHITESPACE_RUN f (c # s)
           = f None @ replaceAll WHITESPACE_RUN f (dropWhile isSpace s)"
proof -
  let ?tok = "c # takeWhile isSpace s"
  have ex: "exec WHITESPACE_RUN None (?tok @ dropWhile isSpace s) = Some (length ?tok, None)"
    using assms by (simp add: exec_space_Cons)
  have "replaceAll WHITESPACE_RUN f (c # s)
          = replaceAll_go WHITESPACE_RUN f 0 None (?tok @ dropWhile isSpace s)"
    by (simp add: replaceAll_def del: replaceAll_go.simps)
  also have "\<dots> = f None @ replaceAll_go WHITESPACE_RUN f 0 (after None ?tok) (dropWhile isSpace s)"
    by (rule replaceAll_go_match[OF ex]) simp
  also have "replaceAll_go WHITESPACE_RUN f 0 (after None ?tok) (dropWhile isSpace s)
               = replaceAll WHITESPACE_RUN f (dropWhile isSpace s)"
    by (rule collapse_go)
  finally show ?thesis .
qed

lemma collapse_copy_run:
  "\<forall>c \<in> set xs. \<not> isSpace c \<Longrightarrow>
   replaceAll WHITESPACE_RUN f (xs @ s) = xs @ replaceAll WHITESPACE_RUN f s"
  by (induction xs) (simp_all add: collapse_copy)

lemma collapse_nonspace:
  assumes "\<not> isSpace d"
  shows "replaceAll WHITESPACE_RUN f (xs @ d # ys)
           = replaceAll WHITESPACE_RUN f xs @ d # replaceAll WHITESPACE_RUN f ys"
proof (induction "length xs" arbitrary: xs rule: less_induct)
  case less
  show ?case
  proof (cases xs)
    case Nil
    with assms show ?thesis by (simp add: collapse_Nil collapse_copy)
  next
    case (Cons c cs)
    show ?thesis
    proof (cases "isSpace c")
      case True
      have "length (dropWhile isSpace cs) < length xs"
        using length_dropWhile_le[of isSpace cs] by (simp add: Cons)
      from less[OF this] assms True show ?thesis
        by (simp add: Cons collapse_space dropWhile_append3)
    next
      case False
      have "length cs < length xs" by (simp add: Cons)
      from less[OF this] False show ?thesis by (simp add: Cons collapse_copy)
    qed
  qed
qed

lemma collapse_nonempty: "xs \<noteq> [] \<Longrightarrow> replaceAll WHITESPACE_RUN (\<lambda>_. '' '') xs \<noteq> []"
  by (cases xs; cases "isSpace (hd xs)") (simp_all add: collapse_space collapse_copy)

lemma collapse_bracketFree:
  "bracketFree xs \<Longrightarrow> bracketFree (replaceAll WHITESPACE_RUN (\<lambda>_. '' '') xs)"
  unfolding bracketFree_def replaceAll_def
  by (rule replaceAll_go_all) simp_all

lemma collapse_kind:
  assumes "kind \<in> set slackKinds"
  shows "replaceAll WHITESPACE_RUN (\<lambda>_. '' '') kind = kind"
proof -
  have "replaceAll WHITESPACE_RUN (\<lambda>_. '' '') ''Slack file'' = ''Slack file''"
    "replaceAll WHITESPACE_RUN (\<lambda>_. '' '') ''Forwarded image'' = ''Forwarded image''"
    "replaceAll WHITESPACE_RUN (\<lambda>_. '' '') ''attached'' = ''attached''"
    by code_simp+
  with assms show ?thesis by (auto simp: slackKinds_def)
qed

lemma collapse_closed:
  "list_all wellFormed toks \<Longrightarrow>
   \<exists>toks'. list_all wellFormed toks' \<and>
     replaceAll WHITESPACE_RUN (\<lambda>_. '' '') (placeholderText toks) = placeholderText toks'"
proof (induction "length (placeholderText toks)" arbitrary: toks rule: less_induct)
  case less
  let ?C = "replaceAll WHITESPACE_RUN (\<lambda>_. '' '')"
  show ?case
  proof (cases toks)
    case Nil
    show ?thesis by (intro exI[of _ "[]"]) (simp add: Nil collapse_Nil)
  next
    case (Cons t ts)
    with less.prems have t: "wellFormed t" and ts: "list_all wellFormed ts" by simp_all
    have "length (placeholderText ts) < length (placeholderText toks)"
      using t by (cases t rule: render.cases) (simp_all add: Cons)
    from less.hyps[OF this ts] obtain ts' where ts': "list_all wellFormed ts'"
      "?C (placeholderText ts) = placeholderText ts'" by blast
    show ?thesis
    proof (cases t rule: render.cases)
      case (1 c)
      from dropWhile_closed[OF ts] obtain t1 where t1: "list_all wellFormed t1"
        "dropWhile isSpace (placeholderText ts) = placeholderText t1" by blast
      have "length (placeholderText t1) < length (placeholderText toks)"
        using length_dropWhile_le[of isSpace "placeholderText ts"] by (simp add: Cons 1 t1(2))
      from less.hyps[OF this t1(1)] obtain t2 where t2: "list_all wellFormed t2"
        "?C (placeholderText t1) = placeholderText t2" by blast
      have "?C (placeholderText toks) = placeholderText (Gap CHR '' '' # t2)"
        using t by (simp add: Cons 1 collapse_space t1(2) t2(2))
      with t2(1) show ?thesis by (intro exI[of _ "Gap CHR '' '' # t2"]) simp
    next
      case (2 b)
      have "?C (placeholderText toks) = ''<media:'' @ ?C (b @ CHR ''>'' # placeholderText ts)"
        using collapse_copy_run[of "''<media:''" "\<lambda>_. '' ''" "b @ CHR ''>'' # placeholderText ts"]
        by (simp add: Cons 2 isSpace_def)
      then have "?C (placeholderText toks) = placeholderText (Media (?C b) # ts')"
        by (simp add: collapse_nonspace ts'(2))
      moreover have "wellFormed (Media (?C b))"
        using t by (simp add: 2 collapse_nonempty collapse_bracketFree)
      ultimately show ?thesis using ts'(1) by (intro exI[of _ "Media (?C b) # ts'"]) simp
    next
      case (3 k)
      have "?C (placeholderText toks) = CHR ''['' # ?C (k @ CHR '']'' # placeholderText ts)"
        by (simp add: Cons 3 collapse_copy)
      then have "?C (placeholderText toks) = placeholderText (t # ts')"
        using t by (simp add: 3 collapse_nonspace ts'(2) collapse_kind)
      with t ts'(1) show ?thesis by (intro exI[of _ "t # ts'"]) simp
    next
      case (4 k n)
      have "?C (placeholderText toks)
              = CHR ''['' # ?C (k @ CHR '':'' # (n @ CHR '']'' # placeholderText ts))"
        by (simp add: Cons 4 collapse_copy)
      then have "?C (placeholderText toks) = placeholderText (Slack k (Some (?C n)) # ts')"
        using t by (simp add: 4 collapse_nonspace ts'(2) collapse_kind)
      moreover have "wellFormed (Slack k (Some (?C n)))"
        using t by (simp add: 4 collapse_nonempty collapse_bracketFree)
      ultimately show ?thesis
        using ts'(1) by (intro exI[of _ "Slack k (Some (?C n)) # ts'"]) simp
    qed
  qed
qed

text \<open>The patterns anchored at the start find nothing before a token.\<close>

lemma replaceFirst_go_id:
  assumes "\<forall>p s. p \<noteq> None \<longrightarrow> exec r p s = None"
  shows "exec r p s = None \<Longrightarrow> replaceFirst_go r t p s = s"
proof (induction s arbitrary: p)
  case Nil
  then show ?case by simp
next
  case (Cons c cs)
  have "exec r (Some c) cs = None" using assms by simp
  from Cons.IH[OF this] Cons.prems show ?case by simp
qed

lemma exec_Bol: "p \<noteq> None \<Longrightarrow> exec (seqs (Bol # rs)) p s = None"
  by (cases p) (simp_all add: exec_def)

lemma replaceFirst_Bol_id:
  assumes "exec (seqs (Bol # rs)) None s = None"
  shows "replaceFirst (seqs (Bol # rs)) t s = s"
  unfolding replaceFirst_def
proof (rule replaceFirst_go_id)
  show "\<forall>p s. p \<noteq> None \<longrightarrow> exec (seqs (Bol # rs)) p s = None"
    by (intro allI impI exec_Bol)
  show "exec (seqs (Bol # rs)) None s = None" by fact
qed

lemma thread_prefix_id:
  assumes "s \<noteq> []" and "hd s = CHR ''<'' \<or> hd s = CHR ''[''"
  shows "replaceFirst SLACK_THREAD_PREFIX_RE [] s = s"
proof -
  have "bt (liti ''slack thread'') K \<lparr>prev = None, rest = s, cap = None\<rparr> = None" for K :: "mstate \<Rightarrow> (nat \<times> string option) option"
    using assms by (intro bt_liti_mismatch) (auto simp: toLowerChar_Char)
  then have "exec SLACK_THREAD_PREFIX_RE None s = None"
    by (simp add: exec_def SLACK_THREAD_PREFIX_RE_def)
  then show ?thesis
    unfolding SLACK_THREAD_PREFIX_RE_def by (rule replaceFirst_Bol_id)
qed

lemma leading_punctuation_id:
  assumes "s \<noteq> []" and "hd s = CHR ''<'' \<or> hd s = CHR ''[''"
  shows "replaceFirst LEADING_PUNCTUATION_RE [] s = s"
proof -
  from assms obtain c cs where s: "s = c # cs" and c: "c = CHR ''<'' \<or> c = CHR ''[''"
    by (cases s) auto
  then have "exec LEADING_PUNCTUATION_RE None s = None"
    by (auto simp: exec_def LEADING_PUNCTUATION_RE_def)
  then show ?thesis
    unfolding LEADING_PUNCTUATION_RE_def by (rule replaceFirst_Bol_id)
qed

text \<open>Nothing is left of placeholder text.\<close>

lemma strip_placeholderText:
  assumes "list_all wellFormed toks"
  shows "stripMediaPlaceholderTokens (placeholderText toks) = []"
proof -
  from trim_closed[OF assms] obtain t1 where t1: "list_all wellFormed t1"
    "trim (placeholderText toks) = placeholderText t1" by blast
  from media_closed[OF t1(1), of None] obtain t2 where t2: "list_all wellFormed t2"
    "\<forall>b. Media b \<notin> set t2"
    "replaceAll ATTACHMENT_PLACEHOLDER_TOKEN_RE (\<lambda>_. '' '') (placeholderText t1) = placeholderText t2"
    unfolding replaceAll_def by blast
  have "\<forall>c \<in> set (replaceAll SLACK_ATTACHMENT_PLACEHOLDER_TOKEN_RE (\<lambda>_. '' '') (placeholderText t2)).
          isSpace c"
    unfolding replaceAll_def by (rule slack_removed[OF t2(1,2)])
  then have "\<forall>c \<in> set (replaceAll WHITESPACE_RUN (\<lambda>_. '' '')
                (replaceAll SLACK_ATTACHMENT_PLACEHOLDER_TOKEN_RE (\<lambda>_. '' '') (placeholderText t2))).
          isSpace c"
    unfolding replaceAll_def[of WHITESPACE_RUN] by (intro replaceAll_go_all) simp_all
  then have "trim (replaceAll WHITESPACE_RUN (\<lambda>_. '' '')
                (replaceAll SLACK_ATTACHMENT_PLACEHOLDER_TOKEN_RE (\<lambda>_. '' '') (placeholderText t2)))
             = []"
    by (rule trim_all_space)
  then show ?thesis
    by (simp add: stripMediaPlaceholderTokens_def Let_def t1(2) t2(3))
qed

lemma stripTrailingPunctuation_Nil: "stripTrailingPunctuation [] = []"
  by code_simp

lemma candidate_placeholderText:
  assumes "list_all wellFormed toks"
  shows "candidateFromSource stripMediaPlaceholderTokens (Some (placeholderText toks)) = None \<or>
         candidateFromSource stripMediaPlaceholderTokens (Some (placeholderText toks)) = Some []"
proof -
  have m: "replaceAll MENTION_RE (\<lambda>_. '' '') (placeholderText toks) = placeholderText toks"
    unfolding replaceAll_def by (rule mention_identity[OF assms])
  from msgid_closed[OF assms, of None] obtain t1 where t1: "list_all wellFormed t1"
    "replaceAll MESSAGE_ID_RE (\<lambda>_. '' '') (placeholderText toks) = placeholderText t1"
    unfolding replaceAll_def by blast
  from collapse_closed[OF t1(1)] obtain t2 where t2: "list_all wellFormed t2"
    "replaceAll WHITESPACE_RUN (\<lambda>_. '' '') (placeholderText t1) = placeholderText t2" by blast
  from trim_closed[OF t2(1)] obtain t3 where t3: "list_all wellFormed t3"
    "trim (placeholderText t2) = placeholderText t3" by blast
  from trim_closed[OF t3(1)] obtain t4 where t4: "list_all wellFormed t4"
    "trim (placeholderText t3) = placeholderText t4" by blast
  let ?title0 = "placeholderText t3"
  have same: "replaceFirst LEADING_PUNCTUATION_RE [] (replaceFirst SLACK_THREAD_PREFIX_RE [] ?title0)
                = ?title0" if "?title0 \<noteq> []"
  proof -
    from that trim_hd[of "placeholderText t2"] have "\<not> isSpace (hd ?title0)" by (simp add: t3(2))
    with text_first[OF t3(1) that] have "hd ?title0 = CHR ''<'' \<or> hd ?title0 = CHR ''[''" by simp
    with that show ?thesis by (simp add: thread_prefix_id leading_punctuation_id)
  qed
  show ?thesis
    by (simp add: candidateFromSource_def Let_def m t1(2) t2(2) t3(2) same t4(2)
          strip_placeholderText[OF t4(1)] stripTrailingPunctuation_Nil)
qed

lemma titleFromSource_empty:
  "candidateFromSource f src = Some [] \<Longrightarrow> titleFromSource f icm m src = None"
  by (simp add: titleFromSource_def)

lemma derive_placeholderText:
  assumes "list_all wellFormed toks"
  shows "deriveConversationTitle2 icm (Some (placeholderText toks)) None maxChars = None"
proof -
  have "titleFromSource stripMediaPlaceholderTokens icm m (Some (placeholderText toks)) = None" for m
    using candidate_placeholderText[OF assms]
    by (auto simp: titleFromSource_rejected titleFromSource_empty)
  moreover have "titleFromSource stripMediaPlaceholderTokens icm m None = None" for m
    by (simp add: titleFromSource_def candidateFromSource_def)
  ultimately show ?thesis
    by (simp add: deriveConversationTitle2_def deriveWith_def Let_def)
qed


lemma please_review_candidate:
  "candidateFromSource stripMediaPlaceholderTokens (Some ''Please review [Slack file: report.pdf]'')
     = Some ''Please review''"
  "stripTrailingPunctuation ''Please review'' = ''Please review''"
  "candidateFromSource normalizeAttachmentTokens (Some ''Please review [Slack file: report.pdf]'')
     = Some ''Please review report.pdf''"
  "stripTrailingPunctuation ''Please review report.pdf'' = ''Please review report.pdf''"
  by code_simp+



end
